(* ===== verification/Prelude.thy ===== *)
theory Prelude
  imports Main "HOL-Library.Word" "HOL-Library.Sublist"
begin

text \<open>
  Shared vocabulary of the development: the machine types of the Rust code, the outcome of a
  call that may return, fail, panic or not return, sequencing of such calls with and without a
  threaded world, Rust's \<open>u64\<close> arithmetic with and without overflow checks, and the collections
  of facts the component theories fill.

  \<^item> \<open>('e, 'a) res\<close> is the outcome of a Rust call of type \<open>Result<A, E>\<close>: \<open>Ok\<close> and \<open>Err\<close> are the
    two constructors of the Rust type, \<open>Panic\<close> is an unwinding panic (\<open>unwrap\<close>, \<open>assert!\<close>,
    arithmetic overflow in a checked build), and \<open>Diverge\<close> is a loop that has used up the fuel of
    the model.
  \<^item> \<open>('w, 'e, 'a) act\<close> is such a call that also reads and changes a world \<open>'w\<close>; an error or a
    panic keeps the world as it was left at that point, as the code does.
\<close>

section \<open>Machine types\<close>

type_synonym u8 = "8 word"
type_synonym u64 = "64 word"
type_synonym u256 = "256 word"
type_synonym b256 = "256 word"
type_synonym address = "160 word"
type_synonym bytes = "8 word list"

section \<open>Collections of facts\<close>

named_theorems act_simps
  \<open>equations that run a sequenced call\<close>

named_theorems preserves_intros
  \<open>introduction rules for preservation of a world invariant by a call\<close>

named_theorems key_simps
  \<open>disjointness and injectivity of the store's keys\<close>

section \<open>Outcomes\<close>

datatype panic =
    Arith_overflow
  | Unwrap_failed
  | Assert_failed
  | Slice_length
  | Time_subtraction

datatype (dead 'e, 'a) res =
    Ok 'a
  | Err 'e
  | Panic panic
  | Diverge

fun is_ok :: "('e, 'a) res \<Rightarrow> bool" where
  "is_ok (Ok _) = True"
| "is_ok _ = False"

fun is_err :: "('e, 'a) res \<Rightarrow> bool" where
  "is_err (Err _) = True"
| "is_err _ = False"

fun rbind :: "('e, 'a) res \<Rightarrow> ('a \<Rightarrow> ('e, 'b) res) \<Rightarrow> ('e, 'b) res" where
  "rbind (Ok x) f = f x"
| "rbind (Err e) f = Err e"
| "rbind (Panic p) f = Panic p"
| "rbind Diverge f = Diverge"

fun rmap_err :: "('e \<Rightarrow> 'f) \<Rightarrow> ('e, 'a) res \<Rightarrow> ('f, 'a) res" where
  "rmap_err g (Ok x) = Ok x"
| "rmap_err g (Err e) = Err (g e)"
| "rmap_err g (Panic p) = Panic p"
| "rmap_err g Diverge = Diverge"

fun of_sum :: "('e + 'a) \<Rightarrow> ('e, 'a) res" where
  "of_sum (Inl e) = Err e"
| "of_sum (Inr x) = Ok x"

text \<open>\<open>ensure b e\<close> is the early return \<open>if !b { return Err(e) }\<close>, \<open>assert_that\<close> is \<open>assert!\<close>.\<close>

definition ensure :: "bool \<Rightarrow> 'e \<Rightarrow> ('e, unit) res" where
  "ensure b e = (if b then Ok () else Err e)"

definition assert_that :: "bool \<Rightarrow> ('e, unit) res" where
  "assert_that b = (if b then Ok () else Panic Assert_failed)"

lemma rbind_Ok_iff: "rbind m f = Ok y \<longleftrightarrow> (\<exists>x. m = Ok x \<and> f x = Ok y)"
  by (cases m) auto

lemma rbind_Err_iff:
  "rbind m f = Err e \<longleftrightarrow> m = Err e \<or> (\<exists>x. m = Ok x \<and> f x = Err e)"
  by (cases m) auto

lemma rbind_Panic_iff:
  "rbind m f = Panic p \<longleftrightarrow> m = Panic p \<or> (\<exists>x. m = Ok x \<and> f x = Panic p)"
  by (cases m) auto

lemma rmap_err_Ok_iff [simp]: "rmap_err g m = Ok y \<longleftrightarrow> m = Ok y"
  by (cases m) auto

lemma of_sum_Ok_iff [simp]: "of_sum m = Ok y \<longleftrightarrow> m = Inr y"
  by (cases m) auto

lemma of_sum_Err_iff [simp]: "of_sum m = Err e \<longleftrightarrow> m = Inl e"
  by (cases m) auto

lemma of_sum_eq_sym [simp]: "Ok y = of_sum m \<longleftrightarrow> m = Inr y" "Err e = of_sum m \<longleftrightarrow> m = Inl e"
  by (cases m; auto)+

lemma of_sum_inject [simp]: "of_sum m = of_sum m' \<longleftrightarrow> m = m'"
  by (cases m; cases m') auto

lemma of_sum_no_panic [simp]: "of_sum m \<noteq> Panic p" "of_sum m \<noteq> Diverge"
  by (cases m; simp)+

lemma not_Inr_unit: "r \<noteq> Inr () \<longleftrightarrow> (\<exists>e. r = Inl e)"
  by (cases r) auto

lemma ensure_Ok_iff [simp]: "ensure b e = Ok u \<longleftrightarrow> b"
  by (simp add: ensure_def)

lemma ensure_Err_iff [simp]: "ensure b e = Err e' \<longleftrightarrow> \<not> b \<and> e' = e"
  by (auto simp: ensure_def)

lemma assert_that_Ok_iff [simp]: "assert_that b = Ok u \<longleftrightarrow> b"
  by (simp add: assert_that_def)

lemma is_ok_iff: "is_ok m \<longleftrightarrow> (\<exists>x. m = Ok x)"
  by (cases m) auto

lemma is_err_iff: "is_err m \<longleftrightarrow> (\<exists>e. m = Err e)"
  by (cases m) auto

section \<open>Calls over a world\<close>

type_synonym ('w, 'e, 'a) act = "'w \<Rightarrow> ('e, 'a) res \<times> 'w"

definition aret :: "'a \<Rightarrow> ('w, 'e, 'a) act" where
  "aret x = (\<lambda>w. (Ok x, w))"

definition afail :: "'e \<Rightarrow> ('w, 'e, 'a) act" where
  "afail e = (\<lambda>w. (Err e, w))"

text \<open>\<open>abind\<close> is the sequencing of \<open>call().await?\<close>: an error returns at once.\<close>

definition abind :: "('w, 'e, 'a) act \<Rightarrow> ('a \<Rightarrow> ('w, 'e, 'b) act) \<Rightarrow> ('w, 'e, 'b) act" where
  "abind m f = (\<lambda>w. case m w of
      (Ok x, w') \<Rightarrow> f x w'
    | (Err e, w') \<Rightarrow> (Err e, w')
    | (Panic p, w') \<Rightarrow> (Panic p, w')
    | (Diverge, w') \<Rightarrow> (Diverge, w'))"

text \<open>\<open>amatch\<close> is \<open>match call().await { Ok(x) => f(x), Err(e) => g(e) }\<close>.\<close>

definition amatch ::
  "('w, 'e, 'a) act \<Rightarrow> ('a \<Rightarrow> ('w, 'f, 'b) act) \<Rightarrow> ('e \<Rightarrow> ('w, 'f, 'b) act) \<Rightarrow> ('w, 'f, 'b) act"
  where
  "amatch m f g = (\<lambda>w. case m w of
      (Ok x, w') \<Rightarrow> f x w'
    | (Err e, w') \<Rightarrow> g e w'
    | (Panic p, w') \<Rightarrow> (Panic p, w')
    | (Diverge, w') \<Rightarrow> (Diverge, w'))"

definition alift :: "('e, 'a) res \<Rightarrow> ('w, 'e, 'a) act" where
  "alift m = (\<lambda>w. (m, w))"

definition amap_err :: "('e \<Rightarrow> 'f) \<Rightarrow> ('w, 'e, 'a) act \<Rightarrow> ('w, 'f, 'a) act" where
  "amap_err g m = (\<lambda>w. (rmap_err g (fst (m w)), snd (m w)))"

text \<open>\<open>afor\<close> is a \<open>for\<close> loop whose body may return early with an error.\<close>

fun afor :: "'a list \<Rightarrow> ('a \<Rightarrow> ('w, 'e, unit) act) \<Rightarrow> ('w, 'e, unit) act" where
  "afor [] f = aret ()"
| "afor (x # xs) f = abind (f x) (\<lambda>_. afor xs f)"

lemma aret_run [act_simps]: "aret x w = (Ok x, w)"
  by (simp add: aret_def)

lemma afail_run [act_simps]: "afail e w = (Err e, w)"
  by (simp add: afail_def)

lemma alift_run [act_simps]: "alift m w = (m, w)"
  by (simp add: alift_def)

lemma abind_run [act_simps]:
  "m w = (Ok x, w') \<Longrightarrow> abind m f w = f x w'"
  "m w = (Err e, w') \<Longrightarrow> abind m f w = (Err e, w')"
  "m w = (Panic p, w') \<Longrightarrow> abind m f w = (Panic p, w')"
  "m w = (Diverge, w') \<Longrightarrow> abind m f w = (Diverge, w')"
  by (simp_all add: abind_def)

lemma amatch_run [act_simps]:
  "m w = (Ok x, w') \<Longrightarrow> amatch m f g w = f x w'"
  "m w = (Err e, w') \<Longrightarrow> amatch m f g w = g e w'"
  "m w = (Panic p, w') \<Longrightarrow> amatch m f g w = (Panic p, w')"
  "m w = (Diverge, w') \<Longrightarrow> amatch m f g w = (Diverge, w')"
  by (simp_all add: amatch_def)

lemma amap_err_run [act_simps]:
  "m w = (r, w') \<Longrightarrow> amap_err g m w = (rmap_err g r, w')"
  by (simp add: amap_err_def)

lemma abind_cases:
  assumes "abind m f w = (r, w')"
  obtains (ok) x w1 where "m w = (Ok x, w1)" "f x w1 = (r, w')"
  | (err) e where "m w = (Err e, w')" "r = Err e"
  | (panic) p where "m w = (Panic p, w')" "r = Panic p"
  | (diverge) "m w = (Diverge, w')" "r = Diverge"
  using assms by (auto simp: abind_def split: prod.splits res.splits)

lemma abind_Ok_cases:
  assumes "abind m f w = (Ok y, w')"
  obtains x w1 where "m w = (Ok x, w1)" "f x w1 = (Ok y, w')"
  using assms by (auto simp: abind_def split: prod.splits res.splits)

subsection \<open>Preservation of an invariant of the world\<close>

text \<open>
  \<open>preserves I m\<close>: whatever the outcome of the call \<open>m\<close>, it keeps the invariant \<open>I\<close>;
  \<open>ensures I m Q\<close> adds that a value it returns satisfies \<open>Q\<close>. The rules below build such facts
  along the structure of a call.
\<close>

definition ensures :: "('w \<Rightarrow> bool) \<Rightarrow> ('w, 'e, 'a) act \<Rightarrow> ('a \<Rightarrow> bool) \<Rightarrow> bool" where
  "ensures I m Q \<longleftrightarrow>
     (\<forall>w r w'. I w \<longrightarrow> m w = (r, w') \<longrightarrow> I w' \<and> (\<forall>x. r = Ok x \<longrightarrow> Q x))"

abbreviation preserves :: "('w \<Rightarrow> bool) \<Rightarrow> ('w, 'e, 'a) act \<Rightarrow> bool" where
  "preserves I m \<equiv> ensures I m (\<lambda>_. True)"

lemma ensuresI:
  "(\<And>w r w'. I w \<Longrightarrow> m w = (r, w') \<Longrightarrow> I w' \<and> (\<forall>x. r = Ok x \<longrightarrow> Q x)) \<Longrightarrow> ensures I m Q"
  by (simp add: ensures_def)

lemma ensuresD:
  "ensures I m Q \<Longrightarrow> I w \<Longrightarrow> m w = (r, w') \<Longrightarrow> I w'"
  "ensures I m Q \<Longrightarrow> I w \<Longrightarrow> m w = (Ok x, w') \<Longrightarrow> Q x"
  by (auto simp: ensures_def)

lemma ensures_weaken: "ensures I m Q \<Longrightarrow> (\<And>x. Q x \<Longrightarrow> Q' x) \<Longrightarrow> ensures I m Q'"
  by (auto simp: ensures_def)

lemma ensures_preserves: "ensures I m Q \<Longrightarrow> preserves I m"
  by (erule ensures_weaken) simp

lemma ensures_aret [preserves_intros]: "Q x \<Longrightarrow> ensures I (aret x) Q"
  by (auto simp: ensures_def aret_def)

lemma ensures_afail [preserves_intros]: "ensures I (afail e) Q"
  by (auto simp: ensures_def afail_def)

lemma ensures_alift: "(\<And>x. m = Ok x \<Longrightarrow> Q x) \<Longrightarrow> ensures I (alift m) Q"
  by (auto simp: ensures_def alift_def)

lemma preserves_alift [preserves_intros]: "preserves I (alift m)"
  by (rule ensures_alift) simp

lemma ensures_abind:
  assumes "ensures I m Q" and "\<And>x. Q x \<Longrightarrow> ensures I (f x) P"
  shows "ensures I (abind m f) P"
proof (rule ensuresI)
  fix w r w' assume I: "I w" and run: "abind m f w = (r, w')"
  from run show "I w' \<and> (\<forall>x. r = Ok x \<longrightarrow> P x)"
  proof (cases rule: abind_cases)
    case (ok x w1)
    with assms I show ?thesis by (metis ensures_def)
  qed (use assms(1) I in \<open>auto dest: ensuresD(1)\<close>)
qed

lemma preserves_abind [preserves_intros]:
  "preserves I m \<Longrightarrow> (\<And>x. ensures I (f x) P) \<Longrightarrow> ensures I (abind m f) P"
  by (rule ensures_abind)

lemma ensures_amatch:
  assumes "ensures I m Q" and "\<And>x. Q x \<Longrightarrow> ensures I (f x) P" and "\<And>e. ensures I (g e) P"
  shows "ensures I (amatch m f g) P"
proof (rule ensuresI)
  fix w r w' assume I: "I w" and run: "amatch m f g w = (r, w')"
  obtain s w1 where s: "m w = (s, w1)" by (cases "m w")
  with assms(1) I have I1: "I w1" by (rule ensuresD(1))
  show "I w' \<and> (\<forall>x. r = Ok x \<longrightarrow> P x)"
  proof (cases s)
    case (Ok x)
    with s assms(1) I have "Q x" by (auto dest: ensuresD(2))
    with Ok s run I1 assms(2) show ?thesis by (auto simp: amatch_def ensures_def)
  next
    case (Err e)
    with s run I1 assms(3) show ?thesis by (auto simp: amatch_def ensures_def)
  qed (use s run I1 in \<open>auto simp: amatch_def\<close>)
qed

lemma preserves_amatch [preserves_intros]:
  "preserves I m \<Longrightarrow> (\<And>x. ensures I (f x) P) \<Longrightarrow> (\<And>e. ensures I (g e) P)
    \<Longrightarrow> ensures I (amatch m f g) P"
  by (rule ensures_amatch)

lemma ensures_amap_err [preserves_intros]:
  "ensures I m Q \<Longrightarrow> ensures I (amap_err g m) Q"
  by (auto simp: ensures_def amap_err_def) (metis prod.collapse)+

lemma preserves_afor [preserves_intros]:
  "(\<And>x. x \<in> set xs \<Longrightarrow> preserves I (f x)) \<Longrightarrow> preserves I (afor xs f)"
  by (induction xs) (auto intro!: preserves_intros)

section \<open>Rust's u64 arithmetic\<close>

text \<open>
  \<open>a + b\<close>, \<open>a - b\<close> and \<open>a * b\<close> of \<open>u64\<close> panic on overflow in a build with overflow checks (the
  default of \<open>dev\<close> and \<open>test\<close>) and wrap in one without (the default of \<open>release\<close>); the flag \<open>chk\<close>
  is the build's setting.
\<close>

definition u64_add :: "bool \<Rightarrow> u64 \<Rightarrow> u64 \<Rightarrow> ('e, u64) res" where
  "u64_add chk a b =
     (if chk \<and> 2 ^ 64 \<le> unat a + unat b then Panic Arith_overflow else Ok (a + b))"

definition u64_sub :: "bool \<Rightarrow> u64 \<Rightarrow> u64 \<Rightarrow> ('e, u64) res" where
  "u64_sub chk a b = (if chk \<and> a < b then Panic Arith_overflow else Ok (a - b))"

definition u64_mul :: "bool \<Rightarrow> u64 \<Rightarrow> u64 \<Rightarrow> ('e, u64) res" where
  "u64_mul chk a b =
     (if chk \<and> 2 ^ 64 \<le> unat a * unat b then Panic Arith_overflow else Ok (a * b))"

definition u64_saturating_sub :: "u64 \<Rightarrow> u64 \<Rightarrow> u64" where
  "u64_saturating_sub a b = (if a < b then 0 else a - b)"

lemma u64_add_ok: "unat a + unat b < 2 ^ 64 \<Longrightarrow> u64_add chk a b = Ok (a + b)"
  by (simp add: u64_add_def)

lemma u64_mul_ok: "unat a * unat b < 2 ^ 64 \<Longrightarrow> u64_mul chk a b = Ok (a * b)"
  by (simp add: u64_mul_def)

lemma u64_sub_ok: "b \<le> a \<Longrightarrow> u64_sub chk a b = Ok (a - b)"
  by (simp add: u64_sub_def not_less)

lemma unat_u64_add: "unat a + unat b < 2 ^ 64 \<Longrightarrow> unat (a + b :: u64) = unat a + unat b"
  by (simp add: unat_word_ariths)

lemma unat_u64_mul: "unat a * unat b < 2 ^ 64 \<Longrightarrow> unat (a * b :: u64) = unat a * unat b"
  by (simp add: unat_word_ariths)

lemma unat_u64_sub: "b \<le> a \<Longrightarrow> unat (a - b :: u64) = unat a - unat b"
  by (simp add: unat_sub)

lemma unat_u64_saturating_sub: "unat (u64_saturating_sub a b) = unat a - unat b"
  by (auto simp: u64_saturating_sub_def unat_sub word_less_nat_alt not_less word_le_nat_alt)

section \<open>Lists\<close>

text \<open>The outcome of validating a list element by element: the first error stops the loop.\<close>

fun rmapM :: "('a \<Rightarrow> ('e, 'b) res) \<Rightarrow> 'a list \<Rightarrow> ('e, 'b list) res" where
  "rmapM f [] = Ok []"
| "rmapM f (x # xs) = rbind (f x) (\<lambda>y. rbind (rmapM f xs) (\<lambda>ys. Ok (y # ys)))"

lemma rmapM_Ok_iff: "rmapM f xs = Ok ys \<longleftrightarrow> list_all2 (\<lambda>x y. f x = Ok y) xs ys"
  by (induction xs arbitrary: ys) (auto simp: rbind_Ok_iff list_all2_Cons1)

lemma rmapM_Err:
  "rmapM f xs = Err e \<Longrightarrow> \<exists>x \<in> set xs. f x = Err e"
  by (induction xs) (auto simp: rbind_Err_iff)

lemma rmapM_no_panic:
  "(\<And>x. x \<in> set xs \<Longrightarrow> is_ok (f x) \<or> is_err (f x)) \<Longrightarrow> is_ok (rmapM f xs) \<or> is_err (rmapM f xs)"
proof (induction xs)
  case (Cons x xs)
  then have "is_ok (f x) \<or> is_err (f x)" and "is_ok (rmapM f xs) \<or> is_err (rmapM f xs)"
    by simp_all
  then show ?case by (auto simp: is_ok_iff is_err_iff)
qed simp

end
