(* ===== verification/External.thy ===== *)
theory External
  imports Prelude
begin

text \<open>
  The code the repository calls and does not contain, as parameters of the model. Each record
  below groups the functions of one such library; a definition that uses one takes the record as
  an argument, and what a property needs of it is a hypothesis of that property.

  \<^item> \<open>'x helios\<close>: \<open>helios_consensus_core\<close> (verification and application of light-client updates)
    and the \<open>tree_hash\<close> roots of its types.
  \<^item> \<open>crypto\<close>: \<open>keccak256\<close>, the RLP encoders and the Merkle-Patricia proof check of the alloy
    crates.
  \<^item> \<open>select_ok_spec\<close>: what \<open>futures::future::select_ok\<close> documents.

  The records for the types of those libraries hold the parts the code reads; the rest of such a
  value, which the code only passes on, is one payload of the type \<open>'x\<close>.
\<close>

section \<open>Light-client types\<close>

record exec_header =
  block_number :: u64
  state_root :: b256

record 'x beacon_header =
  slot :: u64
  beacon_rest :: 'x

text \<open>\<open>header.beacon()\<close>, and \<open>header.execution()\<close> with \<open>None\<close> for its error.\<close>

record 'x header =
  beacon :: "'x beacon_header"
  execution :: "exec_header option"

record 'x store =
  finalized_header :: "'x header"
  optimistic_header :: "'x header"
  current_sync_committee :: 'x
  next_sync_committee :: "'x option"
  store_rest :: 'x

record 'x finality_update =
  fin_header :: "'x header"
  fin_rest :: 'x

record 'x bootstrap_data =
  boot_header :: "'x header"
  boot_rest :: 'x

abbreviation fin_slot :: "'x store \<Rightarrow> u64" where
  "fin_slot s \<equiv> slot (beacon (finalized_header s))"

section \<open>The consensus library\<close>

text \<open>
  A verification returns \<open>Inr ()\<close> or \<open>Inl\<close> with the library's error. Applying an update returns
  the new store and the checkpoint it established, if any. \<open>SystemTime\<close> is a number of
  nanoseconds since the Unix epoch.
\<close>

type_synonym system_time = nat

record 'x helios =
  h_verify_update :: "'x \<Rightarrow> u64 \<Rightarrow> 'x store \<Rightarrow> b256 \<Rightarrow> 'x \<Rightarrow> string + unit"
  h_apply_update :: "'x store \<Rightarrow> 'x \<Rightarrow> 'x store \<times> b256 option"
  h_verify_finality :: "'x finality_update \<Rightarrow> u64 \<Rightarrow> 'x store \<Rightarrow> b256 \<Rightarrow> 'x \<Rightarrow> string + unit"
  h_apply_finality :: "'x store \<Rightarrow> 'x finality_update \<Rightarrow> 'x store \<times> b256 option"
  h_verify_bootstrap :: "'x bootstrap_data \<Rightarrow> b256 \<Rightarrow> 'x \<Rightarrow> string + unit"
  h_apply_bootstrap :: "'x store \<Rightarrow> 'x bootstrap_data \<Rightarrow> 'x store"
  h_calc_sync_period :: "u64 \<Rightarrow> u64"
  h_expected_slot :: "system_time \<Rightarrow> u64 \<Rightarrow> u64"
  h_beacon_root :: "'x beacon_header \<Rightarrow> b256"
  h_committee_root :: "'x \<Rightarrow> b256"
  h_default_store :: "'x store"

section \<open>Hashing, RLP and Merkle-Patricia proofs\<close>

record trie_account =
  acc_nonce :: u64
  acc_balance :: u256
  acc_storage_root :: b256
  acc_code_hash :: b256

record crypto =
  c_keccak :: "bytes \<Rightarrow> b256"
  c_nibbles :: "bytes \<Rightarrow> bytes"
  c_rlp_account :: "trie_account \<Rightarrow> bytes"
  c_rlp_u256 :: "u256 \<Rightarrow> bytes"
  c_verify_proof :: "b256 \<Rightarrow> bytes \<Rightarrow> bytes option \<Rightarrow> bytes list \<Rightarrow> string + unit"

text \<open>The answer of an execution node to \<open>eth_getProof\<close>.\<close>

record storage_proof_item =
  sp_value :: u256
  sp_proof :: "bytes list"

record account_proof_response =
  pr_address :: address
  pr_balance :: u256
  pr_code_hash :: b256
  pr_nonce :: u64
  pr_storage_hash :: b256
  pr_account_proof :: "bytes list"
  pr_storage_proof :: "storage_proof_item list"

text \<open>
  The bytes of a fixed-size value, most significant first: \<open>as_slice\<close>, \<open>as_ref\<close> and
  \<open>to_be_bytes\<close>. A \<open>B256\<close> and a \<open>U256\<close> are both 256-bit words here, so
  \<open>FixedBytes(value.to_be_bytes())\<close> is the same word.
\<close>

definition be_bytes :: "nat \<Rightarrow> 'a::len word \<Rightarrow> bytes" where
  "be_bytes n w = map (\<lambda>i. ucast (drop_bit (8 * (n - 1 - i)) w)) [0..<n]"

lemma length_be_bytes [simp]: "length (be_bytes n w) = n"
  by (simp add: be_bytes_def)

section \<open>Racing futures\<close>

text \<open>
  \<open>select_ok\<close> polls a non-empty collection of futures and returns the first success; it returns an
  error only when every future has failed, and then the last one's. Which success is first is up
  to the network, so the selection is a parameter and this is all that is known of it.
\<close>

definition select_ok_spec :: "(('e, 'a) res list \<Rightarrow> ('e, 'a) res) \<Rightarrow> bool" where
  "select_ok_spec sel \<longleftrightarrow>
     (\<forall>xs. xs \<noteq> [] \<longrightarrow> sel xs \<in> set xs \<and> (is_err (sel xs) \<longrightarrow> list_all is_err xs))"

lemma select_ok_member: "select_ok_spec sel \<Longrightarrow> xs \<noteq> [] \<Longrightarrow> sel xs \<in> set xs"
  by (simp add: select_ok_spec_def)

lemma select_ok_fails:
  "select_ok_spec sel \<Longrightarrow> xs \<noteq> [] \<Longrightarrow> is_err (sel xs) \<Longrightarrow> x \<in> set xs \<Longrightarrow> is_err x"
  by (auto simp: select_ok_spec_def list_all_iff)

text \<open>An instance for concrete runs: the futures complete in their order.\<close>

fun in_order :: "('e, 'a) res list \<Rightarrow> ('e, 'a) res" where
  "in_order [] = Panic Unwrap_failed"
| "in_order [x] = x"
| "in_order (x # y # ys) = (if is_err x then in_order (y # ys) else x)"

lemma in_order_member: "xs \<noteq> [] \<Longrightarrow> in_order xs \<in> set xs"
  by (induction xs rule: in_order.induct) auto

lemma in_order_fails: "xs \<noteq> [] \<Longrightarrow> is_err (in_order xs) \<Longrightarrow> list_all is_err xs"
  by (induction xs rule: in_order.induct) (auto split: if_splits)

lemma in_order_select_ok: "select_ok_spec in_order"
  by (simp add: select_ok_spec_def in_order_member in_order_fails)

end
