(* ===== verification/Samples.thy ===== *)
theory Samples
  imports External
begin

text \<open>
  Concrete instances of the library parameters of \<open>External\<close>, on which the witnesses of the other
  theories evaluate. They are small functions that satisfy the documented laws; no definition of
  the model depends on them.

  A payload is a natural number. An update is the slot it finalises, and it is valid when that
  slot is past the store's and not past the expected slot. A Merkle proof is accepted when it has
  a node.
\<close>

definition sample_exec :: "u64 \<Rightarrow> exec_header" where
  "sample_exec s = \<lparr>block_number = s, state_root = ucast s\<rparr>"

definition sample_header :: "u64 \<Rightarrow> nat header" where
  "sample_header s = \<lparr>beacon = \<lparr>slot = s, beacon_rest = 0\<rparr>, execution = Some (sample_exec s)\<rparr>"

definition sample_store :: "u64 \<Rightarrow> nat store" where
  "sample_store s = \<lparr>finalized_header = sample_header s, optimistic_header = sample_header s,
     current_sync_committee = 1, next_sync_committee = None, store_rest = 0\<rparr>"

definition sample_finality :: "u64 \<Rightarrow> nat finality_update" where
  "sample_finality s = \<lparr>fin_header = sample_header s, fin_rest = 0\<rparr>"

definition sample_bootstrap :: "u64 \<Rightarrow> nat bootstrap_data" where
  "sample_bootstrap s = \<lparr>boot_header = sample_header s, boot_rest = 1\<rparr>"

definition sample_helios :: "nat helios" where
  "sample_helios = \<lparr>
     h_verify_update = (\<lambda>u expected s root fks.
       if fin_slot s < of_nat u \<and> of_nat u \<le> expected then Inr () else Inl ''update''),
     h_apply_update = (\<lambda>s u.
       (s\<lparr>finalized_header := sample_header (of_nat u), next_sync_committee := Some u\<rparr>,
        Some (of_nat u))),
     h_verify_finality = (\<lambda>f expected s root fks.
       if fin_slot s < slot (beacon (fin_header f)) \<and> slot (beacon (fin_header f)) \<le> expected
       then Inr () else Inl ''finality''),
     h_apply_finality = (\<lambda>s f.
       (s\<lparr>finalized_header := fin_header f\<rparr>, Some (ucast (slot (beacon (fin_header f)))))),
     h_verify_bootstrap = (\<lambda>b checkpoint fks.
       if ucast (slot (beacon (boot_header b))) = checkpoint then Inr () else Inl ''bootstrap''),
     h_apply_bootstrap = (\<lambda>s b.
       s\<lparr>finalized_header := boot_header b, optimistic_header := boot_header b,
         current_sync_committee := boot_rest b, next_sync_committee := None\<rparr>),
     h_calc_sync_period = (\<lambda>s. s div 8192),
     h_expected_slot = (\<lambda>now genesis. (of_nat (now div 10 ^ 9) - genesis) div 12),
     h_beacon_root = (\<lambda>b. ucast (slot b)),
     h_committee_root = of_nat,
     h_default_store = sample_store 0 \<rparr>"

definition sample_crypto :: crypto where
  "sample_crypto = \<lparr>
     c_keccak = (\<lambda>bs. of_nat (length bs)),
     c_nibbles = (\<lambda>bs. bs),
     c_rlp_account = (\<lambda>a. []),
     c_rlp_u256 = (\<lambda>v. []),
     c_verify_proof = (\<lambda>root nibbles expected proof.
       if proof = [] then Inl ''empty proof'' else Inr ()) \<rparr>"

definition sample_response :: "address \<Rightarrow> nat \<Rightarrow> account_proof_response" where
  "sample_response a n = \<lparr>pr_address = a, pr_balance = 5, pr_code_hash = 6, pr_nonce = 7,
     pr_storage_hash = 8, pr_account_proof = [[1]],
     pr_storage_proof = replicate n \<lparr>sp_value = 9, sp_proof = [[2]]\<rparr>\<rparr>"

lemmas sample_simps =
  sample_helios_def sample_crypto_def sample_header_def sample_exec_def sample_store_def
  sample_finality_def sample_bootstrap_def sample_response_def

end
