(* ===== verification/Storage_Proofs.thy ===== *)
theory Storage_Proofs
  imports Samples
begin

text \<open>
  The Merkle-proof part of the system: the types of \<open>primitives/src/types.rs\<close>, the conversion of
  an execution node's answer (\<open>ContractStorageBuilder::build\<close> of \<open>zk-api/src/types.rs\<close>) and the
  check \<open>verify_storage_slot_proofs\<close> as \<open>zk-api/src/lib.rs\<close> has it, which the service runs on an
  answer before it is proved. The copy the guest program runs is in \<open>Zk_Program\<close>.
\<close>

section \<open>Types\<close>

record storage_slot =
  ss_key :: b256
  ss_expected_value :: u256
  ss_mpt_proof :: "bytes list"

record contract_storage =
  cs_address :: address
  cs_expected_value :: trie_account
  cs_mpt_proof :: "bytes list"
  cs_storage_slots :: "storage_slot list"

record 'x proof_inputs =
  sync_committee_updates :: "'x list"
  finality_upd :: "'x finality_update"
  expected_slot :: u64
  light_store :: "'x store"
  genesis_root :: b256
  forks :: 'x
  contract_storage_slots :: contract_storage

record verified_storage_slot =
  vs_key :: b256
  vs_value :: b256
  vs_contract_address :: address

record proof_outputs =
  out_executionStateRoot :: b256
  out_newHeader :: b256
  out_nextSyncCommitteeHash :: b256
  out_newHead :: u256
  out_prevHeader :: b256
  out_prevHead :: u256
  out_syncCommitteeHash :: b256
  out_startSyncCommitteeHash :: b256
  out_slots :: "verified_storage_slot list"

datatype storage_error =
    Proof_length_mismatch
  | Account_unverified address string
  | Slot_unverified b256 string

section \<open>From a node's answer to the program's input\<close>

definition build_contract_storage ::
  "b256 list \<Rightarrow> account_proof_response \<Rightarrow> (storage_error, contract_storage) res" where
  "build_contract_storage storage_slots proof =
     (if length (pr_storage_proof proof) \<noteq> length storage_slots
      then Err Proof_length_mismatch
      else Ok \<lparr>
        cs_address = pr_address proof,
        cs_expected_value = \<lparr>
          acc_nonce = pr_nonce proof,
          acc_balance = pr_balance proof,
          acc_storage_root = pr_storage_hash proof,
          acc_code_hash = pr_code_hash proof \<rparr>,
        cs_mpt_proof = pr_account_proof proof,
        cs_storage_slots =
          map (\<lambda>(key, item). \<lparr>
              ss_key = key,
              ss_expected_value = sp_value item,
              ss_mpt_proof = sp_proof item \<rparr>)
            (zip storage_slots (pr_storage_proof proof)) \<rparr>)"

section \<open>The service's check\<close>

text \<open>The loop over the slots pushes onto \<open>verified\<close>; the first bad proof returns an error.\<close>

fun verify_slots_loop ::
  "crypto \<Rightarrow> contract_storage \<Rightarrow> storage_slot list \<Rightarrow> verified_storage_slot list
    \<Rightarrow> (storage_error, verified_storage_slot list) res" where
  "verify_slots_loop P cs [] verified = Ok verified"
| "verify_slots_loop P cs (sl # sls) verified =
     (let key = ss_key sl;
          value = ss_expected_value sl;
          key_nibbles = c_nibbles P (be_bytes 32 (c_keccak P (be_bytes 32 key)));
          rlp_encoded_value = c_rlp_u256 P value
      in case c_verify_proof P (acc_storage_root (cs_expected_value cs)) key_nibbles
                (Some rlp_encoded_value) (ss_mpt_proof sl) of
           Inl e \<Rightarrow> Err (Slot_unverified key e)
         | Inr _ \<Rightarrow> verify_slots_loop P cs sls
             (verified @ [\<lparr> vs_key = key, vs_value = value,
                            vs_contract_address = cs_address cs \<rparr>]))"

definition verify_storage_slot_proofs ::
  "crypto \<Rightarrow> b256 \<Rightarrow> contract_storage \<Rightarrow> (storage_error, verified_storage_slot list) res" where
  "verify_storage_slot_proofs P execution_state_root cs =
     (let address_hash = c_keccak P (be_bytes 20 (cs_address cs));
          address_nibbles = c_nibbles P (be_bytes 32 address_hash);
          rlp_encoded_trie_account = c_rlp_account P (cs_expected_value cs)
      in case c_verify_proof P execution_state_root address_nibbles
                (Some rlp_encoded_trie_account) (cs_mpt_proof cs) of
           Inl e \<Rightarrow> Err (Account_unverified (cs_address cs) e)
         | Inr _ \<Rightarrow> verify_slots_loop P cs (cs_storage_slots cs) [])"

section \<open>What the check establishes\<close>

text \<open>The two Merkle statements the check is about.\<close>

definition account_proved :: "crypto \<Rightarrow> b256 \<Rightarrow> contract_storage \<Rightarrow> bool" where
  "account_proved P root cs \<longleftrightarrow>
     c_verify_proof P root (c_nibbles P (be_bytes 32 (c_keccak P (be_bytes 20 (cs_address cs)))))
       (Some (c_rlp_account P (cs_expected_value cs))) (cs_mpt_proof cs) = Inr ()"

definition slot_check :: "crypto \<Rightarrow> contract_storage \<Rightarrow> storage_slot \<Rightarrow> string + unit" where
  "slot_check P cs sl =
     c_verify_proof P (acc_storage_root (cs_expected_value cs))
       (c_nibbles P (be_bytes 32 (c_keccak P (be_bytes 32 (ss_key sl)))))
       (Some (c_rlp_u256 P (ss_expected_value sl))) (ss_mpt_proof sl)"

definition slot_proved :: "crypto \<Rightarrow> contract_storage \<Rightarrow> storage_slot \<Rightarrow> bool" where
  "slot_proved P cs sl \<longleftrightarrow> slot_check P cs sl = Inr ()"

definition verified_of :: "contract_storage \<Rightarrow> storage_slot \<Rightarrow> verified_storage_slot" where
  "verified_of cs sl =
     \<lparr> vs_key = ss_key sl, vs_value = ss_expected_value sl, vs_contract_address = cs_address cs \<rparr>"

lemma verify_slots_loop_step:
  "verify_slots_loop P cs (sl # sls) acc =
     (case slot_check P cs sl of
        Inl e \<Rightarrow> Err (Slot_unverified (ss_key sl) e)
      | Inr _ \<Rightarrow> verify_slots_loop P cs sls (acc @ [verified_of cs sl]))"
  by (simp add: slot_check_def verified_of_def Let_def split: sum.split)

declare verify_slots_loop.simps(2) [simp del]

lemma verify_slots_loop_Ok:
  "verify_slots_loop P cs sls acc = Ok vs \<longleftrightarrow>
     list_all (slot_proved P cs) sls \<and> vs = acc @ map (verified_of cs) sls"
  by (induction sls arbitrary: acc)
     (auto simp: verify_slots_loop_step slot_proved_def split: sum.splits)

lemma verify_slots_loop_Err:
  "verify_slots_loop P cs sls acc = Err e \<longleftrightarrow>
     (\<exists>good sl bad msg. sls = good @ sl # bad \<and> list_all (slot_proved P cs) good \<and>
        slot_check P cs sl = Inl msg \<and> e = Slot_unverified (ss_key sl) msg)"
  (is "_ \<longleftrightarrow> (\<exists>good sl bad msg. ?split sls good sl bad msg)")
proof (induction sls arbitrary: acc)
  case Nil
  then show ?case by simp
next
  case (Cons x xs)
  show ?case
  proof (cases "slot_check P cs x")
    case (Inl m)
    then have only: "?split (x # xs) good sl bad msg \<longleftrightarrow>
        good = [] \<and> sl = x \<and> bad = xs \<and> msg = m \<and> e = Slot_unverified (ss_key x) m"
      for good sl bad msg
      by (cases good) (auto simp: slot_proved_def)
    from Inl show ?thesis by (simp only: only) (auto simp: verify_slots_loop_step)
  next
    case (Inr u)
    then have more: "?split (x # xs) good sl bad msg \<longleftrightarrow>
        (\<exists>good'. good = x # good' \<and> ?split xs good' sl bad msg)" for good sl bad msg
      by (cases good) (auto simp: slot_proved_def)
    from Inr Cons.IH show ?thesis by (simp only: more) (auto simp: verify_slots_loop_step)
  qed
qed

lemma verify_storage_Ok_iff:
  "verify_storage_slot_proofs P root cs = Ok vs \<longleftrightarrow>
     account_proved P root cs \<and> list_all (slot_proved P cs) (cs_storage_slots cs) \<and>
     vs = map (verified_of cs) (cs_storage_slots cs)"
  by (auto simp: verify_storage_slot_proofs_def account_proved_def Let_def verify_slots_loop_Ok
      split: sum.splits)

lemma build_keys:
  "build_contract_storage keys pr = Ok cs \<Longrightarrow> map ss_key (cs_storage_slots cs) = keys"
  by (auto simp: build_contract_storage_def split: if_splits intro!: nth_equalityI)

lemma build_address:
  "build_contract_storage keys pr = Ok cs \<Longrightarrow> cs_address cs = pr_address pr"
  by (auto simp: build_contract_storage_def split: if_splits)

section \<open>Properties\<close>

text \<open>
  C6: a storage check that succeeds has verified the account under the given state root and every
  slot under the account's storage root, and returns exactly the requested keys in their order,
  with the proved values, for the address of the node's answer.
\<close>

theorem storage_check_sound:
  assumes "build_contract_storage keys pr = Ok cs"
    and "verify_storage_slot_proofs P root cs = Ok vs"
  shows "account_proved P root cs \<and> list_all (slot_proved P cs) (cs_storage_slots cs) \<and>
    map vs_key vs = keys \<and> map vs_value vs = map sp_value (pr_storage_proof pr) \<and>
    list_all (\<lambda>v. vs_contract_address v = pr_address pr) vs"
proof -
  from assms(2) have proved: "account_proved P root cs" "list_all (slot_proved P cs) (cs_storage_slots cs)"
    and vs: "vs = map (verified_of cs) (cs_storage_slots cs)"
    by (simp_all add: verify_storage_Ok_iff)
  have keys: "map vs_key vs = keys"
    using build_keys [OF assms(1)] by (simp add: vs verified_of_def comp_def)
  have "map ss_expected_value (cs_storage_slots cs) = map sp_value (pr_storage_proof pr)"
    using assms(1) by (auto simp: build_contract_storage_def split: if_splits intro!: nth_equalityI)
  then have "map vs_value vs = map sp_value (pr_storage_proof pr)"
    by (simp add: vs verified_of_def comp_def)
  with proved keys build_address [OF assms(1)] show ?thesis
    by (simp add: vs verified_of_def list_all_iff)
qed

theorem storage_check_sound_witness:
  "\<exists>cs vs. build_contract_storage [10, 11] (sample_response 3 2) = Ok cs \<and>
     verify_storage_slot_proofs sample_crypto 42 cs = Ok vs \<and> map vs_key vs = [10, 11]"
proof -
  obtain cs where cs: "build_contract_storage [10, 11] (sample_response 3 2) = Ok cs"
    by (simp add: build_contract_storage_def sample_response_def)
  have "\<exists>vs. verify_storage_slot_proofs sample_crypto 42 cs = Ok vs"
    using cs by (auto simp: build_contract_storage_def sample_response_def verify_storage_Ok_iff
      account_proved_def slot_proved_def slot_check_def
      sample_crypto_def numeral_2_eq_2)
  then obtain vs where vs: "verify_storage_slot_proofs sample_crypto 42 cs = Ok vs" ..
  have "map vs_key vs = [10, 11]" using storage_check_sound [OF cs vs] by simp
  with cs vs show ?thesis by (intro exI conjI)
qed

text \<open>
  A storage check that fails on a slot names the first slot whose proof does not verify, after
  the account and every earlier slot have been verified.
\<close>

theorem storage_check_first_failure:
  "verify_storage_slot_proofs P root cs = Err (Slot_unverified k msg) \<longleftrightarrow>
     account_proved P root cs \<and>
     (\<exists>good sl bad. cs_storage_slots cs = good @ sl # bad \<and> list_all (slot_proved P cs) good \<and>
        slot_check P cs sl = Inl msg \<and> ss_key sl = k)"
proof (cases "account_proved P root cs")
  case True
  then have "verify_storage_slot_proofs P root cs = verify_slots_loop P cs (cs_storage_slots cs) []"
    by (simp add: verify_storage_slot_proofs_def account_proved_def Let_def)
  with True show ?thesis
    by (auto simp: verify_slots_loop_Err)
next
  case False
  then obtain e where "verify_storage_slot_proofs P root cs = Err (Account_unverified (cs_address cs) e)"
    unfolding account_proved_def not_Inr_unit
    by (auto simp: verify_storage_slot_proofs_def Let_def)
  with False show ?thesis by simp
qed

end
