(* ===== verification/Proof_Types.thy ===== *)
theory Proof_Types
  imports Storage_Proofs
begin

text \<open>
  The service's own data: \<open>ProofRequest\<close> (\<open>zk-api/src/api.rs\<close>), and \<open>ProofId\<close>,
  \<open>ProofRequestStatus\<close>, \<open>ProofRequestState\<close> and \<open>ProofServiceError\<close> (\<open>zk-api/src/types.rs\<close>).
  The derived RLP encoding of a request and the text forms of a hash belong to the alloy crates:
  they are the parameters of the record \<open>text_lib\<close>.
\<close>

section \<open>Requests and their identifiers\<close>

record proof_request =
  src_chain_contract_address :: address
  src_chain_storage_slots :: "b256 list"
  src_chain_block_number :: u64
  dst_chain_contract_from_head :: u64
  dst_chain_contract_from_header :: b256
  rq_vkey :: b256

text \<open>
  \<open>t_lower_hex\<close> is the formatting \<open>{:x}\<close> of a hash, \<open>t_display\<close> its \<open>to_string()\<close>, \<open>t_hex_bytes\<close>
  is \<open>hex::encode\<close>; the two parsers are \<open>Address::from_str\<close> and \<open>B256::from_str\<close>.
\<close>

record text_lib =
  t_rlp_request :: "proof_request \<Rightarrow> bytes"
  t_lower_hex :: "b256 \<Rightarrow> string"
  t_display :: "b256 \<Rightarrow> string"
  t_hex_bytes :: "bytes \<Rightarrow> string"
  t_parse_address :: "string \<Rightarrow> address option"
  t_parse_b256 :: "string \<Rightarrow> b256 option"

datatype proof_id = Proof_id (id_hash: b256)

definition proof_id_new :: "crypto \<Rightarrow> text_lib \<Rightarrow> proof_request \<Rightarrow> proof_id" where
  "proof_id_new P T request = Proof_id (c_keccak P (t_rlp_request T request))"

definition to_hex_string :: "text_lib \<Rightarrow> proof_id \<Rightarrow> string" where
  "to_hex_string T pid = t_lower_hex T (id_hash pid)"

text \<open>
  What the formatting \<open>{:x}\<close> of a 32-byte value documents: 64 lower-case hexadecimal digits, two per
  byte, so different values have different texts.
\<close>

definition hex_char :: "char \<Rightarrow> bool" where
  "hex_char c \<longleftrightarrow> c \<in> set ''0123456789abcdef''"

definition hex_law :: "text_lib \<Rightarrow> bool" where
  "hex_law T \<longleftrightarrow>
     inj (t_lower_hex T) \<and> (\<forall>h. length (t_lower_hex T h) = 64 \<and> list_all hex_char (t_lower_hex T h))"

lemma to_hex_inj: "hex_law T \<Longrightarrow> to_hex_string T a = to_hex_string T b \<longleftrightarrow> a = b"
  by (auto simp: hex_law_def to_hex_string_def inj_def proof_id.expand)

lemma to_hex_chars: "hex_law T \<Longrightarrow> c \<in> set (to_hex_string T a) \<Longrightarrow> hex_char c"
  by (auto simp: hex_law_def to_hex_string_def list_all_iff)

lemma to_hex_length: "hex_law T \<Longrightarrow> length (to_hex_string T a) = 64"
  by (simp add: hex_law_def to_hex_string_def)

section \<open>Status and state of a request\<close>

datatype proof_request_status =
    Initiated
  | Waiting_for_finality
  | Generating
  | Success
  | Errored

record 'o proof_request_state =
  status :: proof_request_status
  request :: proof_request
  proof_network_tx_id :: "string option"
  proof_data :: "'o option"
  error_message :: "string option"

definition new_request_state :: "proof_request \<Rightarrow> 'o proof_request_state" where
  "new_request_state rq = \<lparr>status = Initiated, request = rq, proof_network_tx_id = None,
     proof_data = None, error_message = None\<rparr>"

text \<open>
  The fields of a stored state agree with its status: proof data exactly on success, an error
  message exactly on failure, and nothing is stored before its status is decided.
\<close>

definition wf_state :: "'o proof_request_state \<Rightarrow> bool" where
  "wf_state st \<longleftrightarrow>
     status st \<noteq> Initiated \<and>
     (proof_data st \<noteq> None \<longleftrightarrow> status st = Success) \<and>
     (error_message st \<noteq> None \<longleftrightarrow> status st = Errored)"

lemma new_request_state_simps [simp]:
  "status (new_request_state rq) = Initiated"
  "request (new_request_state rq) = rq"
  "proof_data (new_request_state rq) = None"
  "error_message (new_request_state rq) = None"
  by (simp_all add: new_request_state_def)

lemma wf_state_pending:
  "s = Waiting_for_finality \<or> s = Generating \<Longrightarrow> wf_state ((new_request_state rq)\<lparr>status := s\<rparr>)"
  by (auto simp: wf_state_def)

lemma wf_state_success:
  "wf_state ((new_request_state rq)\<lparr>status := Success, proof_data := Some d\<rparr>)"
  by (simp add: wf_state_def)

lemma wf_state_errored:
  "wf_state ((new_request_state rq)\<lparr>status := Errored, error_message := Some e\<rparr>)"
  by (simp add: wf_state_def)

lemma wf_state_promote:
  "wf_state st \<Longrightarrow> status st = Waiting_for_finality \<Longrightarrow> wf_state (st\<lparr>status := Generating\<rparr>)"
  by (simp add: wf_state_def)

section \<open>Errors of the service\<close>

datatype proof_service_error =
    Redis_error string
  | Lock_contention proof_id
  | Not_found proof_id
  | Serialization_error string
  | Proof_generation_failed proof_id string
  | Bad_request string
  | Vkey_mismatch string
  | Internal string

section \<open>An instance of the text library for concrete runs\<close>

text \<open>64 digits, most significant first, as \<open>{:x}\<close> prints them.\<close>

definition hex_digit :: "nat \<Rightarrow> char" where
  "hex_digit n = ''0123456789abcdef'' ! (n mod 16)"

definition sample_hex :: "b256 \<Rightarrow> string" where
  "sample_hex h = map (\<lambda>i. hex_digit (unat h div 16 ^ (63 - i))) [0..<64]"

definition hex_value :: "char \<Rightarrow> nat" where
  "hex_value c = length (takeWhile (\<lambda>x. x \<noteq> c) ''0123456789abcdef'')"

definition sample_parse :: "string \<Rightarrow> b256 option" where
  "sample_parse s =
     (let digits = (if take 2 s = ''0x'' then drop 2 s else s)
      in if length digits = 64 \<and> list_all hex_char digits
         then Some (of_nat (foldl (\<lambda>acc c. 16 * acc + hex_value c) 0 digits)) else None)"

definition sample_text :: text_lib where
  "sample_text = \<lparr>
     t_rlp_request = (\<lambda>rq. replicate (unat (src_chain_block_number rq)) 0),
     t_lower_hex = sample_hex,
     t_display = (\<lambda>h. ''0x'' @ sample_hex h),
     t_hex_bytes = (\<lambda>bs. concat (map (\<lambda>b. [hex_digit (unat b div 16), hex_digit (unat b)]) bs)),
     t_parse_address = (\<lambda>s. if s = [] then None else Some (of_nat (length s))),
     t_parse_b256 = sample_parse \<rparr>"

lemma hex_digit_inj: "hex_digit a = hex_digit b \<Longrightarrow> a mod 16 = b mod 16"
proof -
  have inj: "m < 16 \<Longrightarrow> n < 16 \<Longrightarrow> (''0123456789abcdef'' :: string) ! m = ''0123456789abcdef'' ! n \<Longrightarrow> m = n"
    for m n :: nat
    by (auto simp: nth_eq_iff_index_eq)
  assume "hex_digit a = hex_digit b"
  then show ?thesis using inj [of "a mod 16" "b mod 16"] by (simp add: hex_digit_def)
qed

lemma hex_digit_char: "hex_char (hex_digit n)"
  unfolding hex_digit_def hex_char_def by (rule nth_mem) simp

lemma digits_determine:
  fixes a b :: nat
  shows "\<forall>j < k. a div 16 ^ j mod 16 = b div 16 ^ j mod 16 \<Longrightarrow> a mod 16 ^ k = b mod 16 ^ k"
proof (induction k)
  case (Suc k)
  have "x mod 16 ^ Suc k = x mod 16 ^ k + 16 ^ k * (x div 16 ^ k mod 16)" for x :: nat
    using mod_mult2_eq [of x "16 ^ k" 16] by (simp add: mult.commute)
  with Suc show ?case by (simp del: power_Suc)
qed simp

lemma sample_hex_inj: "inj sample_hex"
proof (rule injI)
  fix a b assume eq: "sample_hex a = sample_hex b"
  have "unat a div 16 ^ j mod 16 = unat b div 16 ^ j mod 16" if "j < 64" for j
  proof -
    have at: "sample_hex h ! (63 - j) = hex_digit (unat h div 16 ^ j)" for h
    proof -
      from that have "63 - j < 64" "[0..<64] ! (63 - j) = 63 - j" by simp_all
      with that show ?thesis by (simp add: sample_hex_def)
    qed
    from eq have "hex_digit (unat a div 16 ^ j) = hex_digit (unat b div 16 ^ j)"
      by (simp only: at [symmetric])
    then show ?thesis by (rule hex_digit_inj)
  qed
  then have "unat a mod 16 ^ 64 = unat b mod 16 ^ 64"
    by (intro digits_determine) simp
  moreover have "unat a < 16 ^ 64" "unat b < 16 ^ 64"
    using unsigned_less [of a, where ?'a = nat] unsigned_less [of b, where ?'a = nat] by simp_all
  ultimately show "a = b" by (metis mod_less unsigned_word_eqI)
qed

lemma sample_hex_law: "hex_law sample_text"
  by (auto simp: hex_law_def sample_text_def sample_hex_inj sample_hex_def hex_digit_char list_all_iff)

text \<open>
  What \<open>B256::from_str\<close> documents: it reads 64 hexadecimal digits, with or without the prefix \<open>0x\<close>, so
  it reads back both forms in which a hash is printed.
\<close>

definition parse_law :: "text_lib \<Rightarrow> bool" where
  "parse_law T \<longleftrightarrow>
     (\<forall>h. t_parse_b256 T (t_lower_hex T h) = Some h \<and> t_parse_b256 T (t_display T h) = Some h)"

lemma hex_value_digit: "hex_value (hex_digit n) = n mod 16"
proof -
  have "\<forall>m < 16. hex_value (''0123456789abcdef'' ! m) = m"
    by (simp add: hex_value_def All_less_Suc numeral_eq_Suc)
  then show ?thesis by (simp add: hex_digit_def)
qed

lemma foldl_digits:
  "k \<le> 64 \<Longrightarrow>
     foldl (\<lambda>acc i. 16 * acc + x div 16 ^ (63 - i) mod 16) 0 [0..<k] = (x div 16 ^ (64 - k)) mod 16 ^ k"
  for x :: nat
proof (induction k)
  case (Suc k)
  then have k: "64 - k = Suc (63 - k)" "64 - Suc k = 63 - k" by simp_all
  have "x div 16 ^ (63 - k) mod 16 ^ Suc k =
      x div 16 ^ (63 - k) mod 16 + 16 * (x div 16 ^ (63 - k) div 16 mod 16 ^ k)"
    using mod_mult2_eq [of "x div 16 ^ (63 - k)" 16 "16 ^ k"] by (simp add: add.commute)
  also have "x div 16 ^ (63 - k) div 16 = x div 16 ^ (64 - k)"
    unfolding k(1) by (simp add: div_mult2_eq [symmetric] mult.commute)
  finally show ?case using Suc k by simp
qed simp

lemma sample_hex_value: "foldl (\<lambda>acc c. 16 * acc + hex_value c) 0 (sample_hex h) = unat h"
proof -
  have "foldl (\<lambda>acc c. 16 * acc + hex_value c) 0 (sample_hex h) =
      foldl (\<lambda>acc i. 16 * acc + unat h div 16 ^ (63 - i) mod 16) 0 [0..<64]"
    by (simp only: sample_hex_def foldl_map hex_value_digit)
  also have "\<dots> = (unat h div 16 ^ (64 - 64)) mod 16 ^ 64"
    by (rule foldl_digits) simp
  also have "\<dots> = unat h mod 16 ^ 64" by (simp only: diff_self_eq_0 power_0 div_by_1)
  also have "\<dots> = unat h"
    using unsigned_less [of h, where ?'a = nat] by (intro mod_less) simp
  finally show ?thesis .
qed

lemma sample_parse_law: "parse_law sample_text"
proof -
  have "list_all hex_char (sample_hex h)" "length (sample_hex h) = 64" for h
    using sample_hex_law by (simp_all add: hex_law_def sample_text_def)
  moreover have "take 2 (sample_hex h) \<noteq> ''0x''" for h
  proof
    assume "take 2 (sample_hex h) = ''0x''"
    then have "CHR ''x'' \<in> set (take 2 (sample_hex h))" by simp
    then have "CHR ''x'' \<in> set (sample_hex h)" by (rule in_set_takeD)
    with \<open>list_all hex_char (sample_hex h)\<close> have "hex_char (CHR ''x'')" by (simp only: list_all_iff)
    then show False by (simp add: hex_char_def)
  qed
  ultimately show ?thesis
    by (simp add: parse_law_def sample_text_def sample_parse_def sample_hex_value)
qed

end
