(* ===== verification/Rust_Strings.thy ===== *)
theory Rust_Strings
  imports Prelude
begin

text \<open>
  The parts of Rust's \<open>str\<close> the code uses: \<open>split\<close> on a character, \<open>trim\<close>, \<open>starts_with\<close> and
  the \<open>FromStr\<close> of the unsigned integers; and the idiom built from them, the parsing of a
  comma-separated environment variable. A string is its list of bytes; \<open>trim\<close> removes ASCII
  white space.
\<close>

section \<open>Splitting and trimming\<close>

fun split_on :: "char \<Rightarrow> string \<Rightarrow> string list" where
  "split_on c [] = [[]]"
| "split_on c (x # xs) =
     (if x = c then [] # split_on c xs
      else case split_on c xs of
             [] \<Rightarrow> [[x]]
           | p # ps \<Rightarrow> (x # p) # ps)"

definition is_space :: "char \<Rightarrow> bool" where
  "is_space c \<longleftrightarrow> c = CHR '' '' \<or> c \<in> {CHR 0x09, CHR 0x0A, CHR 0x0B, CHR 0x0C, CHR 0x0D}"

definition trim :: "string \<Rightarrow> string" where
  "trim s = rev (dropWhile is_space (rev (dropWhile is_space s)))"

definition starts_with :: "string \<Rightarrow> string \<Rightarrow> bool" where
  "starts_with s p \<longleftrightarrow> take (length p) s = p"

text \<open>\<open>s.split(',').map(|s| s.trim()).filter(|s| !s.is_empty())\<close>\<close>

definition comma_list :: "string \<Rightarrow> string list" where
  "comma_list s = filter (\<lambda>p. p \<noteq> []) (map trim (split_on CHR '','' s))"

definition trimmed :: "string \<Rightarrow> bool" where
  "trimmed s \<longleftrightarrow> (s \<noteq> [] \<longrightarrow> \<not> is_space (hd s) \<and> \<not> is_space (last s))"

lemma split_on_nonempty [simp]: "split_on c s \<noteq> []"
  by (induction s) (auto split: list.splits)

lemma split_on_no_sep: "p \<in> set (split_on c s) \<Longrightarrow> c \<notin> set p"
  by (induction s arbitrary: p) (auto split: if_splits list.splits)

text \<open>Splitting loses nothing: the parts joined by the separator give the string back.\<close>

fun join_with :: "char \<Rightarrow> string list \<Rightarrow> string" where
  "join_with c [] = []"
| "join_with c [p] = p"
| "join_with c (p # q # ps) = p @ c # join_with c (q # ps)"

lemma join_with_Cons: "ps \<noteq> [] \<Longrightarrow> join_with c (p # ps) = p @ c # join_with c ps"
  by (cases ps) auto

lemma join_with_cons_char: "join_with c ((x # p) # ps) = x # join_with c (p # ps)"
  by (cases ps) auto

lemma join_split_on: "join_with c (split_on c s) = s"
proof (induction s)
  case (Cons x xs)
  obtain p ps where "split_on c xs = p # ps" by (cases "split_on c xs") auto
  with Cons show ?case by (simp add: join_with_cons_char)
qed simp

lemma split_on_no_char: "c \<notin> set p \<Longrightarrow> split_on c p = [p]"
  by (induction p) auto

lemma split_on_append: "c \<notin> set p \<Longrightarrow> split_on c (p @ c # s) = p # split_on c s"
  by (induction p) auto

lemma split_on_join:
  "ps \<noteq> [] \<Longrightarrow> list_all (\<lambda>p. c \<notin> set p) ps \<Longrightarrow> split_on c (join_with c ps) = ps"
  by (induction ps rule: join_with.induct) (simp_all add: split_on_no_char split_on_append)

lemma join_with_empty: "join_with c ps = [] \<longleftrightarrow> ps = [] \<or> ps = [[]]"
  by (cases "(c, ps)" rule: join_with.cases) auto

lemma hd_dropWhile_not: "dropWhile P s \<noteq> [] \<Longrightarrow> \<not> P (hd (dropWhile P s))"
  by (rule hd_dropWhile)

lemma trim_trimmed: "trimmed (trim s)"
proof -
  let ?l = "dropWhile is_space s"
  let ?r = "dropWhile is_space (rev ?l)"
  have "\<not> is_space (hd (rev ?r)) \<and> \<not> is_space (last (rev ?r))" if ne: "?r \<noteq> []"
  proof -
    from ne have last: "\<not> is_space (hd ?r)" by (rule hd_dropWhile)
    obtain pre where pre: "rev ?l = pre @ ?r" by (metis takeWhile_dropWhile_id)
    with ne have "last ?r = last (rev ?l)" by (metis last_appendR)
    moreover have l: "?l \<noteq> []" using ne by (metis dropWhile.simps(1) rev.simps(1))
    ultimately have "last ?r = hd ?l" by (simp add: last_rev)
    moreover from l have "\<not> is_space (hd ?l)" by (rule hd_dropWhile)
    ultimately show ?thesis using last ne by (simp add: hd_rev last_rev)
  qed
  then show ?thesis by (simp add: trimmed_def trim_def)
qed

lemma dropWhile_padding: "list_all P pre \<Longrightarrow> dropWhile P (pre @ s) = dropWhile P s"
  by (induction pre) auto

text \<open>Trimming takes exactly the white space around a string away.\<close>

lemma trim_padded:
  assumes "list_all is_space pre" and "list_all is_space post" and "trimmed s"
  shows "trim (pre @ s @ post) = s"
proof (cases "s = []")
  case True
  have "list_all is_space (pre @ post)" using assms by simp
  then have blank: "dropWhile is_space (pre @ post) = []"
    by (simp only: list_all_iff dropWhile_eq_Nil_conv)
  show ?thesis unfolding True append_Nil trim_def blank by simp
next
  case False
  have "dropWhile is_space (pre @ s @ post) = s @ post"
    using False assms(1,3) by (cases s) (auto simp: dropWhile_padding trimmed_def)
  moreover have "dropWhile is_space (rev post @ rev s) = rev s"
    using False assms(2,3) by (cases s rule: rev_cases) (auto simp: dropWhile_padding trimmed_def)
  ultimately show ?thesis by (simp add: trim_def)
qed

lemma set_trim: "set (trim s) \<subseteq> set s"
  by (auto simp: trim_def dest!: set_dropWhileD)

lemma comma_list_parts:
  "p \<in> set (comma_list s) \<Longrightarrow> p \<noteq> [] \<and> CHR '','' \<notin> set p \<and> trimmed p"
  using split_on_no_sep set_trim by (auto simp: comma_list_def trim_trimmed) blast

lemma starts_with_append [simp]: "starts_with (p @ s) p"
  by (simp add: starts_with_def)

lemma starts_with_iff: "starts_with s p \<longleftrightarrow> (\<exists>t. s = p @ t)"
  by (auto simp: starts_with_def) (metis append_take_drop_id)

section \<open>Parsing unsigned integers\<close>

definition is_digit :: "char \<Rightarrow> bool" where
  "is_digit c \<longleftrightarrow> 48 \<le> (of_char c :: nat) \<and> (of_char c :: nat) \<le> 57"

definition digits_value :: "string \<Rightarrow> nat" where
  "digits_value s = foldl (\<lambda>acc c. 10 * acc + ((of_char c :: nat) - 48)) 0 s"

definition parse_below :: "nat \<Rightarrow> string \<Rightarrow> nat option" where
  "parse_below bound s =
     (let digits = (case s of [] \<Rightarrow> [] | c # cs \<Rightarrow> if c = CHR ''+'' then cs else s)
      in if digits = [] \<or> \<not> list_all is_digit digits then None
         else if digits_value digits < bound then Some (digits_value digits) else None)"

definition parse_u64 :: "string \<Rightarrow> u64 option" where
  "parse_u64 s = map_option of_nat (parse_below (2 ^ 64) s)"

lemma parse_below_bound: "parse_below b s = Some n \<Longrightarrow> n < b"
  by (auto simp: parse_below_def Let_def split: if_splits)

end
