(* ===== verification/Redis.thy ===== *)
theory Redis
  imports Proof_Types Rust_Strings
begin

text \<open>
  The Redis server as the service uses it. The server is a parameter: a state type \<open>'r\<close>, one
  function per command, and what the Redis manual says of those commands as the predicate
  \<open>redis_laws\<close>. A command returns \<open>Inl\<close> for a connection or server error, after which it may or may
  not have taken effect. \<open>live r k\<close> is the value of the unexpired key \<open>k\<close>.

  Between the moments at which the server executes this process's commands, other processes run
  theirs and keys expire; \<open>rely\<close> is the relation of what may happen there. A law about a server
  nobody else uses has \<open>rely\<close> as equality.
\<close>

section \<open>Commands\<close>

datatype redis_cmd =
    Cmd_set string string
  | Cmd_set_ex string string u64

record 'r redis =
  rd_get :: "string \<Rightarrow> 'r \<Rightarrow> (string + string option) \<times> 'r"
  rd_mget :: "string list \<Rightarrow> 'r \<Rightarrow> (string + string option list) \<times> 'r"
  rd_set :: "string \<Rightarrow> string \<Rightarrow> 'r \<Rightarrow> (string + unit) \<times> 'r"
  rd_set_ex :: "string \<Rightarrow> string \<Rightarrow> u64 \<Rightarrow> 'r \<Rightarrow> (string + unit) \<times> 'r"
  rd_atomic :: "redis_cmd list \<Rightarrow> 'r \<Rightarrow> (string + unit) \<times> 'r"
  rd_scan :: "int \<Rightarrow> string \<Rightarrow> nat \<Rightarrow> 'r \<Rightarrow> (string + int \<times> string list) \<times> 'r"
  rd_set_nx_px :: "string \<Rightarrow> string \<Rightarrow> u64 \<Rightarrow> 'r \<Rightarrow> (string + bool) \<times> 'r"
  rd_pexpire :: "string \<Rightarrow> u64 \<Rightarrow> 'r \<Rightarrow> (string + int) \<times> 'r"
  rd_del :: "string \<Rightarrow> 'r \<Rightarrow> (string + unit) \<times> 'r"

text \<open>\<open>call.await?\<close> on a command, with the conversion of the error.\<close>

definition redis_call :: "('r \<Rightarrow> (string + 'a) \<times> 'r) \<Rightarrow> ('r, proof_service_error, 'a) act" where
  "redis_call c = (\<lambda>r. case c r of (res, r') \<Rightarrow> (rmap_err Redis_error (of_sum res), r'))"

section \<open>What the manual says\<close>

type_synonym keyspace = "string \<Rightarrow> string option"

fun apply_cmds :: "redis_cmd list \<Rightarrow> keyspace \<Rightarrow> keyspace" where
  "apply_cmds [] m = m"
| "apply_cmds (Cmd_set k v # cs) m = apply_cmds cs (m(k \<mapsto> v))"
| "apply_cmds (Cmd_set_ex k v t # cs) m = apply_cmds cs (m(k \<mapsto> v))"

text \<open>
  The characters of a pattern that do not match themselves: \<open>*\<close>, \<open>?\<close>, the bracket that opens a set, and
  the backslash. (\<open>^\<close>, \<open>-\<close> and the closing bracket are special only inside a set.)
\<close>

definition glob_free :: "string \<Rightarrow> bool" where
  "glob_free p \<longleftrightarrow> (\<forall>c \<in> set p. c \<notin> set ''*?['' \<and> c \<noteq> CHR 0x5C)"

definition write_law ::
  "('r \<Rightarrow> 'r \<Rightarrow> bool) \<Rightarrow> ('r \<Rightarrow> keyspace) \<Rightarrow> ('r \<Rightarrow> (string + unit) \<times> 'r)
    \<Rightarrow> (keyspace \<Rightarrow> keyspace) \<Rightarrow> bool" where
  "write_law rely live call eff \<longleftrightarrow>
     (\<forall>r res r'. call r = (res, r') \<longrightarrow>
        (\<exists>r1 r2. rely r r1 \<and> rely r2 r' \<and>
           (live r2 = eff (live r1) \<or> (\<exists>e. res = Inl e) \<and> live r2 = live r1)))"

definition read_law ::
  "('r \<Rightarrow> 'r \<Rightarrow> bool) \<Rightarrow> ('r \<Rightarrow> keyspace) \<Rightarrow> ('r \<Rightarrow> (string + 'a) \<times> 'r)
    \<Rightarrow> (keyspace \<Rightarrow> 'a \<Rightarrow> bool) \<Rightarrow> bool" where
  "read_law rely live call ok \<longleftrightarrow>
     (\<forall>r res r'. call r = (res, r') \<longrightarrow>
        (\<exists>r1 r2. rely r r1 \<and> rely r2 r' \<and> live r2 = live r1 \<and> (\<forall>x. res = Inr x \<longrightarrow> ok (live r1) x)))"

definition lock_law ::
  "('r \<Rightarrow> 'r \<Rightarrow> bool) \<Rightarrow> ('r \<Rightarrow> keyspace) \<Rightarrow> ('r \<Rightarrow> (string + bool) \<times> 'r)
    \<Rightarrow> string \<Rightarrow> string \<Rightarrow> bool" where
  "lock_law rely live call k v \<longleftrightarrow>
     (\<forall>r res r'. call r = (res, r') \<longrightarrow>
        (\<exists>r1 r2. rely r r1 \<and> rely r2 r' \<and>
           (case res of
              Inr acquired \<Rightarrow>
                if acquired then live r1 k = None \<and> live r2 = (live r1)(k \<mapsto> v)
                else live r1 k \<noteq> None \<and> live r2 = live r1
            | Inl _ \<Rightarrow> live r2 = live r1 \<or> live r1 k = None \<and> live r2 = (live r1)(k \<mapsto> v))))"

definition redis_laws ::
  "('r \<Rightarrow> 'r \<Rightarrow> bool) \<Rightarrow> ('r \<Rightarrow> keyspace) \<Rightarrow> 'r redis \<Rightarrow> bool" where
  "redis_laws rely live R \<longleftrightarrow>
     (\<forall>r. rely r r) \<and>
     (\<forall>k. read_law rely live (rd_get R k) (\<lambda>m v. v = m k)) \<and>
     (\<forall>ks. read_law rely live (rd_mget R ks)
        (\<lambda>m vs. \<forall>v. Some v \<in> set vs \<longleftrightarrow> (\<exists>k \<in> set ks. m k = Some v))) \<and>
     (\<forall>c q n. glob_free q \<longrightarrow> read_law rely live (rd_scan R c (q @ ''*'') n)
        (\<lambda>m (c', ks). \<forall>k \<in> set ks. starts_with k q)) \<and>
     (\<forall>k v. write_law rely live (rd_set R k v) (\<lambda>m. m(k \<mapsto> v))) \<and>
     (\<forall>k v t. write_law rely live (rd_set_ex R k v t) (\<lambda>m. m(k \<mapsto> v))) \<and>
     (\<forall>cs. write_law rely live (rd_atomic R cs) (apply_cmds cs)) \<and>
     (\<forall>k. write_law rely live (rd_del R k) (\<lambda>m. m(k := None))) \<and>
     (\<forall>k t. read_law rely live (rd_pexpire R k t) (\<lambda>m n. n = (if m k = None then 0 else 1))) \<and>
     (\<forall>k v t. lock_law rely live (rd_set_nx_px R k v t) k v)"

lemma redis_lawsD:
  assumes "redis_laws rely live R"
  shows "rely r r"
    and "read_law rely live (rd_get R k) (\<lambda>m v. v = m k)"
    and "read_law rely live (rd_mget R ks) (\<lambda>m vs. \<forall>v. Some v \<in> set vs \<longleftrightarrow> (\<exists>k \<in> set ks. m k = Some v))"
    and "glob_free q \<Longrightarrow> read_law rely live (rd_scan R c (q @ ''*'') n)
      (\<lambda>m (c', ks). \<forall>k \<in> set ks. starts_with k q)"
    and "write_law rely live (rd_set R k v) (\<lambda>m. m(k \<mapsto> v))"
    and "write_law rely live (rd_set_ex R k v t) (\<lambda>m. m(k \<mapsto> v))"
    and "write_law rely live (rd_atomic R cs) (apply_cmds cs)"
    and "write_law rely live (rd_del R k) (\<lambda>m. m(k := None))"
    and "read_law rely live (rd_pexpire R k t) (\<lambda>m n. n = (if m k = None then 0 else 1))"
    and "lock_law rely live (rd_set_nx_px R k v t) k v"
  using assms unfolding redis_laws_def by blast+

section \<open>A call and an invariant of the keyspace\<close>

text \<open>\<open>stable rely live I\<close>: nothing that happens between the commands breaks \<open>I\<close>.\<close>

definition stable :: "('r \<Rightarrow> 'r \<Rightarrow> bool) \<Rightarrow> ('r \<Rightarrow> keyspace) \<Rightarrow> (keyspace \<Rightarrow> bool) \<Rightarrow> bool" where
  "stable rely live I \<longleftrightarrow> (\<forall>r r'. rely r r' \<longrightarrow> I (live r) \<longrightarrow> I (live r'))"

lemma stable_eq [simp]: "stable (=) live I"
  by (simp add: stable_def)

lemma ensures_read:
  assumes "stable rely live I" and "read_law rely live c ok" and "\<And>m x. I m \<Longrightarrow> ok m x \<Longrightarrow> Q x"
  shows "ensures (\<lambda>r. I (live r)) (redis_call c) Q"
  using assms unfolding ensures_def redis_call_def stable_def read_law_def
  by (fastforce split: prod.splits)

lemma preserves_write:
  assumes "stable rely live I" and "write_law rely live c eff" and "\<And>m. I m \<Longrightarrow> I (eff m)"
  shows "preserves (\<lambda>r. I (live r)) (redis_call c)"
  using assms unfolding ensures_def redis_call_def stable_def write_law_def
  by (fastforce split: prod.splits)

lemma preserves_lock:
  assumes "stable rely live I" and "lock_law rely live c k v" and "\<And>m. I m \<Longrightarrow> I (m(k \<mapsto> v))"
  shows "preserves (\<lambda>r. I (live r)) (redis_call c)"
proof (rule ensuresI)
  fix r res r' assume I: "I (live r)" and run: "redis_call c r = (res, r')"
  then obtain res1 where c: "c r = (res1, r')"
    by (auto simp: redis_call_def split: prod.splits)
  with assms(2) obtain r1 r2 where r: "rely r r1" "rely r2 r'"
    and d: "case res1 of
        Inr acquired \<Rightarrow> if acquired then live r1 k = None \<and> live r2 = (live r1)(k \<mapsto> v)
          else live r1 k \<noteq> None \<and> live r2 = live r1
      | Inl _ \<Rightarrow> live r2 = live r1 \<or> live r1 k = None \<and> live r2 = (live r1)(k \<mapsto> v)"
    unfolding lock_law_def by blast
  from r(1) I assms(1) have "I (live r1)" by (auto simp: stable_def)
  with d assms(3) have "I (live r2)" by (auto split: sum.splits if_splits)
  with r(2) assms(1) show "I (live r') \<and> (\<forall>x. res = Ok x \<longrightarrow> True)" by (auto simp: stable_def)
qed

section \<open>A call on a server nobody else uses\<close>

lemma read_alone:
  assumes "read_law (=) live c ok" and "redis_call c r = (res, r')"
  shows "live r' = live r \<and> (\<forall>x. res = Ok x \<longrightarrow> ok (live r) x)"
  using assms by (fastforce simp: read_law_def redis_call_def split: prod.splits)

lemma write_alone:
  assumes "write_law (=) live c eff" and "redis_call c r = (Ok u, r')"
  shows "live r' = eff (live r)"
  using assms by (fastforce simp: write_law_def redis_call_def split: prod.splits)

lemma lock_alone:
  assumes "lock_law (=) live c k v" and "redis_call c r = (Ok acquired, r')"
  shows "if acquired then live r k = None \<and> live r' = (live r)(k \<mapsto> v)
    else live r k \<noteq> None \<and> live r' = live r"
  using assms by (fastforce simp: lock_law_def redis_call_def split: prod.splits sum.splits if_splits)

lemma lock_alone_any:
  assumes "lock_law (=) live c k v" and "redis_call c r = (res, r')"
  shows "live r' = live r \<or> live r' = (live r)(k \<mapsto> v)"
proof -
  from assms(2) obtain s where "c r = (s, r')" by (auto simp: redis_call_def split: prod.splits)
  with assms(1) have "case s of
      Inr acquired \<Rightarrow> if acquired then live r k = None \<and> live r' = (live r)(k \<mapsto> v)
        else live r k \<noteq> None \<and> live r' = live r
    | Inl _ \<Rightarrow> live r' = live r \<or> live r k = None \<and> live r' = (live r)(k \<mapsto> v)"
    unfolding lock_law_def by blast
  then show ?thesis by (auto split: sum.splits if_splits)
qed

section \<open>An instance for concrete runs\<close>

text \<open>The server is its list of keys and values; nothing expires and no command fails.\<close>

fun al_set :: "string \<Rightarrow> string \<Rightarrow> (string \<times> string) list \<Rightarrow> (string \<times> string) list" where
  "al_set k v [] = [(k, v)]"
| "al_set k v ((k', v') # kvs) = (if k = k' then (k, v) # kvs else (k', v') # al_set k v kvs)"

fun al_cmds :: "redis_cmd list \<Rightarrow> (string \<times> string) list \<Rightarrow> (string \<times> string) list" where
  "al_cmds [] m = m"
| "al_cmds (Cmd_set k v # cs) m = al_cmds cs (al_set k v m)"
| "al_cmds (Cmd_set_ex k v t # cs) m = al_cmds cs (al_set k v m)"

definition sample_redis :: "(string \<times> string) list redis" where
  "sample_redis = \<lparr>
     rd_get = (\<lambda>k r. (Inr (map_of r k), r)),
     rd_mget = (\<lambda>ks r. (Inr (map (map_of r) ks), r)),
     rd_set = (\<lambda>k v r. (Inr (), al_set k v r)),
     rd_set_ex = (\<lambda>k v t r. (Inr (), al_set k v r)),
     rd_atomic = (\<lambda>cs r. (Inr (), al_cmds cs r)),
     rd_scan = (\<lambda>c p n r. (Inr (0, filter (\<lambda>k. starts_with k (butlast p)) (map fst r)), r)),
     rd_set_nx_px = (\<lambda>k v t r. if map_of r k = None then (Inr True, al_set k v r) else (Inr False, r)),
     rd_pexpire = (\<lambda>k t r. (Inr (if map_of r k = None then 0 else 1), r)),
     rd_del = (\<lambda>k r. (Inr (), filter (\<lambda>kv. fst kv \<noteq> k) r)) \<rparr>"

lemma map_of_al_set [simp]: "map_of (al_set k v m) = (map_of m)(k \<mapsto> v)"
  by (induction m) auto

lemma map_of_al_cmds [simp]: "map_of (al_cmds cs m) = apply_cmds cs (map_of m)"
  by (induction cs m rule: al_cmds.induct) (auto simp: fun_upd_def)

lemma map_of_al_del: "map_of (filter (\<lambda>kv. fst kv \<noteq> k) m) = (map_of m)(k := None)"
  by (induction m) auto

lemma sample_redis_laws: "redis_laws (=) map_of sample_redis"
  by (auto simp: redis_laws_def sample_redis_def read_law_def write_law_def lock_law_def
      map_of_al_del image_iff) force+

end
