(* ===== verification/Redis_Store.thy ===== *)
theory Redis_Store
  imports Redis
begin

text \<open>
  \<open>RedisStore\<close> of \<open>zk-api/src/redis_store.rs\<close>: the keys, the state of a request and the latest
  finalized header as JSON values under them, the search for requests by status, and the locks. An
  operation is a call over the server's state.
\<close>

section \<open>Types\<close>

text \<open>\<open>serde_json\<close> on the two types the store keeps.\<close>

record ('x, 'o) json_lib =
  ser_state :: "'o proof_request_state \<Rightarrow> string + string"
  de_state :: "string \<Rightarrow> string + 'o proof_request_state"
  ser_header :: "'x header \<Rightarrow> string + string"
  de_header :: "string \<Rightarrow> string + 'x header"

text \<open>The store: its connection, prefix and lock duration, with the libraries it formats by.\<close>

record ('r, 'x, 'o) redis_store =
  conn_manager :: "'r redis"
  key_prefix :: string
  global_lock_duration_secs :: u64
  rs_text :: text_lib
  rs_json :: "('x, 'o) json_lib"

datatype store_error =
    Store_env_missing string
  | Lock_duration_invalid
  | Client_failed string
  | Connect_failed string
  | Connect_timed_out

definition PROOF_STATE_TTL_SECS :: u64 where
  "PROOF_STATE_TTL_SECS = 7 * 24 * 60 * 60"

definition REDIS_TIMEOUT_SECS :: u64 where
  "REDIS_TIMEOUT_SECS = 10"

section \<open>Construction\<close>

text \<open>
  \<open>connect\<close> opens a client for the URL (\<open>None\<close> for an error of that) and connects it; the boolean
  says that the five-second timer fired.
\<close>

definition redis_store_new ::
  "text_lib \<Rightarrow> ('x, 'o) json_lib \<Rightarrow> (string \<Rightarrow> string option)
    \<Rightarrow> (string \<Rightarrow> string + bool \<times> (string + 'r redis))
    \<Rightarrow> (store_error, ('r, 'x, 'o) redis_store) res" where
  "redis_store_new T J env connect =
     (case env ''REDIS_URL'' of
        None \<Rightarrow> Err (Store_env_missing ''REDIS_URL'')
      | Some url \<Rightarrow>
     (case env ''REDIS_LOCK_DURATION_SECS'' of
        None \<Rightarrow> Err (Store_env_missing ''REDIS_LOCK_DURATION_SECS'')
      | Some secs_str \<Rightarrow>
     (case parse_u64 secs_str of
        None \<Rightarrow> Err Lock_duration_invalid
      | Some lock_duration_secs \<Rightarrow>
     (case env ''REDIS_KEY_PREFIX'' of
        None \<Rightarrow> Err (Store_env_missing ''REDIS_KEY_PREFIX'')
      | Some pfx \<Rightarrow>
     (case connect url of
        Inl e \<Rightarrow> Err (Client_failed e)
      | Inr (timed_out, connected) \<Rightarrow>
          if timed_out then Err Connect_timed_out
          else (case connected of
                  Inl e \<Rightarrow> Err (Connect_failed e)
                | Inr conn \<Rightarrow>
                    Ok \<lparr>conn_manager = conn, key_prefix = pfx,
                        global_lock_duration_secs = lock_duration_secs,
                        rs_text = T, rs_json = J\<rparr>))))))"

section \<open>Keys\<close>

definition proof_state_key :: "('r, 'x, 'o) redis_store \<Rightarrow> proof_id \<Rightarrow> string" where
  "proof_state_key S pid = key_prefix S @ '':state:'' @ to_hex_string (rs_text S) pid"

definition finalized_header_key :: "('r, 'x, 'o) redis_store \<Rightarrow> string" where
  "finalized_header_key S = key_prefix S @ '':state:finalized_header''"

definition global_lock_key :: "('r, 'x, 'o) redis_store \<Rightarrow> string" where
  "global_lock_key S = key_prefix S @ '':lock''"

definition proof_generation_lock_key :: "('r, 'x, 'o) redis_store \<Rightarrow> proof_id \<Rightarrow> string" where
  "proof_generation_lock_key S pid = key_prefix S @ '':lock:'' @ to_hex_string (rs_text S) pid"

section \<open>Reading and writing values\<close>

definition json_res :: "string + 'a \<Rightarrow> (proof_service_error, 'a) res" where
  "json_res v = rmap_err Serialization_error (of_sum v)"

definition read_json_value ::
  "('r, 'x, 'o) redis_store \<Rightarrow> (string \<Rightarrow> string + 'a) \<Rightarrow> string
    \<Rightarrow> ('r, proof_service_error, 'a option) act" where
  "read_json_value S decode redis_key =
     abind (redis_call (rd_get (conn_manager S) redis_key)) (\<lambda>state_json.
       case state_json of
         Some json \<Rightarrow> alift (rbind (json_res (decode json)) (\<lambda>state. Ok (Some state)))
       | None \<Rightarrow> aret None)"

definition get_proof_state ::
  "('r, 'x, 'o) redis_store \<Rightarrow> proof_id
    \<Rightarrow> ('r, proof_service_error, 'o proof_request_state option) act" where
  "get_proof_state S pid = read_json_value S (de_state (rs_json S)) (proof_state_key S pid)"

definition read_finalized_header ::
  "('r, 'x, 'o) redis_store \<Rightarrow> ('r, proof_service_error, 'x header option) act" where
  "read_finalized_header S = read_json_value S (de_header (rs_json S)) (finalized_header_key S)"

definition set_proof_state ::
  "('r, 'x, 'o) redis_store \<Rightarrow> proof_id \<Rightarrow> 'o proof_request_state
    \<Rightarrow> ('r, proof_service_error, unit) act" where
  "set_proof_state S pid state =
     abind (alift (json_res (ser_state (rs_json S) state))) (\<lambda>json.
       redis_call (rd_set_ex (conn_manager S) (proof_state_key S pid) json PROOF_STATE_TTL_SECS))"

definition set_finalized_header ::
  "('r, 'x, 'o) redis_store \<Rightarrow> 'x header \<Rightarrow> ('r, proof_service_error, unit) act" where
  "set_finalized_header S header =
     abind (alift (json_res (ser_header (rs_json S) header))) (\<lambda>json.
       redis_call (rd_set (conn_manager S) (finalized_header_key S) json))"

definition state_cmd ::
  "('r, 'x, 'o) redis_store \<Rightarrow> proof_id \<times> 'o proof_request_state
    \<Rightarrow> (proof_service_error, redis_cmd) res" where
  "state_cmd S = (\<lambda>(pid, state).
     rbind (json_res (ser_state (rs_json S) state)) (\<lambda>json.
       Ok (Cmd_set_ex (proof_state_key S pid) json PROOF_STATE_TTL_SECS)))"

definition update_finalized_header_and_proof_states ::
  "('r, 'x, 'o) redis_store \<Rightarrow> 'x header \<Rightarrow> (proof_id \<times> 'o proof_request_state) list
    \<Rightarrow> ('r, proof_service_error, unit) act" where
  "update_finalized_header_and_proof_states S latest_finalized_header updated_states =
     abind (alift (json_res (ser_header (rs_json S) latest_finalized_header))) (\<lambda>header_json.
     abind (alift (rmapM (state_cmd S) updated_states)) (\<lambda>cmds.
       redis_call (rd_atomic (conn_manager S)
         (Cmd_set (finalized_header_key S) header_json # cmds))))"

section \<open>Searching by status\<close>

text \<open>The processing of one batch's values: a missing or undecodable value is skipped.\<close>

fun push_matching ::
  "('r, 'x, 'o) redis_store \<Rightarrow> proof_request_status \<Rightarrow> string option list
    \<Rightarrow> 'o proof_request_state list \<Rightarrow> 'o proof_request_state list" where
  "push_matching S st [] found = found"
| "push_matching S st (None # js) found = push_matching S st js found"
| "push_matching S st (Some j # js) found =
     (case de_state (rs_json S) j of
        Inr state \<Rightarrow>
          push_matching S st js (if status state = st then found @ [state] else found)
      | Inl _ \<Rightarrow> push_matching S st js found)"

text \<open>One turn of the \<open>SCAN\<close> loop: the next cursor and the requests found so far.\<close>

definition scan_batch ::
  "('r, 'x, 'o) redis_store \<Rightarrow> proof_request_status \<Rightarrow> int \<Rightarrow> 'o proof_request_state list
    \<Rightarrow> ('r, proof_service_error, int \<times> 'o proof_request_state list) act" where
  "scan_batch S st cursor found =
     abind (redis_call (rd_scan (conn_manager S) cursor (key_prefix S @ '':state:*'') 100))
       (\<lambda>(next_cursor, keys).
     let proof_state_keys = filter (\<lambda>k. k \<noteq> finalized_header_key S) keys
     in if proof_state_keys = [] then aret (next_cursor, found)
        else abind (redis_call (rd_mget (conn_manager S) proof_state_keys)) (\<lambda>state_jsons.
               aret (next_cursor, push_matching S st state_jsons found)))"

text \<open>The loop ends when the server returns cursor 0; \<open>fuel\<close> bounds the turns of the model.\<close>

fun scan_loop ::
  "('r, 'x, 'o) redis_store \<Rightarrow> proof_request_status \<Rightarrow> nat \<Rightarrow> int \<Rightarrow> 'o proof_request_state list
    \<Rightarrow> ('r, proof_service_error, 'o proof_request_state list) act" where
  "scan_loop S st 0 cursor found = alift Diverge"
| "scan_loop S st (Suc fuel) cursor found =
     abind (scan_batch S st cursor found) (\<lambda>(next_cursor, found').
       if next_cursor = 0 then aret found' else scan_loop S st fuel next_cursor found')"

definition find_requests_by_status ::
  "('r, 'x, 'o) redis_store \<Rightarrow> nat \<Rightarrow> proof_request_status
    \<Rightarrow> ('r, proof_service_error, 'o proof_request_state list) act" where
  "find_requests_by_status S fuel st = scan_loop S st fuel 0 []"

section \<open>Locks\<close>

definition try_acquire_lock ::
  "('r, 'x, 'o) redis_store \<Rightarrow> string \<Rightarrow> u64 \<Rightarrow> ('r, proof_service_error, bool) act" where
  "try_acquire_lock S key duration_ms =
     redis_call (rd_set_nx_px (conn_manager S) key ''locked'' duration_ms)"

text \<open>\<open>as_millis() as u64\<close> truncates.\<close>

definition acquire_global_lock ::
  "('r, 'x, 'o) redis_store \<Rightarrow> ('r, proof_service_error, bool) act" where
  "acquire_global_lock S =
     try_acquire_lock S (global_lock_key S) (of_nat (unat (global_lock_duration_secs S) * 1000))"

text \<open>The releases ignore the server's answer.\<close>

definition ignore_result :: "('r, 'e, 'a) act \<Rightarrow> ('r, 'f, unit) act" where
  "ignore_result m = amatch m (\<lambda>_. aret ()) (\<lambda>_. aret ())"

definition release_global_lock :: "('r, 'x, 'o) redis_store \<Rightarrow> ('r, proof_service_error, unit) act" where
  "release_global_lock S = ignore_result (redis_call (rd_del (conn_manager S) (global_lock_key S)))"

definition acquire_proof_generation_lock ::
  "('r, 'x, 'o) redis_store \<Rightarrow> proof_id \<Rightarrow> u64 \<Rightarrow> ('r, proof_service_error, bool) act" where
  "acquire_proof_generation_lock S pid duration_ms =
     try_acquire_lock S (proof_generation_lock_key S pid) duration_ms"

definition release_proof_generation_lock ::
  "('r, 'x, 'o) redis_store \<Rightarrow> proof_id \<Rightarrow> ('r, proof_service_error, unit) act" where
  "release_proof_generation_lock S pid =
     ignore_result (redis_call (rd_del (conn_manager S) (proof_generation_lock_key S pid)))"

definition extend_proof_generation_lock ::
  "('r, 'x, 'o) redis_store \<Rightarrow> proof_id \<Rightarrow> u64 \<Rightarrow> ('r, proof_service_error, bool) act" where
  "extend_proof_generation_lock S pid duration_ms =
     abind (redis_call (rd_pexpire (conn_manager S) (proof_generation_lock_key S pid) duration_ms))
       (\<lambda>r. aret (r = 1))"

section \<open>The keys are different\<close>

definition text_ok :: "('r, 'x, 'o) redis_store \<Rightarrow> bool" where
  "text_ok S \<longleftrightarrow> hex_law (rs_text S)"

lemma proof_state_key_inj [key_simps]:
  "text_ok S \<Longrightarrow> proof_state_key S a = proof_state_key S b \<longleftrightarrow> a = b"
  by (simp add: proof_state_key_def to_hex_inj text_ok_def)

lemma generation_lock_key_inj [key_simps]:
  "text_ok S \<Longrightarrow> proof_generation_lock_key S a = proof_generation_lock_key S b \<longleftrightarrow> a = b"
  by (simp add: proof_generation_lock_key_def to_hex_inj text_ok_def)

lemma state_key_not_header [key_simps]:
  assumes "text_ok S"
  shows "proof_state_key S a \<noteq> finalized_header_key S" "finalized_header_key S \<noteq> proof_state_key S a"
proof -
  have "length (to_hex_string (rs_text S) a) \<noteq> length ''finalized_header''"
    using to_hex_length assms by (simp add: text_ok_def)
  then have "to_hex_string (rs_text S) a \<noteq> ''finalized_header''" by metis
  then show "proof_state_key S a \<noteq> finalized_header_key S" "finalized_header_key S \<noteq> proof_state_key S a"
    by (simp_all add: proof_state_key_def finalized_header_key_def eq_commute [of "''finalized_header''"])
qed

lemma lock_keys_other [key_simps]:
  "proof_state_key S a \<noteq> global_lock_key S" "global_lock_key S \<noteq> proof_state_key S a"
  "proof_state_key S a \<noteq> proof_generation_lock_key S b" "proof_generation_lock_key S b \<noteq> proof_state_key S a"
  "finalized_header_key S \<noteq> global_lock_key S" "global_lock_key S \<noteq> finalized_header_key S"
  "finalized_header_key S \<noteq> proof_generation_lock_key S b"
  "proof_generation_lock_key S b \<noteq> finalized_header_key S"
  "global_lock_key S \<noteq> proof_generation_lock_key S b" "proof_generation_lock_key S b \<noteq> global_lock_key S"
  by (simp_all add: proof_state_key_def finalized_header_key_def global_lock_key_def
      proof_generation_lock_key_def)

end
