(* ===== verification/Store_Facts.thy ===== *)
theory Store_Facts
  imports Redis_Store
begin

text \<open>
  What \<open>RedisStore\<close> promises its clients. On a server nobody else uses, the two kinds of values
  are maps from identifiers to values (the interface \<open>cell_store\<close>, provided twice) and the two kinds
  of locks are sets of held identifiers (the interface \<open>lock_service\<close>, provided twice). On a shared
  server, every operation keeps an invariant of the stored states that the other users keep too.
\<close>

section \<open>Interfaces\<close>

text \<open>
  \<open>cell_store\<close>: cells named by \<open>'k\<close>; \<open>view\<close> is their content. A read returns the content and
  changes nothing; a write that succeeds replaces one cell; a write that fails did that or nothing.
\<close>

locale cell_store =
  fixes reader :: "'k \<Rightarrow> ('r, 'e, 'v option) act"
    and writer :: "'k \<Rightarrow> 'v \<Rightarrow> ('r, 'e, unit) act"
    and view :: "'r \<Rightarrow> 'k \<Rightarrow> 'v option"
    and alone :: bool
  assumes read_keeps: "alone \<Longrightarrow> reader k r = (res, r') \<Longrightarrow> view r' = view r"
    and read_view: "alone \<Longrightarrow> reader k r = (Ok x, r') \<Longrightarrow> x = view r k"
    and write_view: "alone \<Longrightarrow> writer k v r = (Ok u, r') \<Longrightarrow> view r' = (view r)(k \<mapsto> v)"
    and write_failed: "alone \<Longrightarrow> writer k v r = (out, r')
      \<Longrightarrow> view r' = view r \<or> view r' = (view r)(k \<mapsto> v)"
begin

lemma read_after_write:
  "alone \<Longrightarrow> writer k v r = (Ok u, r1) \<Longrightarrow> reader k r1 = (Ok x, r2) \<Longrightarrow> x = Some v"
  by (metis write_view read_view fun_upd_same)

lemma other_after_write:
  "alone \<Longrightarrow> k' \<noteq> k \<Longrightarrow> writer k v r = (res, r1) \<Longrightarrow> reader k' r1 = (Ok x, r2) \<Longrightarrow> x = view r k'"
  using write_failed read_view by (metis fun_upd_other)

lemma last_write_wins:
  "alone \<Longrightarrow> writer k v r = (res, r1) \<Longrightarrow> writer k w r1 = (Ok u, r2) \<Longrightarrow> reader k r2 = (Ok x, r3)
    \<Longrightarrow> x = Some w"
  by (metis write_view read_view fun_upd_same)

end

text \<open>\<open>lock_service\<close>: an attempt succeeds exactly when the lock is free, and then it is held.\<close>

locale lock_service =
  fixes acquire :: "'k \<Rightarrow> ('r, 'e, bool) act"
    and release :: "'k \<Rightarrow> ('r, 'e, unit) act"
    and held :: "'r \<Rightarrow> 'k \<Rightarrow> bool"
    and alone :: bool
  assumes acquire_free: "alone \<Longrightarrow> acquire k r = (Ok b, r') \<Longrightarrow> b \<longleftrightarrow> \<not> held r k"
    and acquire_holds: "alone \<Longrightarrow> acquire k r = (Ok b, r') \<Longrightarrow> held r' = (held r)(k := True)"
    and release_ok: "alone \<Longrightarrow> release k r = (res, r') \<Longrightarrow>
      res = Ok () \<and> (held r' = held r \<or> held r' = (held r)(k := False))"
begin

lemma acquired_once:
  "alone \<Longrightarrow> acquire k r = (Ok b, r1) \<Longrightarrow> acquire k r1 = (Ok c, r2) \<Longrightarrow> \<not> c"
  using acquire_free acquire_holds by fastforce

lemma acquire_other:
  "alone \<Longrightarrow> j \<noteq> k \<Longrightarrow> acquire j r = (Ok b, r1) \<Longrightarrow> acquire k r1 = (Ok c, r2) \<Longrightarrow> c \<longleftrightarrow> \<not> held r k"
  using acquire_free acquire_holds by fastforce

end

section \<open>Views of the keyspace\<close>

definition decoded :: "(string \<Rightarrow> string + 'a) \<Rightarrow> string option \<Rightarrow> 'a option" where
  "decoded de v = (case v of None \<Rightarrow> None | Some j \<Rightarrow> (case de j of Inl _ \<Rightarrow> None | Inr x \<Rightarrow> Some x))"

definition state_view ::
  "('r, 'x, 'o) redis_store \<Rightarrow> keyspace \<Rightarrow> proof_id \<Rightarrow> 'o proof_request_state option" where
  "state_view S m pid = decoded (de_state (rs_json S)) (m (proof_state_key S pid))"

definition header_view :: "('r, 'x, 'o) redis_store \<Rightarrow> keyspace \<Rightarrow> 'x header option" where
  "header_view S m = decoded (de_header (rs_json S)) (m (finalized_header_key S))"

definition json_law :: "('r, 'x, 'o) redis_store \<Rightarrow> bool" where
  "json_law S \<longleftrightarrow>
     (\<forall>st j. ser_state (rs_json S) st = Inr j \<longrightarrow> de_state (rs_json S) j = Inr st) \<and>
     (\<forall>h j. ser_header (rs_json S) h = Inr j \<longrightarrow> de_header (rs_json S) j = Inr h)"

definition laws ::
  "('r, 'x, 'o) redis_store \<Rightarrow> ('r \<Rightarrow> 'r \<Rightarrow> bool) \<Rightarrow> ('r \<Rightarrow> keyspace) \<Rightarrow> bool" where
  "laws S rely live \<longleftrightarrow> redis_laws rely live (conn_manager S) \<and> text_ok S \<and> json_law S"

lemma lawsD:
  "laws S rely live \<Longrightarrow> redis_laws rely live (conn_manager S)"
  "laws S rely live \<Longrightarrow> text_ok S"
  "laws S rely live \<Longrightarrow> ser_state (rs_json S) st = Inr j \<Longrightarrow> de_state (rs_json S) j = Inr st"
  "laws S rely live \<Longrightarrow> ser_header (rs_json S) h = Inr j \<Longrightarrow> de_header (rs_json S) j = Inr h"
  by (auto simp: laws_def json_law_def)

lemma decoded_simps [simp]: "decoded de None = None" "de j = Inr x \<Longrightarrow> decoded de (Some j) = Some x"
  by (simp_all add: decoded_def)

lemma json_res_Ok [simp]: "json_res v = Ok x \<longleftrightarrow> v = Inr x"
  by (simp add: json_res_def)

lemma state_view_upd:
  "laws S rely live \<Longrightarrow> ser_state (rs_json S) st = Inr j \<Longrightarrow>
     state_view S (m(proof_state_key S pid \<mapsto> j)) = (state_view S m)(pid \<mapsto> st)"
  by (auto simp: state_view_def fun_eq_iff key_simps dest: lawsD)

lemma header_view_upd:
  "laws S rely live \<Longrightarrow> ser_header (rs_json S) h = Inr j \<Longrightarrow>
     header_view S (m(finalized_header_key S \<mapsto> j)) = Some h"
  by (auto simp: header_view_def dest: lawsD)

lemma views_other [simp]:
  "text_ok S \<Longrightarrow> state_view S (m(finalized_header_key S := v)) = state_view S m"
  "text_ok S \<Longrightarrow> header_view S (m(proof_state_key S pid := v)) = header_view S m"
  "state_view S (m(global_lock_key S := v)) = state_view S m"
  "state_view S (m(proof_generation_lock_key S pid := v)) = state_view S m"
  "header_view S (m(global_lock_key S := v)) = header_view S m"
  "header_view S (m(proof_generation_lock_key S pid := v)) = header_view S m"
  by (auto simp: state_view_def header_view_def fun_eq_iff key_simps)

section \<open>The operations on a server nobody else uses\<close>

lemma read_json_value_alone:
  assumes "redis_laws (=) live (conn_manager S)" and run: "read_json_value S de k r = (res, r')"
  shows "live r' = live r \<and> (\<forall>x. res = Ok x \<longrightarrow> x = decoded de (live r k))"
proof -
  note law = redis_lawsD(2) [OF assms(1), of k]
  from run show ?thesis unfolding read_json_value_def
  proof (cases rule: abind_cases)
    case (ok v r1)
    from read_alone [OF law ok(1)] have r1: "live r1 = live r" "v = live r k" by auto
    show ?thesis
    proof (cases v)
      case None
      with ok(2) r1 show ?thesis by (auto simp: aret_def decoded_def)
    next
      case (Some j)
      with ok(2) have "alift (rbind (json_res (de j)) (\<lambda>state. Ok (Some state))) r1 = (res, r')"
        by simp
      moreover from r1(2) Some have "live r k = Some j" by simp
      ultimately show ?thesis using r1(1) by (auto simp: alift_def rbind_Ok_iff decoded_def)
    qed
  qed (use read_alone [OF law] in blast)+
qed

lemma get_proof_state_alone:
  assumes "laws S (=) live" and "get_proof_state S pid r = (res, r')"
  shows "live r' = live r \<and> (\<forall>x. res = Ok x \<longrightarrow> x = state_view S (live r) pid)"
  using read_json_value_alone [OF lawsD(1) [OF assms(1)]] assms(2)
  unfolding get_proof_state_def state_view_def by blast

lemma read_finalized_header_alone:
  assumes "laws S (=) live" and "read_finalized_header S r = (res, r')"
  shows "live r' = live r \<and> (\<forall>x. res = Ok x \<longrightarrow> x = header_view S (live r))"
  using read_json_value_alone [OF lawsD(1) [OF assms(1)]] assms(2)
  unfolding read_finalized_header_def header_view_def by blast

text \<open>A write of a value that encodes: it took effect, or it failed and did so or not.\<close>

lemma write_alone_cases:
  assumes "write_law (=) live c eff" and "redis_call c r = (res, r')"
  shows "(res = Ok () \<or> (\<exists>e. res = Err (Redis_error e))) \<and>
    (live r' = eff (live r) \<or> res \<noteq> Ok () \<and> live r' = live r)"
proof -
  obtain s where c: "c r = (s, r')" "res = rmap_err Redis_error (of_sum s)"
    using assms(2) by (auto simp: redis_call_def split: prod.splits)
  with assms(1) have "live r' = eff (live r) \<or> (\<exists>e. s = Inl e) \<and> live r' = live r"
    by (auto simp: write_law_def)
  with c(2) show ?thesis by (cases s) auto
qed

lemma set_proof_state_alone:
  assumes L: "laws S (=) live" and run: "set_proof_state S pid st r = (res, r')"
  shows "live r' = live r \<and> res \<noteq> Ok () \<or>
    (\<exists>j. ser_state (rs_json S) st = Inr j \<and> live r' = (live r)(proof_state_key S pid \<mapsto> j))"
  using run unfolding set_proof_state_def
proof (cases rule: abind_cases)
  case (ok j r1)
  then have j: "ser_state (rs_json S) st = Inr j" and "r1 = r" by (auto simp: alift_def)
  with write_alone_cases [OF redis_lawsD(6) [OF lawsD(1) [OF L]] ok(2)] show ?thesis by auto
qed (auto simp: alift_def)

lemma set_finalized_header_alone:
  assumes L: "laws S (=) live" and run: "set_finalized_header S h r = (res, r')"
  shows "live r' = live r \<and> res \<noteq> Ok () \<or>
    (\<exists>j. ser_header (rs_json S) h = Inr j \<and> live r' = (live r)(finalized_header_key S \<mapsto> j))"
  using run unfolding set_finalized_header_def
proof (cases rule: abind_cases)
  case (ok j r1)
  then have j: "ser_header (rs_json S) h = Inr j" and "r1 = r" by (auto simp: alift_def)
  with write_alone_cases [OF redis_lawsD(5) [OF lawsD(1) [OF L]] ok(2)] show ?thesis by auto
qed (auto simp: alift_def)

interpretation state_cells: cell_store "get_proof_state S" "set_proof_state S"
    "\<lambda>r. state_view S (live r)" "laws S (=) live"
proof unfold_locales
  fix k v r r' u
  assume L: "laws S (=) live"
  { assume "set_proof_state S k v r = (Ok u, r')"
    from set_proof_state_alone [OF L this] show "state_view S (live r') = (state_view S (live r))(k \<mapsto> v)"
      by (auto simp: state_view_upd [OF L]) }
  { fix res assume "set_proof_state S k v r = (res, r')"
    from set_proof_state_alone [OF L this]
    show "state_view S (live r') = state_view S (live r) \<or>
        state_view S (live r') = (state_view S (live r))(k \<mapsto> v)"
      by (auto simp: state_view_upd [OF L]) }
qed (auto dest: get_proof_state_alone)

interpretation header_cell: cell_store "\<lambda>_ :: unit. read_finalized_header S" "\<lambda>_. set_finalized_header S"
    "\<lambda>r _. header_view S (live r)" "laws S (=) live"
proof unfold_locales
  fix k :: unit and v r r' u
  assume L: "laws S (=) live"
  { assume "set_finalized_header S v r = (Ok u, r')"
    from set_finalized_header_alone [OF L this]
    show "(\<lambda>_. header_view S (live r')) = (\<lambda>_. header_view S (live r))(k \<mapsto> v)"
      by (auto simp: header_view_upd [OF L]) }
  { fix res assume "set_finalized_header S v r = (res, r')"
    from set_finalized_header_alone [OF L this]
    show "(\<lambda>_. header_view S (live r')) = (\<lambda>_. header_view S (live r)) \<or>
        (\<lambda>_. header_view S (live r')) = (\<lambda>_. header_view S (live r))(k \<mapsto> v)"
      by (auto simp: header_view_upd [OF L]) }
qed (auto dest: read_finalized_header_alone)

section \<open>The locks on a server nobody else uses\<close>

lemma ignore_result_alone:
  assumes "write_law (=) live c eff" and "ignore_result (redis_call c) r = (res, r')"
  shows "res = Ok () \<and> (live r' = live r \<or> live r' = eff (live r))"
proof -
  obtain s r1 where call: "redis_call c r = (s, r1)" by (cases "redis_call c r")
  from write_alone_cases [OF assms(1) call] assms(2) call show ?thesis
    by (auto simp: ignore_result_def amatch_def aret_def)
qed

lemma try_acquire_alone:
  assumes L: "laws S (=) live" and run: "try_acquire_lock S k t r = (Ok acquired, r')"
  shows "if acquired then live r k = None \<and> live r' = (live r)(k \<mapsto> ''locked'')
    else live r k \<noteq> None \<and> live r' = live r"
  using lock_alone [OF redis_lawsD(10) [OF lawsD(1) [OF L]]] run by (simp add: try_acquire_lock_def)

definition generation_held :: "('r, 'x, 'o) redis_store \<Rightarrow> keyspace \<Rightarrow> proof_id \<Rightarrow> bool" where
  "generation_held S m pid \<longleftrightarrow> m (proof_generation_lock_key S pid) \<noteq> None"

definition global_held :: "('r, 'x, 'o) redis_store \<Rightarrow> keyspace \<Rightarrow> bool" where
  "global_held S m \<longleftrightarrow> m (global_lock_key S) \<noteq> None"

lemma held_other [simp]:
  "text_ok S \<Longrightarrow> generation_held S (m(proof_generation_lock_key S pid := v)) pid' \<longleftrightarrow>
     (if pid' = pid then v \<noteq> None else generation_held S m pid')"
  "generation_held S (m(global_lock_key S := v)) = generation_held S m"
  "generation_held S (m(proof_state_key S pid := v)) = generation_held S m"
  "generation_held S (m(finalized_header_key S := v)) = generation_held S m"
  "global_held S (m(global_lock_key S := v)) \<longleftrightarrow> v \<noteq> None"
  "global_held S (m(proof_generation_lock_key S pid := v)) = global_held S m"
  "global_held S (m(proof_state_key S pid := v)) = global_held S m"
  "global_held S (m(finalized_header_key S := v)) = global_held S m"
  by (auto simp: generation_held_def global_held_def fun_eq_iff key_simps)

lemma generation_held_upd:
  "text_ok S \<Longrightarrow> generation_held S (m(proof_generation_lock_key S pid := v)) =
     (generation_held S m)(pid := v \<noteq> None)"
  by (simp add: fun_eq_iff)

lemma fun_upd_unit: "(f :: unit \<Rightarrow> 'a)(k := c) = (\<lambda>_. c)"
  by (simp add: fun_eq_iff)

lemma release_generation_alone:
  assumes "laws S (=) live" and "release_proof_generation_lock S pid r = (res, r')"
  shows "res = Ok () \<and> (live r' = live r \<or> live r' = (live r)(proof_generation_lock_key S pid := None))"
  using ignore_result_alone [OF redis_lawsD(8) [OF lawsD(1) [OF assms(1)]]] assms(2)
  by (simp add: release_proof_generation_lock_def)

lemma release_global_alone:
  assumes "laws S (=) live" and "release_global_lock S r = (res, r')"
  shows "res = Ok () \<and> (live r' = live r \<or> live r' = (live r)(global_lock_key S := None))"
  using ignore_result_alone [OF redis_lawsD(8) [OF lawsD(1) [OF assms(1)]]] assms(2)
  by (simp add: release_global_lock_def)

interpretation generation_lock: lock_service "\<lambda>pid. acquire_proof_generation_lock S pid t"
    "release_proof_generation_lock S" "\<lambda>r. generation_held S (live r)" "laws S (=) live"
proof unfold_locales
  fix k r r' b
  assume L: "laws S (=) live"
  { assume "acquire_proof_generation_lock S k t r = (Ok b, r')"
    then have "try_acquire_lock S (proof_generation_lock_key S k) t r = (Ok b, r')"
      by (simp add: acquire_proof_generation_lock_def)
    note got = try_acquire_alone [OF L this]
    from got show "b \<longleftrightarrow> \<not> generation_held S (live r) k"
      by (auto simp: generation_held_def split: if_splits)
    show "generation_held S (live r') = (generation_held S (live r))(k := True)"
    proof (cases b)
      case True
      with got lawsD(2) [OF L] show ?thesis by (simp add: generation_held_upd)
    next
      case False
      with got have "live r' = live r" "generation_held S (live r) k"
        by (simp_all add: generation_held_def)
      then show ?thesis by (simp add: fun_upd_idem)
    qed }
  { fix res assume "release_proof_generation_lock S k r = (res, r')"
    from release_generation_alone [OF L this] lawsD(2) [OF L]
    show "res = Ok () \<and> (generation_held S (live r') = generation_held S (live r) \<or>
        generation_held S (live r') = (generation_held S (live r))(k := False))"
      by (auto simp: generation_held_upd) }
qed

interpretation global_lock: lock_service "\<lambda>_ :: unit. acquire_global_lock S" "\<lambda>_. release_global_lock S"
    "\<lambda>r _. global_held S (live r)" "laws S (=) live"
proof unfold_locales
  fix k :: unit and r r' b
  assume L: "laws S (=) live"
  { assume "acquire_global_lock S r = (Ok b, r')"
    then have "try_acquire_lock S (global_lock_key S)
        (of_nat (unat (global_lock_duration_secs S) * 1000)) r = (Ok b, r')"
      by (simp add: acquire_global_lock_def)
    note got = try_acquire_alone [OF L this]
    from got show "b \<longleftrightarrow> \<not> global_held S (live r)"
      by (auto simp: global_held_def split: if_splits)
    from got show "(\<lambda>_. global_held S (live r')) = (\<lambda>_. global_held S (live r))(k := True)"
      by (cases b) (simp_all add: fun_upd_unit global_held_def) }
  { fix res assume "release_global_lock S r = (res, r')"
    from release_global_alone [OF L this]
    show "res = Ok () \<and> ((\<lambda>_. global_held S (live r')) = (\<lambda>_. global_held S (live r)) \<or>
        (\<lambda>_. global_held S (live r')) = (\<lambda>_. global_held S (live r))(k := False))"
      by (auto simp: fun_upd_unit) }
qed

lemma extend_lock_alone:
  assumes L: "laws S (=) live" and run: "extend_proof_generation_lock S pid t r = (Ok b, r')"
  shows "b \<longleftrightarrow> generation_held S (live r) pid" and "live r' = live r"
proof -
  from run obtain n r1 where call: "redis_call (rd_pexpire (conn_manager S)
      (proof_generation_lock_key S pid) t) r = (Ok n, r1)" and r1: "b \<longleftrightarrow> n = 1" "r1 = r'"
    unfolding extend_proof_generation_lock_def by (auto elim!: abind_Ok_cases simp: aret_def)
  from read_alone [OF redis_lawsD(9) [OF lawsD(1) [OF L]] call] r1
  show "b \<longleftrightarrow> generation_held S (live r) pid" "live r' = live r"
    by (auto simp: generation_held_def)
qed

section \<open>An instance for concrete runs\<close>

text \<open>A serializer that knows a few states and headers, and a store over \<open>sample_redis\<close>.\<close>

definition sample_request :: proof_request where
  "sample_request = \<lparr>src_chain_contract_address = 3, src_chain_storage_slots = [10, 11],
     src_chain_block_number = 50, dst_chain_contract_from_head = 40,
     dst_chain_contract_from_header = 64, rq_vkey = 7\<rparr>"

definition sample_state :: "proof_request_status \<Rightarrow> string proof_request_state" where
  "sample_state s = (new_request_state sample_request)\<lparr>status := s,
     proof_data := (if s = Success then Some ''proof'' else None),
     error_message := (if s = Errored then Some ''failed'' else None)\<rparr>"

fun sample_status_text :: "proof_request_status \<Rightarrow> string" where
  "sample_status_text Initiated = ''i''"
| "sample_status_text Waiting_for_finality = ''w''"
| "sample_status_text Generating = ''g''"
| "sample_status_text Success = ''s''"
| "sample_status_text Errored = ''e''"

definition sample_json :: "(nat, string) json_lib" where
  "sample_json = \<lparr>
     ser_state = (\<lambda>st. if st = sample_state (status st) then Inr (sample_status_text (status st))
                       else Inl ''unsupported''),
     de_state = (\<lambda>j. if j = ''w'' then Inr (sample_state Waiting_for_finality)
                    else if j = ''g'' then Inr (sample_state Generating)
                    else if j = ''s'' then Inr (sample_state Success)
                    else if j = ''e'' then Inr (sample_state Errored)
                    else if j = ''i'' then Inr (sample_state Initiated)
                    else Inl ''state''),
     ser_header = (\<lambda>h. if h = sample_header 32 then Inr ''32''
                       else if h = sample_header 64 then Inr ''64'' else Inl ''unsupported''),
     de_header = (\<lambda>j. if j = ''32'' then Inr (sample_header 32)
                    else if j = ''64'' then Inr (sample_header 64) else Inl ''header'') \<rparr>"

definition sample_store_conn :: "((string \<times> string) list, nat, string) redis_store" where
  "sample_store_conn = \<lparr>conn_manager = sample_redis, key_prefix = ''p'',
     global_lock_duration_secs = 5, rs_text = sample_text, rs_json = sample_json\<rparr>"

lemma sample_state_simps [simp]:
  "status (sample_state s) = s" "request (sample_state s) = sample_request"
  by (simp_all add: sample_state_def)

lemma sample_state_decode: "de_state sample_json (sample_status_text s) = Inr (sample_state s)"
  by (cases s) (simp_all add: sample_json_def)

lemma sample_laws: "laws sample_store_conn (=) map_of"
proof -
  have "json_law sample_store_conn"
    unfolding json_law_def
  proof (intro conjI allI impI)
    fix st j assume "ser_state (rs_json sample_store_conn) st = Inr j"
    then have "st = sample_state (status st)" "j = sample_status_text (status st)"
      by (auto simp: sample_store_conn_def sample_json_def split: if_splits)
    then show "de_state (rs_json sample_store_conn) j = Inr st"
      using sample_state_decode [of "status st"] by (simp add: sample_store_conn_def)
  qed (auto simp: sample_store_conn_def sample_json_def split: if_splits)
  then show ?thesis
    using sample_redis_laws sample_hex_law by (simp add: laws_def text_ok_def sample_store_conn_def)
qed

section \<open>Properties\<close>

text \<open>
  C24: on a server nobody else uses, a state stored for a request is the one read back for it, and a
  write to one request, even a failed one, never changes what is read for another or the header.
\<close>

theorem proof_state_round_trip:
  assumes L: "laws S (=) live" and wr: "set_proof_state S pid st r = (Ok (), r1)"
    and rd: "get_proof_state S pid' r1 = (Ok x, r2)" and hdr: "read_finalized_header S r2 = (Ok h, r3)"
  shows "x = (if pid' = pid then Some st else state_view S (live r) pid') \<and>
    h = header_view S (live r)"
proof -
  have "x = (if pid' = pid then Some st else state_view S (live r) pid')"
    using state_cells.write_view [OF L wr] state_cells.read_view [OF L rd] by auto
  moreover have "live r2 = live r1" using get_proof_state_alone [OF L rd] by simp
  moreover have "header_view S (live r1) = header_view S (live r)"
    using set_proof_state_alone [OF L wr] lawsD(2) [OF L] by auto
  ultimately show ?thesis using read_finalized_header_alone [OF L hdr] by simp
qed

theorem proof_state_round_trip_witness:
  "\<exists>r1 r2. set_proof_state sample_store_conn (Proof_id 7) (sample_state Generating) [] = (Ok (), r1) \<and>
     get_proof_state sample_store_conn (Proof_id 7) r1 = (Ok (Some (sample_state Generating)), r2)"
proof -
  obtain r1 where wr: "set_proof_state sample_store_conn (Proof_id 7) (sample_state Generating) [] = (Ok (), r1)"
    by (simp add: set_proof_state_def abind_def alift_def json_res_def sample_store_conn_def
        sample_json_def redis_call_def sample_redis_def)
  then have r1: "r1 = [(proof_state_key sample_store_conn (Proof_id 7), ''g'')]"
    by (simp add: set_proof_state_def abind_def alift_def json_res_def sample_store_conn_def
        sample_json_def redis_call_def sample_redis_def)
  obtain x r2 where rd: "get_proof_state sample_store_conn (Proof_id 7) r1 = (Ok x, r2)"
    by (simp add: r1 get_proof_state_def read_json_value_def abind_def redis_call_def
        sample_store_conn_def sample_redis_def alift_def json_res_def sample_json_def)
  obtain h r3 where hd: "read_finalized_header sample_store_conn r2 = (Ok h, r3)"
  proof -
    have "r2 = r1" using rd by (simp add: r1 get_proof_state_def read_json_value_def abind_def
        redis_call_def sample_store_conn_def sample_redis_def alift_def json_res_def sample_json_def)
    then have "map_of r2 (finalized_header_key sample_store_conn) = None"
      using state_key_not_header [OF lawsD(2) [OF sample_laws]] by (simp add: r1)
    then show thesis using that
      by (simp add: read_finalized_header_def read_json_value_def abind_def redis_call_def
          sample_store_conn_def sample_redis_def aret_def)
  qed
  from proof_state_round_trip [OF sample_laws wr rd hd] wr rd show ?thesis by auto
qed

end
