(* ===== verification/Store_Search.thy ===== *)
theory Store_Search
  imports Store_Facts
begin

text \<open>
  The search for requests by status: what it returns on a server nobody else uses, how much fuel
  its loop needs, and the invariant of the stored states that every operation of the store keeps on
  a shared server.
\<close>

section \<open>Complete iterations\<close>

text \<open>
  \<open>scan_iteration\<close>: the keys that a sequence of \<open>SCAN\<close> calls from a cursor to the end returns, when
  the calls between them do not change the keyspace. The manual promises that a full iteration
  returns every key that exists from its start to its end.
\<close>

inductive scan_iteration ::
  "('r \<Rightarrow> keyspace) \<Rightarrow> 'r redis \<Rightarrow> string \<Rightarrow> int \<Rightarrow> 'r \<Rightarrow> string list \<Rightarrow> bool"
  for live :: "'r \<Rightarrow> keyspace" and R :: "'r redis" and pattern :: string where
  scan_last: "rd_scan R cursor pattern 100 r = (Inr (0, keys), r') \<Longrightarrow>
     scan_iteration live R pattern cursor r keys"
| scan_more: "rd_scan R cursor pattern 100 r = (Inr (cursor', keys), r') \<Longrightarrow> cursor' \<noteq> 0 \<Longrightarrow>
     live r'' = live r' \<Longrightarrow> scan_iteration live R pattern cursor' r'' keys' \<Longrightarrow>
     scan_iteration live R pattern cursor r (keys @ keys')"

definition scan_complete :: "('r \<Rightarrow> keyspace) \<Rightarrow> 'r redis \<Rightarrow> bool" where
  "scan_complete live R \<longleftrightarrow>
     (\<forall>q r keys k. glob_free q \<longrightarrow> scan_iteration live R (q @ ''*'') 0 r keys \<longrightarrow>
        live r k \<noteq> None \<longrightarrow> starts_with k q \<longrightarrow> k \<in> set keys)"

lemma sample_scan_complete: "scan_complete map_of sample_redis"
  unfolding scan_complete_def
proof (intro allI impI)
  fix q r keys k
  assume "scan_iteration map_of sample_redis (q @ ''*'') 0 r keys" "map_of r k \<noteq> None" "starts_with k q"
  then show "k \<in> set keys"
  proof (cases rule: scan_iteration.cases)
    case (scan_last r')
    from \<open>map_of r k \<noteq> None\<close> have "k \<in> fst ` set r" by (simp add: map_of_eq_None_iff)
    moreover from scan_last have "filter (\<lambda>k. starts_with k q) (map fst r) = keys"
      by (auto simp: sample_redis_def)
    then have "set keys = {k \<in> fst ` set r. starts_with k q}"
      by (metis set_filter list.set_map)
    ultimately show ?thesis using \<open>starts_with k q\<close> by simp
  qed (auto simp: sample_redis_def)
qed

section \<open>One batch\<close>

definition plain_prefix :: "('r, 'x, 'o) redis_store \<Rightarrow> bool" where
  "plain_prefix S \<longleftrightarrow> glob_free (key_prefix S)"

lemma pattern_split: "key_prefix S @ '':state:*'' = (key_prefix S @ '':state:'') @ ''*''"
  by simp

lemma glob_free_pattern: "plain_prefix S \<Longrightarrow> glob_free (key_prefix S @ '':state:'')"
  by (auto simp: plain_prefix_def glob_free_def)

lemma set_push_matching:
  "set (push_matching S st js found) =
     set found \<union> {s. \<exists>j. Some j \<in> set js \<and> de_state (rs_json S) j = Inr s \<and> status s = st}"
  by (induction S st js found rule: push_matching.induct) (auto split: sum.splits)

text \<open>\<open>matches\<close>: the requests of a status stored under some of the keys.\<close>

definition matches ::
  "('r, 'x, 'o) redis_store \<Rightarrow> keyspace \<Rightarrow> proof_request_status \<Rightarrow> string set
    \<Rightarrow> 'o proof_request_state set" where
  "matches S m st ks =
     {s. \<exists>k \<in> ks. k \<noteq> finalized_header_key S \<and> decoded (de_state (rs_json S)) (m k) = Some s \<and> status s = st}"

lemma decoded_Some: "decoded de v = Some s \<longleftrightarrow> (\<exists>j. v = Some j \<and> de j = Inr s)"
  by (auto simp: decoded_def split: option.splits sum.splits)

lemma matches_Un: "matches S m st (A \<union> B) = matches S m st A \<union> matches S m st B"
  by (auto simp: matches_def)

lemma scan_batch_alone:
  assumes L: "laws S (=) live" and "plain_prefix S"
    and run: "scan_batch S st cursor found r = (Ok (next_cursor, found'), r')"
  shows "live r' = live r \<and> (\<exists>keys r1. live r1 = live r \<and>
    rd_scan (conn_manager S) cursor (key_prefix S @ '':state:*'') 100 r = (Inr (next_cursor, keys), r1) \<and>
    set found' = set found \<union> matches S (live r) st (set keys))"
proof -
  from run obtain nk r1 where scan: "redis_call (rd_scan (conn_manager S) cursor
      (key_prefix S @ '':state:*'') 100) r = (Ok nk, r1)"
    and rest: "(case nk of (next_cursor, keys) \<Rightarrow>
        let ks = filter (\<lambda>k. k \<noteq> finalized_header_key S) keys
        in if ks = [] then aret (next_cursor, found)
           else abind (redis_call (rd_mget (conn_manager S) ks)) (\<lambda>state_jsons.
             aret (next_cursor, push_matching S st state_jsons found))) r1 = (Ok (next_cursor, found'), r')"
    unfolding scan_batch_def by (auto elim: abind_Ok_cases)
  obtain nc keys where nk: "nk = (nc, keys)" by (cases nk)
  define ks where "ks = filter (\<lambda>k. k \<noteq> finalized_header_key S) keys"
  have "read_law (=) live (rd_scan (conn_manager S) cursor (key_prefix S @ '':state:*'') 100)
      (\<lambda>m (c', ks). \<forall>k \<in> set ks. starts_with k (key_prefix S @ '':state:''))"
    unfolding pattern_split
    using redis_lawsD(4) [OF lawsD(1) [OF L] glob_free_pattern [OF assms(2)]] .
  from read_alone [OF this scan] have r1: "live r1 = live r" by simp
  have direct: "rd_scan (conn_manager S) cursor (key_prefix S @ '':state:*'') 100 r = (Inr (nc, keys), r1)"
    using scan nk by (simp add: redis_call_def split: prod.splits)
  have none: "matches S (live r) st (set keys) =
      {s. \<exists>j. (\<exists>k \<in> set ks. live r k = Some j) \<and> de_state (rs_json S) j = Inr s \<and> status s = st}"
    by (auto simp: matches_def ks_def decoded_Some)
  show ?thesis
  proof (cases "ks = []")
    case True
    with rest nk have "nc = next_cursor" "found' = found" "r' = r1"
      by (auto simp: ks_def Let_def aret_def)
    with direct r1 none True show ?thesis by auto
  next
    case False
    with rest nk have "abind (redis_call (rd_mget (conn_manager S) ks)) (\<lambda>state_jsons.
        aret (nc, push_matching S st state_jsons found)) r1 = (Ok (next_cursor, found'), r')"
      by (simp add: ks_def [symmetric] Let_def)
    then obtain js where mget: "redis_call (rd_mget (conn_manager S) ks) r1 = (Ok js, r')"
      and found': "nc = next_cursor" "found' = push_matching S st js found"
      by (auto elim!: abind_Ok_cases simp: aret_def)
    from read_alone [OF redis_lawsD(3) [OF lawsD(1) [OF L]] mget]
    have "live r' = live r1" and "\<And>v. Some v \<in> set js \<longleftrightarrow> (\<exists>k \<in> set ks. live r1 k = Some v)" by auto
    with direct r1 none found' show ?thesis by (auto simp: set_push_matching)
  qed
qed

section \<open>The loop\<close>

lemma scan_loop_alone:
  assumes L: "laws S (=) live" and "plain_prefix S"
  shows "scan_loop S st fuel cursor found r = (Ok found', r') \<Longrightarrow>
    live r' = live r \<and>
    (\<exists>keys. scan_iteration live (conn_manager S) (key_prefix S @ '':state:*'') cursor r keys \<and>
       set found' = set found \<union> matches S (live r) st (set keys))"
proof (induction fuel arbitrary: cursor found r)
  case 0
  then show ?case by (simp add: alift_def)
next
  case (Suc fuel)
  then obtain nf r1 where batch: "scan_batch S st cursor found r = (Ok nf, r1)"
    and rest: "(case nf of (next_cursor, found') \<Rightarrow>
        if next_cursor = 0 then aret found' else scan_loop S st fuel next_cursor found') r1 = (Ok found', r')"
    by (auto elim: abind_Ok_cases)
  obtain nc found1 where nf: "nf = (nc, found1)" by (cases nf)
  from scan_batch_alone [OF L assms(2) batch [unfolded nf]] obtain keys r2 where r1: "live r1 = live r"
    and scan: "rd_scan (conn_manager S) cursor (key_prefix S @ '':state:*'') 100 r = (Inr (nc, keys), r2)"
    and r2: "live r2 = live r" and found1: "set found1 = set found \<union> matches S (live r) st (set keys)"
    by blast
  show ?case
  proof (cases "nc = 0")
    case True
    with rest nf have "found' = found1" "r' = r1" by (auto simp: aret_def)
    with found1 r1 scan True show ?thesis by (auto intro: scan_last)
  next
    case False
    with rest nf have "scan_loop S st fuel nc found1 r1 = (Ok found', r')" by simp
    from Suc.IH [OF this] obtain keys' where r': "live r' = live r1"
      and iter: "scan_iteration live (conn_manager S) (key_prefix S @ '':state:*'') nc r1 keys'"
      and found': "set found' = set found1 \<union> matches S (live r1) st (set keys')" by blast
    from scan_more [where live = live, OF scan False _ iter] r1 r2
    have "scan_iteration live (conn_manager S) (key_prefix S @ '':state:*'') cursor r (keys @ keys')"
      by simp
    with r' r1 found' found1 show ?thesis by (auto simp: matches_Un)
  qed
qed

text \<open>More fuel never changes a result.\<close>

lemma scan_loop_more_fuel:
  "scan_loop S st fuel cursor found r = (res, r') \<Longrightarrow> res \<noteq> Diverge \<Longrightarrow> fuel \<le> fuel' \<Longrightarrow>
     scan_loop S st fuel' cursor found r = (res, r')"
proof (induction fuel arbitrary: fuel' cursor found r)
  case 0
  then show ?case by (simp add: alift_def)
next
  case (Suc fuel)
  then obtain f where f: "fuel' = Suc f" "fuel \<le> f" by (cases fuel') auto
  obtain s r1 where batch: "scan_batch S st cursor found r = (s, r1)"
    by (cases "scan_batch S st cursor found r")
  show ?case
  proof (cases s)
    case (Ok nf)
    obtain nc found1 where "nf = (nc, found1)" by (cases nf)
    with Ok batch Suc f show ?thesis by (auto simp: abind_def)
  qed (use batch Suc.prems f in \<open>auto simp: abind_def\<close>)
qed

lemma redis_call_no_diverge: "redis_call c r \<noteq> (Diverge, r')" "redis_call c r \<noteq> (Panic p, r')"
  by (cases "fst (c r)"; auto simp: redis_call_def split: prod.splits)+

section \<open>The invariant of the stored states\<close>

text \<open>
  Every decodable value under a state key is well-formed and stored under the key of its own
  request. \<open>shared\<close> collects what the store may assume when other processes, which keep the
  invariant too, use the same server.
\<close>

definition state_at ::
  "crypto \<Rightarrow> ('r, 'x, 'o) redis_store \<Rightarrow> proof_id \<Rightarrow> 'o proof_request_state \<Rightarrow> bool" where
  "state_at P S pid st \<longleftrightarrow> wf_state st \<and> proof_id_new P (rs_text S) (request st) = pid"

definition store_inv :: "crypto \<Rightarrow> ('r, 'x, 'o) redis_store \<Rightarrow> keyspace \<Rightarrow> bool" where
  "store_inv P S m \<longleftrightarrow>
     (\<forall>k st. starts_with k (key_prefix S @ '':state:'') \<longrightarrow> k \<noteq> finalized_header_key S \<longrightarrow>
        decoded (de_state (rs_json S)) (m k) = Some st \<longrightarrow>
        (\<exists>pid. k = proof_state_key S pid \<and> state_at P S pid st))"

definition shared ::
  "crypto \<Rightarrow> ('r, 'x, 'o) redis_store \<Rightarrow> ('r \<Rightarrow> 'r \<Rightarrow> bool) \<Rightarrow> ('r \<Rightarrow> keyspace) \<Rightarrow> bool" where
  "shared P S rely live \<longleftrightarrow>
     laws S rely live \<and> plain_prefix S \<and> stable rely live (store_inv P S)"

lemma sharedD:
  assumes "shared P S rely live"
  shows "redis_laws rely live (conn_manager S)" "text_ok S" "laws S rely live" "plain_prefix S"
    "stable rely live (store_inv P S)"
  using assms by (auto simp: shared_def dest: lawsD)

lemma store_inv_state_key:
  assumes "store_inv P S m" and "text_ok S"
    and "decoded (de_state (rs_json S)) (m (proof_state_key S pid)) = Some st"
  shows "state_at P S pid st"
proof -
  have "starts_with (proof_state_key S pid) (key_prefix S @ '':state:'')"
    by (simp add: proof_state_key_def starts_with_iff)
  moreover have "proof_state_key S pid \<noteq> finalized_header_key S"
    using assms(2) by (simp add: key_simps)
  ultimately obtain pid' where "proof_state_key S pid = proof_state_key S pid'" "state_at P S pid' st"
    using assms(1,3) unfolding store_inv_def by blast
  then show ?thesis using proof_state_key_inj [OF assms(2)] by simp
qed

lemma store_inv_upd_state:
  assumes "store_inv P S m" and "de_state (rs_json S) j = Inr st" and "state_at P S pid st"
  shows "store_inv P S (m(proof_state_key S pid \<mapsto> j))"
  using assms unfolding store_inv_def by auto

lemma store_inv_upd_other:
  "store_inv P S m \<Longrightarrow> k = finalized_header_key S \<or> \<not> starts_with k (key_prefix S @ '':state:'')
     \<Longrightarrow> store_inv P S (m(k := v))"
  unfolding store_inv_def by auto

lemma store_inv_remove: "store_inv P S m \<Longrightarrow> store_inv P S (m(k := None))"
  unfolding store_inv_def by auto

lemma lock_keys_not_state [key_simps]:
  "\<not> starts_with (global_lock_key S) (key_prefix S @ '':state:'')"
  "\<not> starts_with (proof_generation_lock_key S pid) (key_prefix S @ '':state:'')"
  by (auto simp: starts_with_iff global_lock_key_def proof_generation_lock_key_def)

subsection \<open>Every operation keeps it\<close>

abbreviation inv_on where
  "inv_on P S live \<equiv> (\<lambda>r. store_inv P S (live r))"

lemma ensures_read_json:
  assumes "shared P S rely live"
    and "\<And>m x. store_inv P S m \<Longrightarrow> decoded de (m k) = Some x \<Longrightarrow> Q x"
  shows "ensures (inv_on P S live) (read_json_value S de k) (\<lambda>v. \<forall>x. v = Some x \<longrightarrow> Q x)"
  unfolding read_json_value_def
proof (rule ensures_abind)
  show "ensures (inv_on P S live) (redis_call (rd_get (conn_manager S) k))
      (\<lambda>v. \<exists>m. store_inv P S m \<and> v = m k)"
    by (rule ensures_read [OF sharedD(5) [OF assms(1)] redis_lawsD(2) [OF sharedD(1) [OF assms(1)]]])
       blast
next
  fix v assume "\<exists>m. store_inv P S m \<and> v = m k"
  then obtain m where m: "store_inv P S m" "v = m k" by blast
  show "ensures (inv_on P S live) (case v of None \<Rightarrow> aret None | Some json \<Rightarrow>
      alift (rbind (json_res (de json)) (\<lambda>state. Ok (Some state)))) (\<lambda>v. \<forall>x. v = Some x \<longrightarrow> Q x)"
    using m assms(2) by (auto simp: rbind_Ok_iff decoded_Some intro!: ensures_aret ensures_alift
        split: option.split)
qed

lemma ensures_get_proof_state:
  assumes "shared P S rely live"
  shows "ensures (inv_on P S live) (get_proof_state S pid) (\<lambda>x. \<forall>st. x = Some st \<longrightarrow> state_at P S pid st)"
  unfolding get_proof_state_def
  by (rule ensures_read_json [OF assms]) (rule store_inv_state_key [OF _ sharedD(2) [OF assms]])

lemma preserves_read_header:
  assumes "shared P S rely live"
  shows "preserves (inv_on P S live) (read_finalized_header S)"
  unfolding read_finalized_header_def
  using ensures_preserves [OF ensures_read_json [OF assms, where Q = "\<lambda>_. True"]] by blast

lemma preserves_set_proof_state:
  assumes sh: "shared P S rely live" and "state_at P S pid st"
  shows "preserves (inv_on P S live) (set_proof_state S pid st)"
  unfolding set_proof_state_def
proof (rule ensures_abind)
  show "ensures (inv_on P S live) (alift (json_res (ser_state (rs_json S) st)))
      (\<lambda>j. ser_state (rs_json S) st = Inr j)"
    by (rule ensures_alift) simp
next
  fix j assume "ser_state (rs_json S) st = Inr j"
  then have "de_state (rs_json S) j = Inr st" using lawsD(3) [OF sharedD(3) [OF sh]] by blast
  then show "preserves (inv_on P S live) (redis_call (rd_set_ex (conn_manager S)
      (proof_state_key S pid) j PROOF_STATE_TTL_SECS))"
    by (intro preserves_write [OF sharedD(5) [OF sh] redis_lawsD(6) [OF sharedD(1) [OF sh]]]
        store_inv_upd_state [OF _ _ assms(2)])
qed

lemma store_inv_cmds:
  assumes sh: "shared P S rely live" and ok: "rmapM (state_cmd S) updated = Ok cmds"
    and states: "\<forall>(pid, st) \<in> set updated. state_at P S pid st"
  shows "store_inv P S m \<Longrightarrow> store_inv P S (apply_cmds cmds m)"
  using ok states
proof (induction updated arbitrary: cmds m)
  case (Cons u us)
  obtain pid st where u: "u = (pid, st)" by (cases u)
  with Cons.prems obtain j cs where j: "ser_state (rs_json S) st = Inr j"
    and cmds: "cmds = Cmd_set_ex (proof_state_key S pid) j PROOF_STATE_TTL_SECS # cs"
    and cs: "rmapM (state_cmd S) us = Ok cs"
    by (auto simp: rbind_Ok_iff state_cmd_def)
  from j have "de_state (rs_json S) j = Inr st" using lawsD(3) [OF sharedD(3) [OF sh]] by blast
  then have inv: "store_inv P S (m(proof_state_key S pid \<mapsto> j))"
    using Cons.prems u by (intro store_inv_upd_state) auto
  from Cons.prems(3) have "\<forall>(pid, st) \<in> set us. state_at P S pid st" by simp
  from Cons.IH [OF inv cs this] show ?case by (simp only: cmds apply_cmds.simps)
qed simp

lemma preserves_update_header_and_states:
  assumes sh: "shared P S rely live" and states: "\<forall>(pid, st) \<in> set updated. state_at P S pid st"
  shows "preserves (inv_on P S live) (update_finalized_header_and_proof_states S h updated)"
  unfolding update_finalized_header_and_proof_states_def
proof (rule preserves_abind [OF preserves_alift], rule ensures_abind)
  show "ensures (inv_on P S live) (alift (rmapM (state_cmd S) updated))
      (\<lambda>cmds. rmapM (state_cmd S) updated = Ok cmds)"
    by (rule ensures_alift)
next
  fix hj cmds assume "rmapM (state_cmd S) updated = Ok cmds"
  from store_inv_cmds [OF sh this states]
  show "preserves (inv_on P S live) (redis_call (rd_atomic (conn_manager S)
      (Cmd_set (finalized_header_key S) hj # cmds)))"
    by (intro preserves_write [OF sharedD(5) [OF sh] redis_lawsD(7) [OF sharedD(1) [OF sh]]])
       (simp add: store_inv_upd_other)
qed

lemma preserves_ignore [preserves_intros]: "preserves I m \<Longrightarrow> preserves I (ignore_result m)"
  unfolding ignore_result_def by (intro preserves_intros) simp_all

lemma preserves_lock_ops:
  assumes sh: "shared P S rely live"
  shows "preserves (inv_on P S live) (acquire_global_lock S)"
    and "preserves (inv_on P S live) (release_global_lock S)"
    and "preserves (inv_on P S live) (acquire_proof_generation_lock S pid t)"
    and "preserves (inv_on P S live) (release_proof_generation_lock S pid)"
    and "preserves (inv_on P S live) (extend_proof_generation_lock S pid t)"
proof -
  note st = sharedD(5) [OF sh] and law = sharedD(1) [OF sh]
  show "preserves (inv_on P S live) (acquire_global_lock S)"
    "preserves (inv_on P S live) (acquire_proof_generation_lock S pid t)"
    unfolding acquire_global_lock_def acquire_proof_generation_lock_def try_acquire_lock_def
    by (rule preserves_lock [OF st redis_lawsD(10) [OF law]], simp add: store_inv_upd_other key_simps)+
  show "preserves (inv_on P S live) (release_global_lock S)"
    "preserves (inv_on P S live) (release_proof_generation_lock S pid)"
    unfolding release_global_lock_def release_proof_generation_lock_def
    by (intro preserves_ignore preserves_write [OF st redis_lawsD(8) [OF law]] store_inv_remove;
        assumption)+
  show "preserves (inv_on P S live) (extend_proof_generation_lock S pid t)"
    unfolding extend_proof_generation_lock_def
    by (intro preserves_abind ensures_aret TrueI ensures_read [OF st redis_lawsD(9) [OF law]])
qed

lemma ensures_scan_batch:
  assumes sh: "shared P S rely live" and found: "\<forall>s \<in> set found. wf_state s \<and> status s = st"
  shows "ensures (inv_on P S live) (scan_batch S st cursor found)
    (\<lambda>(nc, found'). \<forall>s \<in> set found'. wf_state s \<and> status s = st)"
  unfolding scan_batch_def
proof (rule ensures_abind)
  show "ensures (inv_on P S live) (redis_call (rd_scan (conn_manager S) cursor
      (key_prefix S @ '':state:*'') 100))
      (\<lambda>(nc, keys). \<forall>k \<in> set keys. starts_with k (key_prefix S @ '':state:''))"
    unfolding pattern_split
    by (rule ensures_read [OF sharedD(5) [OF sh]
          redis_lawsD(4) [OF sharedD(1) [OF sh] glob_free_pattern [OF sharedD(4) [OF sh]]]])
next
  fix x :: "int \<times> string list"
  assume x: "case x of (nc, keys) \<Rightarrow> \<forall>k \<in> set keys. starts_with k (key_prefix S @ '':state:'')"
  obtain nc keys where xe: "x = (nc, keys)" by (cases x)
  define ks where "ks = filter (\<lambda>k. k \<noteq> finalized_header_key S) keys"
  have ks: "starts_with k (key_prefix S @ '':state:'')" "k \<noteq> finalized_header_key S" if "k \<in> set ks" for k
    using x xe that by (auto simp: ks_def)
  have "ensures (inv_on P S live) (redis_call (rd_mget (conn_manager S) ks))
      (\<lambda>js. \<forall>j s. Some j \<in> set js \<longrightarrow> de_state (rs_json S) j = Inr s \<longrightarrow> wf_state s)"
  proof (rule ensures_read [OF sharedD(5) [OF sh] redis_lawsD(3) [OF sharedD(1) [OF sh]]],
      intro allI impI)
    fix m js j s
    assume inv: "store_inv P S m" and "\<forall>v. Some v \<in> set js \<longleftrightarrow> (\<exists>k \<in> set ks. m k = Some v)"
      and "Some j \<in> set js" "de_state (rs_json S) j = Inr s"
    then obtain k where "k \<in> set ks" "m k = Some j" by blast
    with inv ks [OF this(1)] \<open>de_state (rs_json S) j = Inr s\<close> show "wf_state s"
      unfolding store_inv_def state_at_def by force
  qed
  then have "ensures (inv_on P S live) (abind (redis_call (rd_mget (conn_manager S) ks))
      (\<lambda>js. aret (nc, push_matching S st js found)))
      (\<lambda>(nc, found'). \<forall>s \<in> set found'. wf_state s \<and> status s = st)"
    by (rule ensures_abind) (rule ensures_aret, use found in \<open>auto simp: set_push_matching\<close>)
  then show "ensures (inv_on P S live) (case x of (next_cursor, keys) \<Rightarrow>
        let proof_state_keys = filter (\<lambda>k. k \<noteq> finalized_header_key S) keys
        in if proof_state_keys = [] then aret (next_cursor, found)
           else abind (redis_call (rd_mget (conn_manager S) proof_state_keys)) (\<lambda>state_jsons.
             aret (next_cursor, push_matching S st state_jsons found)))
      (\<lambda>(nc, found'). \<forall>s \<in> set found'. wf_state s \<and> status s = st)"
    using found by (simp add: xe ks_def Let_def ensures_aret)
qed

lemma ensures_scan_loop:
  assumes sh: "shared P S rely live"
  shows "\<forall>s \<in> set found. wf_state s \<and> status s = st \<Longrightarrow>
    ensures (inv_on P S live) (scan_loop S st fuel cursor found)
      (\<lambda>found'. \<forall>s \<in> set found'. wf_state s \<and> status s = st)"
proof (induction fuel arbitrary: cursor found)
  case 0
  then show ?case by (auto intro: ensures_alift)
next
  case (Suc fuel)
  show ?case
    unfolding scan_loop.simps
    by (rule ensures_abind [OF ensures_scan_batch [OF sh Suc.prems]])
       (auto intro: ensures_aret Suc.IH)
qed

lemma ensures_find:
  "shared P S rely live \<Longrightarrow> ensures (inv_on P S live) (find_requests_by_status S fuel st)
     (\<lambda>found. \<forall>s \<in> set found. wf_state s \<and> status s = st)"
  unfolding find_requests_by_status_def by (rule ensures_scan_loop) simp_all

text \<open>The search only reads, so it keeps any invariant of the keyspace that the others keep.\<close>

lemma preserves_find:
  assumes L: "laws S rely live" and plain: "plain_prefix S" and st: "stable rely live I"
  shows "preserves (\<lambda>r. I (live r)) (find_requests_by_status S fuel status_wanted)"
proof -
  let ?I = "\<lambda>r. I (live r)"
  note law = lawsD(1) [OF L]
  have read: "preserves ?I (redis_call c)" if "read_law rely live c ok" for c ok
    by (rule ensures_read [OF st that]) simp
  have batch: "preserves ?I (scan_batch S status_wanted cursor found)" for cursor found
    unfolding scan_batch_def Let_def pattern_split
    by (intro preserves_abind read [OF redis_lawsD(4) [OF law glob_free_pattern [OF plain]]])
       (auto intro!: preserves_abind read [OF redis_lawsD(3) [OF law]] ensures_aret split: prod.split)
  have "preserves ?I (scan_loop S status_wanted fuel cursor found)" for cursor found
    by (induction fuel arbitrary: cursor found)
       (auto intro!: preserves_abind batch ensures_aret preserves_alift split: prod.split)
  then show ?thesis by (simp add: find_requests_by_status_def)
qed

section \<open>The search finds exactly the requests of a status\<close>

lemma scan_iteration_keys:
  assumes law: "redis_laws (=) live R" and "glob_free q"
  shows "scan_iteration live R (q @ ''*'') cursor r keys \<Longrightarrow> \<forall>k \<in> set keys. starts_with k q"
proof (induction rule: scan_iteration.induct)
  case (scan_last cursor r keys r')
  from redis_lawsD(4) [OF law assms(2)] scan_last show ?case unfolding read_law_def by fastforce
next
  case (scan_more cursor r cursor' keys r' r'' keys')
  from redis_lawsD(4) [OF law assms(2)] scan_more(1) have "\<forall>k \<in> set keys. starts_with k q"
    unfolding read_law_def by fastforce
  with scan_more show ?case by auto
qed

lemma find_requests_alone:
  assumes L: "laws S (=) live" and plain: "plain_prefix S"
    and complete: "scan_complete live (conn_manager S)" and inv: "store_inv P S (live r)"
    and run: "find_requests_by_status S fuel st r = (Ok found, r')"
  shows "live r' = live r \<and>
    (\<forall>s. s \<in> set found \<longleftrightarrow> status s = st \<and> (\<exists>pid. state_view S (live r) pid = Some s))"
proof -
  from scan_loop_alone [OF L plain] run obtain keys where r': "live r' = live r"
    and iter: "scan_iteration live (conn_manager S) ((key_prefix S @ '':state:'') @ ''*'') 0 r keys"
    and found: "set found = matches S (live r) st (set keys)"
    unfolding find_requests_by_status_def by fastforce
  note glob = glob_free_pattern [OF plain]
  have keys: "\<forall>k \<in> set keys. starts_with k (key_prefix S @ '':state:'')"
    using scan_iteration_keys [OF lawsD(1) [OF L] glob iter] .
  have "s \<in> set found \<longleftrightarrow> status s = st \<and> (\<exists>pid. state_view S (live r) pid = Some s)" for s
  proof
    assume "s \<in> set found"
    then obtain k where k: "k \<in> set keys" "k \<noteq> finalized_header_key S" "status s = st"
      "decoded (de_state (rs_json S)) (live r k) = Some s" unfolding found matches_def by blast
    with keys inv obtain pid where "k = proof_state_key S pid" unfolding store_inv_def by blast
    with k show "status s = st \<and> (\<exists>pid. state_view S (live r) pid = Some s)"
      by (auto simp: state_view_def)
  next
    assume "status s = st \<and> (\<exists>pid. state_view S (live r) pid = Some s)"
    then obtain pid where s: "status s = st"
      "decoded (de_state (rs_json S)) (live r (proof_state_key S pid)) = Some s"
      by (auto simp: state_view_def)
    then have "live r (proof_state_key S pid) \<noteq> None" by (auto simp: decoded_Some)
    moreover have "starts_with (proof_state_key S pid) (key_prefix S @ '':state:'')"
      by (simp add: proof_state_key_def starts_with_iff)
    ultimately have "proof_state_key S pid \<in> set keys"
      using complete glob iter unfolding scan_complete_def by blast
    with s show "s \<in> set found"
      unfolding found matches_def using state_key_not_header [OF lawsD(2) [OF L]] by blast
  qed
  with r' show ?thesis by blast
qed

section \<open>Properties\<close>

text \<open>
  C22: on a server nobody else uses, and with a key prefix that has no pattern character, the search by
  status returns exactly the stored requests of that status: every one of them, whatever the batches of
  the scan, and nothing else; the keyspace is unchanged. The prefix of the example environment,
  \<open>sp1-helios\<close>, is such a one.
\<close>

theorem search_by_status_exact:
  assumes "laws S (=) live" and "plain_prefix S" and "scan_complete live (conn_manager S)"
    and "store_inv P S (live r)" and "find_requests_by_status S fuel st r = (Ok found, r')"
  shows "live r' = live r \<and>
    (\<forall>s. s \<in> set found \<longleftrightarrow> status s = st \<and> (\<exists>pid. state_view S (live r) pid = Some s))"
  using assms by (rule find_requests_alone)

text \<open>A server that holds one waiting and one generating request; their keys stay symbolic.\<close>

definition sample_pid :: proof_id where
  "sample_pid = proof_id_new sample_crypto sample_text sample_request"

definition sample_server :: "proof_request_status \<Rightarrow> (string \<times> string) list" where
  "sample_server s = [(finalized_header_key sample_store_conn, ''32''),
     (proof_state_key sample_store_conn sample_pid, sample_status_text s)]"

lemma sample_plain: "plain_prefix sample_store_conn"
  by (simp add: plain_prefix_def glob_free_def sample_store_conn_def)

lemma documented_prefix_plain: "plain_prefix (sample_store_conn\<lparr>key_prefix := ''sp1-helios''\<rparr>)"
  by (simp add: plain_prefix_def glob_free_def)

lemma sample_key_facts:
  "starts_with (proof_state_key sample_store_conn pid) ''p:state:''"
  "starts_with (finalized_header_key sample_store_conn) ''p:state:''"
  "proof_state_key sample_store_conn pid \<noteq> finalized_header_key sample_store_conn"
  "finalized_header_key sample_store_conn \<noteq> proof_state_key sample_store_conn pid"
  using state_key_not_header [OF lawsD(2) [OF sample_laws]]
  by (simp_all add: starts_with_def proof_state_key_def finalized_header_key_def sample_store_conn_def)

lemma sample_conn_simps [simp]:
  "conn_manager sample_store_conn = sample_redis" "rs_json sample_store_conn = sample_json"
  "rs_text sample_store_conn = sample_text" "key_prefix sample_store_conn = ''p''"
  by (simp_all add: sample_store_conn_def)

lemma sample_server_state:
  "s \<noteq> Initiated \<Longrightarrow> store_inv sample_crypto sample_store_conn (map_of (sample_server s))"
  by (auto simp: store_inv_def sample_server_def decoded_Some sample_state_decode state_at_def
      sample_pid_def wf_state_def sample_state_def split: if_splits)

lemma sample_search:
  "find_requests_by_status sample_store_conn 1 Generating (sample_server Generating)
     = (Ok [sample_state Generating], sample_server Generating)"
  using sample_state_decode [of Generating]
  by (simp add: find_requests_by_status_def scan_batch_def abind_def redis_call_def sample_redis_def
      sample_server_def sample_key_facts aret_def Let_def)

theorem search_by_status_exact_witness:
  "\<exists>found. find_requests_by_status sample_store_conn 1 Generating (sample_server Generating)
      = (Ok found, sample_server Generating) \<and> sample_state Generating \<in> set found \<and>
      (\<exists>pid. state_view sample_store_conn (map_of (sample_server Generating)) pid = Some (sample_state Generating))"
proof -
  have c: "scan_complete map_of (conn_manager sample_store_conn)" by (simp add: sample_scan_complete)
  have i: "store_inv sample_crypto sample_store_conn (map_of (sample_server Generating))"
    by (rule sample_server_state) simp
  have "\<exists>pid. state_view sample_store_conn (map_of (sample_server Generating)) pid
      = Some (sample_state Generating)"
    using search_by_status_exact [OF sample_laws sample_plain c i sample_search, THEN conjunct2,
        THEN spec [of _ "sample_state Generating"]] by simp
  with sample_search show ?thesis by auto
qed

text \<open>
  The bound of the model's scan: a search that ends within it ends in the same way within every
  larger one. (Whether the server's cursors come to an end is not for the program to say.)
\<close>

theorem search_more_fuel:
  assumes "find_requests_by_status S fuel st r = (res, r')" and "res \<noteq> Diverge" and "fuel \<le> fuel'"
  shows "find_requests_by_status S fuel' st r = (res, r')"
  using assms unfolding find_requests_by_status_def by (rule scan_loop_more_fuel)

theorem search_more_fuel_witness:
  "find_requests_by_status sample_store_conn 5 Generating (sample_server Generating) =
     (Ok [sample_state Generating], sample_server Generating)"
  by (rule search_more_fuel [OF sample_search]) simp_all

end
