(* ===== verification/Chain_Clock.thy ===== *)
theory Chain_Clock
  imports Samples
begin

text \<open>
  The trait \<open>ConfigExt\<close> of \<open>zk-api/src/consensus_client/mod.rs\<close>: the clock arithmetic on a
  configuration. The configuration type is \<open>helios_ethereum::config::Config\<close>, here with the
  fields the code reads. A reading of the system clock is an argument (nanoseconds since the
  epoch); where the code reads the clock twice there are two arguments. \<open>chk\<close> says whether the
  build checks overflow.
\<close>

record 'x config =
  genesis_time :: u64
  cfg_genesis_root :: b256
  cfg_forks :: 'x
  strict_checkpoint_age :: bool
  max_checkpoint_age :: u64

section \<open>The operations\<close>

definition expected_current_slot :: "'x helios \<Rightarrow> 'x config \<Rightarrow> system_time \<Rightarrow> u64" where
  "expected_current_slot H cfg now = h_expected_slot H now (genesis_time cfg)"

definition slot_timestamp :: "bool \<Rightarrow> 'x config \<Rightarrow> u64 \<Rightarrow> ('e, u64) res" where
  "slot_timestamp chk cfg s =
     rbind (u64_mul chk s 12) (\<lambda>t. u64_add chk t (genesis_time cfg))"

definition is_valid_checkpoint ::
  "bool \<Rightarrow> 'x helios \<Rightarrow> 'x config \<Rightarrow> system_time \<Rightarrow> u64 \<Rightarrow> ('e, bool) res" where
  "is_valid_checkpoint chk H cfg now blockhash_slot =
     (let current_slot = expected_current_slot H cfg now in
      rbind (slot_timestamp chk cfg current_slot) (\<lambda>current_slot_timestamp.
      rbind (slot_timestamp chk cfg blockhash_slot) (\<lambda>blockhash_slot_timestamp.
        Ok (u64_saturating_sub current_slot_timestamp blockhash_slot_timestamp
              < max_checkpoint_age cfg))))"

text \<open>
  \<open>age\<close> subtracts two \<open>std::time::Duration\<close>s, which panics when the result would be negative;
  \<open>from_std\<close> fails above the \<open>i64::MAX\<close> milliseconds a \<open>chrono::Duration\<close> can hold. The result
  is a number of nanoseconds.
\<close>

definition chrono_max_millis :: nat where
  "chrono_max_millis = 2 ^ 63 - 1"

definition age :: "bool \<Rightarrow> 'x config \<Rightarrow> system_time \<Rightarrow> u64 \<Rightarrow> ('e, nat) res" where
  "age chk cfg now s =
     rbind (slot_timestamp chk cfg s) (\<lambda>expected_time.
       if now < unat expected_time * 10 ^ 9 then Panic Time_subtraction
       else let delay = now - unat expected_time * 10 ^ 9
            in if chrono_max_millis * 10 ^ 6 < delay then Panic Unwrap_failed else Ok delay)"

text \<open>
  The clock is read once for the current slot and once for \<open>now\<close>. The result is in seconds, as
  \<open>i64\<close>; \<open>try_seconds\<close> fails outside the range of \<open>chrono::Duration\<close>.
\<close>

definition duration_until_next_update ::
  "bool \<Rightarrow> 'x helios \<Rightarrow> 'x config \<Rightarrow> system_time \<Rightarrow> system_time \<Rightarrow> ('e, int) res" where
  "duration_until_next_update chk H cfg now1 now2 =
     (let current_slot = expected_current_slot H cfg now1 in
      rbind (u64_add chk current_slot 1) (\<lambda>next_slot.
      rbind (slot_timestamp chk cfg next_slot) (\<lambda>next_slot_timestamp.
      let now = of_nat (now2 div 10 ^ 9) in
      rbind (u64_sub chk next_slot_timestamp now) (\<lambda>time_to_next_slot.
      rbind (u64_add chk time_to_next_slot 4) (\<lambda>next_update.
        let secs = sint next_update
        in if \<bar>secs\<bar> \<le> int (chrono_max_millis div 1000) then Ok secs else Panic Unwrap_failed)))))"

section \<open>Facts\<close>

definition slot_fits :: "'x config \<Rightarrow> u64 \<Rightarrow> bool" where
  "slot_fits cfg s \<longleftrightarrow> unat s * 12 + unat (genesis_time cfg) < 2 ^ 64"

lemma unat_slot_start:
  "slot_fits cfg s \<Longrightarrow> unat (s * 12 + genesis_time cfg) = unat s * 12 + unat (genesis_time cfg)"
  by (simp add: slot_fits_def unat_u64_add unat_u64_mul)

lemma slot_timestamp_ok: "slot_fits cfg s \<Longrightarrow> slot_timestamp chk cfg s = Ok (s * 12 + genesis_time cfg)"
  by (simp add: slot_timestamp_def slot_fits_def u64_mul_ok u64_add_ok unat_u64_mul)

lemma slot_timestamp_no_err [simp]: "slot_timestamp chk cfg s \<noteq> Err e"
  by (simp add: slot_timestamp_def u64_mul_def u64_add_def)

lemma age_no_err [simp]: "age chk cfg now s \<noteq> Err e"
  by (auto simp: age_def rbind_Err_iff Let_def)

lemma sint_small:
  assumes "unat w < 2 ^ 63"
  shows "sint (w :: u64) = int (unat w)"
proof -
  have "int (unat w) < int (2 ^ 63)" using assms by (simp only: of_nat_less_iff)
  then have "uint w < 2 ^ 63" by simp
  moreover have "- (2 ^ 63) \<le> uint w"
    by (rule order_trans [OF _ uint_ge_0]) simp
  ultimately have "signed_take_bit 63 (uint w) = uint w"
    by (simp only: signed_take_bit_int_eq_self)
  then show ?thesis by (simp add: sint_uint)
qed

text \<open>What \<open>helios_consensus_core::expected_current_slot\<close> documents: whole slots since genesis.\<close>

definition helios_clock :: "'x helios \<Rightarrow> bool" where
  "helios_clock H \<longleftrightarrow>
     (\<forall>now g. unat g \<le> now div 10 ^ 9 \<longrightarrow> now div 10 ^ 9 < 2 ^ 62 \<longrightarrow>
        unat (h_expected_slot H now g) = (now div 10 ^ 9 - unat g) div 12)"

lemma sample_helios_clock: "helios_clock sample_helios"
proof -
  have "unat ((of_nat n - g) div 12 :: u64) = (n - unat g) div 12"
    if "unat g \<le> n" "n < 2 ^ 62" for n :: nat and g :: u64
  proof -
    from that(2) have n: "unat (of_nat n :: u64) = n"
      by (simp add: unat_of_nat)
    with that(1) have "g \<le> of_nat n" by (simp add: word_le_nat_alt)
    with n show ?thesis by (simp add: unat_div unat_sub)
  qed
  then show ?thesis by (simp add: helios_clock_def sample_helios_def)
qed

section \<open>Properties\<close>

text \<open>
  While no slot timestamp overflows, the checkpoint test accepts exactly the checkpoints less
  than \<open>max_checkpoint_age\<close> seconds behind the current slot, twelve seconds to a slot, in both
  builds; a checkpoint in the future is accepted.
\<close>

theorem checkpoint_age_exact:
  assumes "slot_fits cfg (expected_current_slot H cfg now)" and "slot_fits cfg s"
  shows "is_valid_checkpoint chk H cfg now s =
    Ok (12 * (unat (expected_current_slot H cfg now) - unat s) < unat (max_checkpoint_age cfg))"
  using assms
  by (simp add: is_valid_checkpoint_def Let_def slot_timestamp_ok word_less_nat_alt
      unat_u64_saturating_sub unat_slot_start diff_mult_distrib2 mult.commute)

definition sample_config :: "nat config" where
  "sample_config = \<lparr>genesis_time = 1000, cfg_genesis_root = 0, cfg_forks = 0,
     strict_checkpoint_age = False, max_checkpoint_age = 604800\<rparr>"

theorem checkpoint_age_exact_witness:
  "is_valid_checkpoint True sample_helios sample_config (13000 * 10 ^ 9) 990 = Ok True"
  using checkpoint_age_exact [of sample_config sample_helios "13000 * 10 ^ 9" 990 True]
  by (simp add: expected_current_slot_def sample_helios_def sample_config_def slot_fits_def)

text \<open>
  When both clock readings fall in one second after genesis, the delay to the next update is
  defined in both builds and lies between 5 and 16 seconds: the rest of the running slot, which is
  1 to 12 seconds, and 4 seconds more.
\<close>

theorem next_update_delay:
  assumes "helios_clock H"
    and "unat (genesis_time cfg) \<le> now1 div 10 ^ 9" and "now1 div 10 ^ 9 < 2 ^ 60"
    and "now2 div 10 ^ 9 = now1 div 10 ^ 9"
  shows "duration_until_next_update chk H cfg now1 now2 =
    Ok (16 - int ((now1 div 10 ^ 9 - unat (genesis_time cfg)) mod 12))"
proof -
  define n where "n = now1 div 10 ^ 9"
  define g where "g = unat (genesis_time cfg)"
  define s where "s = expected_current_slot H cfg now1"
  have n: "g \<le> n" "n < 2 ^ 60" using assms by (simp_all add: n_def g_def)
  have us: "unat s = (n - g) div 12"
    using assms n by (simp add: helios_clock_def s_def expected_current_slot_def n_def g_def)
  have split: "n - g = 12 * ((n - g) div 12) + (n - g) mod 12" by simp
  have s1: "unat s + unat (1 :: u64) < 2 ^ 64" using us n by simp
  have us1: "unat (s + 1) = (n - g) div 12 + 1"
    using unat_u64_add [OF s1] us by simp
  have "(n - g) div 12 * 12 \<le> n - g" by simp
  then have fits: "slot_fits cfg (s + 1)"
    using us1 n by (simp add: slot_fits_def g_def [symmetric])
  define t where "t = (s + 1) * 12 + genesis_time cfg"
  define now where "now = (of_nat (now2 div 10 ^ 9) :: u64)"
  have now: "unat now = n"
    using n assms(4) by (simp add: now_def unat_of_nat n_def)
  have tn: "unat t = n + (12 - (n - g) mod 12)"
    using unat_slot_start [OF fits] us1 split n(1) unfolding t_def g_def by linarith
  have le: "now \<le> t" using now tn by (simp add: word_le_nat_alt)
  have ud: "unat (t - now) = 12 - (n - g) mod 12"
    using unat_u64_sub [OF le] now tn by simp
  have d4: "unat (t - now) + unat (4 :: u64) < 2 ^ 64" using ud by simp
  have ud4: "unat (t - now + 4) = 16 - (n - g) mod 12"
    using unat_u64_add [OF d4] ud by (simp add: Suc_diff_le)
  have small: "16 - (n - g) mod 12 < 2 ^ 63" by simp
  have sint: "sint (t - now + 4) = 16 - int ((n - g) mod 12)"
    using ud4 small sint_small [of "t - now + 4"] by simp
  show ?thesis
    unfolding duration_until_next_update_def Let_def s_def [symmetric] now_def [symmetric]
      n_def [symmetric] g_def [symmetric]
    by (simp only: u64_add_ok [OF s1] slot_timestamp_ok [OF fits] t_def [symmetric]
        u64_sub_ok [OF le] u64_add_ok [OF d4] rbind.simps sint)
       (simp add: chrono_max_millis_def)
qed

theorem next_update_delay_witness:
  "duration_until_next_update True sample_helios sample_config (13005 * 10 ^ 9) (13005 * 10 ^ 9 + 7) =
    Ok 11"
  using next_update_delay [of sample_helios sample_config "13005 * 10 ^ 9" "13005 * 10 ^ 9 + 7" True]
  by (simp add: sample_helios_clock sample_config_def)

end
