(* ===== verification/Racing.thy ===== *)
theory Racing
  imports External
begin

text \<open>
  The ways the service combines the answers of several RPC endpoints: a timeout around one future,
  \<open>join_all\<close>, and the loop that keeps the most advanced of the joined results, which
  \<open>Client::advance\<close> and \<open>Client::sync_to_chain\<close> share. The contract of the comparison the loop
  uses is the locale \<open>advancement\<close>.
\<close>

section \<open>Timeouts and joining\<close>

text \<open>\<open>elapsed\<close> says whether the timer fired before the future completed.\<close>

definition with_timeout :: "bool \<Rightarrow> 'e \<Rightarrow> ('e, 'a) res \<Rightarrow> ('e, 'a) res" where
  "with_timeout elapsed e r = (if elapsed then Err e else r)"

lemma with_timeout_Ok [simp]: "with_timeout t e r = Ok x \<longleftrightarrow> \<not> t \<and> r = Ok x"
  by (simp add: with_timeout_def)

text \<open>
  \<open>join_all\<close> returns all outcomes in the order of the futures; a future that panics takes the
  caller down with it.
\<close>

fun join_all :: "('e, 'a) res list \<Rightarrow> ('f, ('e + 'a) list) res" where
  "join_all [] = Ok []"
| "join_all (Ok x # rs) = rbind (join_all rs) (\<lambda>ys. Ok (Inr x # ys))"
| "join_all (Err e # rs) = rbind (join_all rs) (\<lambda>ys. Ok (Inl e # ys))"
| "join_all (Panic p # rs) = Panic p"
| "join_all (Diverge # rs) = Diverge"

lemma join_all_Ok: "join_all rs = Ok ys \<longleftrightarrow> rs = map of_sum ys"
proof (induction rs arbitrary: ys)
  case Nil
  then show ?case by auto
next
  case (Cons r rs)
  show ?case
  proof (cases ys)
    case Nil
    then show ?thesis by (cases r) (auto simp: rbind_Ok_iff)
  next
    case (Cons y ys')
    then show ?thesis by (cases r; cases y) (auto simp: rbind_Ok_iff Cons.IH)
  qed
qed

lemma join_all_map [simp]: "join_all (map of_sum ys) = Ok ys"
  by (simp add: join_all_Ok)

lemma join_all_member:
  "join_all rs = Ok ys \<Longrightarrow> Inr x \<in> set ys \<longleftrightarrow> Ok x \<in> set rs"
  by (auto simp: join_all_Ok image_iff)

section \<open>The most advanced candidate\<close>

text \<open>Rust's \<open>std::cmp::Ordering\<close>.\<close>

datatype ordering = Less | Equal | Greater

fun pick_candidate ::
  "('a \<Rightarrow> 'a \<Rightarrow> ordering) \<Rightarrow> 'a option \<Rightarrow> ('e + 'a) list \<Rightarrow> 'a option" where
  "pick_candidate cmp candidate [] = candidate"
| "pick_candidate cmp candidate (Inl e # rs) = pick_candidate cmp candidate rs"
| "pick_candidate cmp None (Inr x # rs) = pick_candidate cmp (Some x) rs"
| "pick_candidate cmp (Some c) (Inr x # rs) =
     pick_candidate cmp (if cmp x c = Greater then Some x else Some c) rs"

lemma pick_candidate_Some: "pick_candidate cmp (Some c) rs \<noteq> None"
proof (induction rs arbitrary: c)
  case (Cons r rs)
  then show ?case by (cases r) auto
qed simp

lemma pick_candidate_None_iff:
  "pick_candidate cmp None rs = None \<longleftrightarrow> (\<forall>x. Inr x \<notin> set rs)"
proof (induction rs)
  case (Cons r rs)
  then show ?case by (cases r) (auto simp: pick_candidate_Some)
qed simp

lemma pick_candidate_member:
  "pick_candidate cmp c rs = Some y \<Longrightarrow> c = Some y \<or> Inr y \<in> set rs"
  by (induction cmp c rs rule: pick_candidate.induct) (auto split: if_splits)

text \<open>\<open>first_with Q y rs\<close>: \<open>y\<close> occurs in \<open>rs\<close>, and every result before it satisfies \<open>Q\<close>.\<close>

definition first_with :: "('a \<Rightarrow> bool) \<Rightarrow> 'a \<Rightarrow> ('e + 'a) list \<Rightarrow> bool" where
  "first_with Q y rs \<longleftrightarrow>
     (\<exists>pre post. rs = pre @ Inr y # post \<and> (\<forall>x. Inr x \<in> set pre \<longrightarrow> Q x))"

lemma first_with_here: "first_with Q y (Inr y # rs)"
  unfolding first_with_def by (intro exI [of _ "[]"] exI [of _ rs]) simp

lemma first_with_Cons:
  assumes "first_with Q y rs" and "\<And>x. r = Inr x \<Longrightarrow> Q x"
  shows "first_with Q y (r # rs)"
proof -
  from assms(1) obtain pre post where "rs = pre @ Inr y # post" "\<forall>x. Inr x \<in> set pre \<longrightarrow> Q x"
    by (auto simp: first_with_def)
  with assms(2) have "r # rs = (r # pre) @ Inr y # post" "\<forall>x. Inr x \<in> set (r # pre) \<longrightarrow> Q x"
    by auto
  then show ?thesis unfolding first_with_def by blast
qed

text \<open>
  The contract of the comparison: a total preorder. Under it the loop returns a maximum, and among
  equally advanced results the first.
\<close>

locale advancement =
  fixes cmp :: "'a \<Rightarrow> 'a \<Rightarrow> ordering"
  assumes cmp_mirror: "cmp x y = Less \<longleftrightarrow> cmp y x = Greater"
    and cmp_refl: "cmp x x = Equal"
    and greater_trans: "cmp x y = Greater \<Longrightarrow> cmp y z \<noteq> Less \<Longrightarrow> cmp x z = Greater"
    and not_greater_trans: "cmp x y \<noteq> Greater \<Longrightarrow> cmp y z \<noteq> Greater \<Longrightarrow> cmp x z \<noteq> Greater"
begin

lemma pick_from_maximal:
  "pick_candidate cmp (Some c) rs = Some y \<Longrightarrow>
     cmp c y \<noteq> Greater \<and> (\<forall>x. Inr x \<in> set rs \<longrightarrow> cmp x y \<noteq> Greater)"
proof (induction rs arbitrary: c)
  case Nil
  then show ?case by (simp add: cmp_refl)
next
  case (Cons r rs)
  show ?case
  proof (cases r)
    case (Inl e)
    with Cons show ?thesis by simp
  next
    case (Inr x)
    show ?thesis
    proof (cases "cmp x c = Greater")
      case True
      with Inr Cons have "cmp x y \<noteq> Greater \<and> (\<forall>x. Inr x \<in> set rs \<longrightarrow> cmp x y \<noteq> Greater)" by simp
      moreover from True have "cmp c x \<noteq> Greater" using cmp_mirror [of c x] by auto
      ultimately show ?thesis using Inr not_greater_trans [of c x y] by auto
    next
      case False
      with Inr Cons have "cmp c y \<noteq> Greater \<and> (\<forall>x. Inr x \<in> set rs \<longrightarrow> cmp x y \<noteq> Greater)" by simp
      with False Inr show ?thesis using not_greater_trans [of x c y] by auto
    qed
  qed
qed

lemma pick_maximal:
  "pick_candidate cmp None rs = Some y \<Longrightarrow> Inr x \<in> set rs \<Longrightarrow> cmp x y \<noteq> Greater"
proof (induction rs)
  case (Cons r rs)
  then show ?case by (cases r) (auto dest: pick_from_maximal)
qed simp

text \<open>A later result replaces the candidate only when it is strictly more advanced.\<close>

lemma pick_from_first:
  "pick_candidate cmp (Some c) rs = Some y \<Longrightarrow>
     y = c \<or> cmp y c = Greater \<and> first_with (\<lambda>x. cmp y x = Greater) y rs"
proof (induction rs arbitrary: c)
  case Nil
  then show ?case by simp
next
  case (Cons r rs)
  show ?case
  proof (cases r)
    case (Inl e)
    with Cons.prems Cons.IH [of c] show ?thesis by (auto intro: first_with_Cons)
  next
    case (Inr x)
    show ?thesis
    proof (cases "cmp x c = Greater")
      case True
      with Inr Cons.prems have "pick_candidate cmp (Some x) rs = Some y" by simp
      from Cons.IH [OF this] show ?thesis
      proof (elim disjE conjE)
        assume "y = x"
        with Inr True show ?thesis by (simp add: first_with_here)
      next
        assume y: "cmp y x = Greater" "first_with (\<lambda>x. cmp y x = Greater) y rs"
        from True have "cmp x c \<noteq> Less" by simp
        with y(1) have "cmp y c = Greater" by (rule greater_trans)
        with y Inr show ?thesis by (auto intro: first_with_Cons)
      qed
    next
      case False
      with Inr Cons.prems have "pick_candidate cmp (Some c) rs = Some y" by simp
      from Cons.IH [OF this] show ?thesis
      proof (elim disjE conjE)
        assume y: "cmp y c = Greater" "first_with (\<lambda>x. cmp y x = Greater) y rs"
        from False have "cmp c x \<noteq> Less" using cmp_mirror [of c x] by auto
        with y(1) have "cmp y x = Greater" by (rule greater_trans)
        with y Inr show ?thesis by (auto intro: first_with_Cons)
      qed simp
    qed
  qed
qed

lemma pick_first:
  "pick_candidate cmp None rs = Some y \<Longrightarrow> first_with (\<lambda>x. cmp y x = Greater) y rs"
proof (induction rs)
  case (Cons r rs)
  show ?case
  proof (cases r)
    case (Inl e)
    with Cons show ?thesis by (auto intro: first_with_Cons)
  next
    case (Inr x)
    with Cons.prems have "pick_candidate cmp (Some x) rs = Some y" by simp
    from pick_from_first [OF this] Inr show ?thesis
      by (auto intro: first_with_Cons first_with_here)
  qed
qed simp

end

end
