(* ===== verification/Zk_Program.thy ===== *)
theory Zk_Program
  imports Storage_Proofs
begin

text \<open>
  The guest program \<open>program/src/main.rs\<close>. It runs inside the prover: it either commits the
  encoded \<open>ProofOutputs\<close> or panics, in which case there is no proof, so the outcome is a sum whose
  left side names the panic. The light-client library (\<open>H\<close>), the hashing and Merkle library
  (\<open>P\<close>), the CBOR decoder of the inputs and the ABI encoder of the outputs are parameters.
\<close>

section \<open>The program\<close>

datatype guest_panic =
    Inputs_undecodable
  | Update_invalid nat
  | Finality_update_invalid
  | Head_not_incremented
  | Execution_payload_missing
  | Account_proof_invalid address string
  | Slot_proof_invalid b256 string

subsection \<open>The guest's copy of the storage check\<close>

fun guest_slots_loop ::
  "crypto \<Rightarrow> contract_storage \<Rightarrow> storage_slot list \<Rightarrow> verified_storage_slot list
    \<Rightarrow> guest_panic + verified_storage_slot list" where
  "guest_slots_loop P cs [] verified = Inr verified"
| "guest_slots_loop P cs (sl # sls) verified =
     (let key = ss_key sl;
          value = ss_expected_value sl;
          key_hash = c_keccak P (be_bytes 32 key);
          key_nibbles = c_nibbles P (be_bytes 32 key_hash);
          rlp_encoded_value = c_rlp_u256 P value
      in case c_verify_proof P (acc_storage_root (cs_expected_value cs)) key_nibbles
                (Some rlp_encoded_value) (ss_mpt_proof sl) of
           Inl e \<Rightarrow> Inl (Slot_proof_invalid key e)
         | Inr _ \<Rightarrow> guest_slots_loop P cs sls
             (verified @ [\<lparr> vs_key = key, vs_value = value,
                            vs_contract_address = cs_address cs \<rparr>]))"

definition guest_verify_storage ::
  "crypto \<Rightarrow> b256 \<Rightarrow> contract_storage \<Rightarrow> guest_panic + verified_storage_slot list" where
  "guest_verify_storage P execution_state_root cs =
     (let address_hash = c_keccak P (be_bytes 20 (cs_address cs));
          address_nibbles = c_nibbles P (be_bytes 32 address_hash);
          rlp_encoded_trie_account = c_rlp_account P (cs_expected_value cs)
      in case c_verify_proof P execution_state_root address_nibbles
                (Some rlp_encoded_trie_account) (cs_mpt_proof cs) of
           Inl e \<Rightarrow> Inl (Account_proof_invalid (cs_address cs) e)
         | Inr _ \<Rightarrow> guest_slots_loop P cs (cs_storage_slots cs) [])"

subsection \<open>Sync-committee updates\<close>

text \<open>
  The loop of step 1; \<open>index\<close> is the enumeration of the updates, and a panic names the update
  counted from one.
\<close>

fun guest_apply_updates ::
  "'x helios \<Rightarrow> u64 \<Rightarrow> b256 \<Rightarrow> 'x \<Rightarrow> nat \<Rightarrow> 'x list \<Rightarrow> 'x store \<Rightarrow> guest_panic + 'x store" where
  "guest_apply_updates H expected root fks index [] store = Inr store"
| "guest_apply_updates H expected root fks index (u # us) store =
     (case h_verify_update H u expected store root fks of
        Inl _ \<Rightarrow> Inl (Update_invalid (index + 1))
      | Inr _ \<Rightarrow> guest_apply_updates H expected root fks (index + 1) us
                   (fst (h_apply_update H store u)))"

subsection \<open>The main function\<close>

definition guest_outputs ::
  "'x helios \<Rightarrow> 'x store \<Rightarrow> 'x store \<Rightarrow> exec_header \<Rightarrow> verified_storage_slot list \<Rightarrow> proof_outputs"
  where
  "guest_outputs H initial final ex verified = \<lparr>
     out_executionStateRoot = state_root ex,
     out_newHeader = h_beacon_root H (beacon (finalized_header final)),
     out_nextSyncCommitteeHash =
       (case next_sync_committee final of Some c \<Rightarrow> h_committee_root H c | None \<Rightarrow> 0),
     out_newHead = ucast (fin_slot final),
     out_prevHeader = h_beacon_root H (beacon (finalized_header initial)),
     out_prevHead = ucast (fin_slot initial),
     out_syncCommitteeHash = h_committee_root H (current_sync_committee final),
     out_startSyncCommitteeHash = h_committee_root H (current_sync_committee initial),
     out_slots = verified \<rparr>"

definition run_program ::
  "'x helios \<Rightarrow> crypto \<Rightarrow> 'x proof_inputs \<Rightarrow> guest_panic + proof_outputs" where
  "run_program H P inp =
     (let initial = (light_store inp)\<lparr>next_sync_committee := None\<rparr>;
          prev_head = fin_slot initial;
          expected = expected_slot inp;
          root = genesis_root inp;
          fks = forks inp
      in case guest_apply_updates H expected root fks 0 (sync_committee_updates inp) initial of
           Inl p \<Rightarrow> Inl p
         | Inr updated \<Rightarrow>
             (case h_verify_finality H (finality_upd inp) expected updated root fks of
                Inl _ \<Rightarrow> Inl Finality_update_invalid
              | Inr _ \<Rightarrow>
                  (let final = fst (h_apply_finality H updated (finality_upd inp))
                   in if \<not> fin_slot final > prev_head then Inl Head_not_incremented
                      else case execution (finalized_header final) of
                             None \<Rightarrow> Inl Execution_payload_missing
                           | Some ex \<Rightarrow>
                               (case guest_verify_storage P (state_root ex) (contract_storage_slots inp) of
                                  Inl p \<Rightarrow> Inl p
                                | Inr verified \<Rightarrow>
                                    Inr (guest_outputs H initial final ex verified)))))"

definition guest_main ::
  "'x helios \<Rightarrow> crypto \<Rightarrow> (bytes \<Rightarrow> 'x proof_inputs option) \<Rightarrow> (proof_outputs \<Rightarrow> bytes) \<Rightarrow> bytes
    \<Rightarrow> guest_panic + bytes" where
  "guest_main H P decode_cbor abi_encode encoded_inputs =
     (case decode_cbor encoded_inputs of
        None \<Rightarrow> Inl Inputs_undecodable
      | Some inp \<Rightarrow>
          (case run_program H P inp of
             Inl p \<Rightarrow> Inl p
           | Inr out \<Rightarrow> Inr (abi_encode out)))"

section \<open>Specification of an accepted run\<close>

text \<open>
  A chain of updates: each is valid on the store its predecessors produced. This is the abstract
  reading of the loop, without indices.
\<close>

inductive update_chain ::
  "'x helios \<Rightarrow> u64 \<Rightarrow> b256 \<Rightarrow> 'x \<Rightarrow> 'x store \<Rightarrow> 'x list \<Rightarrow> 'x store \<Rightarrow> bool"
  for H :: "'x helios" and expected :: u64 and root :: b256 and fks :: 'x where
  chain_nil: "update_chain H expected root fks s [] s"
| chain_cons:
    "h_verify_update H u expected s root fks = Inr () \<Longrightarrow>
     update_chain H expected root fks (fst (h_apply_update H s u)) us s' \<Longrightarrow>
     update_chain H expected root fks s (u # us) s'"

inductive_simps update_chain_simps [simp]:
  "update_chain H expected root fks s [] s'"
  "update_chain H expected root fks s (u # us) s'"

lemma guest_apply_updates_Inr:
  "guest_apply_updates H expected root fks i us s = Inr s' \<longleftrightarrow>
     update_chain H expected root fks s us s'"
  by (induction us arbitrary: i s) (auto split: sum.splits)

lemma guest_apply_updates_Inl:
  "guest_apply_updates H expected root fks i us s = Inl p \<longleftrightarrow>
     (\<exists>k s' e. k < length us \<and> update_chain H expected root fks s (take k us) s' \<and>
        h_verify_update H (us ! k) expected s' root fks = Inl e \<and> p = Update_invalid (i + k + 1))"
proof (induction us arbitrary: i s)
  case Nil
  then show ?case by simp
next
  case (Cons u us)
  show ?case
  proof (cases "h_verify_update H u expected s root fks")
    case (Inl e)
    have only0: "k = 0" if "update_chain H expected root fks s (take k (u # us)) s'" for k s'
      using that Inl by (cases k) auto
    show ?thesis
      using Inl only0 by (auto intro!: exI [where x = 0])
  next
    case (Inr x)
    let ?s1 = "fst (h_apply_update H s u)"
    have "(\<exists>k s' e. k < length (u # us) \<and> update_chain H expected root fks s (take k (u # us)) s' \<and>
        h_verify_update H ((u # us) ! k) expected s' root fks = Inl e \<and> p = Update_invalid (i + k + 1))
      \<longleftrightarrow> (\<exists>k s' e. k < length us \<and> update_chain H expected root fks ?s1 (take k us) s' \<and>
        h_verify_update H (us ! k) expected s' root fks = Inl e \<and> p = Update_invalid (i + 1 + k + 1))"
      (is "?L \<longleftrightarrow> ?R")
    proof
      assume ?L
      then obtain k s' e where k: "k < length (u # us)"
          "update_chain H expected root fks s (take k (u # us)) s'"
          "h_verify_update H ((u # us) ! k) expected s' root fks = Inl e"
          "p = Update_invalid (i + k + 1)" by blast
      with Inr obtain j where "k = Suc j" by (cases k) auto
      with k show ?R by auto
    next
      assume ?R
      then obtain k s' e where "k < length us" "update_chain H expected root fks ?s1 (take k us) s'"
          "h_verify_update H (us ! k) expected s' root fks = Inl e" "p = Update_invalid (i + 1 + k + 1)"
        by blast
      with Inr show ?L by (intro exI [where x = "Suc k"]) auto
    qed
    with Inr Cons.IH [of "i + 1" ?s1] show ?thesis by simp
  qed
qed

subsection \<open>The two copies of the storage check\<close>

fun guest_panic_of :: "storage_error \<Rightarrow> guest_panic" where
  "guest_panic_of (Account_unverified a e) = Account_proof_invalid a e"
| "guest_panic_of (Slot_unverified k e) = Slot_proof_invalid k e"
| "guest_panic_of Proof_length_mismatch = Inputs_undecodable"

lemma guest_slots_loop_agrees:
  "of_sum (guest_slots_loop P cs sls acc) = rmap_err guest_panic_of (verify_slots_loop P cs sls acc)"
  by (induction sls arbitrary: acc)
     (auto simp: verify_slots_loop_step slot_check_def verified_of_def Let_def split: sum.splits)

lemma guest_verify_storage_agrees:
  "of_sum (guest_verify_storage P root cs) =
     rmap_err guest_panic_of (verify_storage_slot_proofs P root cs)"
  by (auto simp: guest_verify_storage_def verify_storage_slot_proofs_def Let_def
      guest_slots_loop_agrees split: sum.splits)

lemma guest_verify_storage_Inr:
  "guest_verify_storage P root cs = Inr vs \<longleftrightarrow> verify_storage_slot_proofs P root cs = Ok vs"
  using guest_verify_storage_agrees [of P root cs]
  by (metis of_sum_Ok_iff rmap_err_Ok_iff)

lemma guest_verify_storage_Inl:
  "guest_verify_storage P root cs = Inl p \<Longrightarrow>
     \<not> (account_proved P root cs \<and> list_all (slot_proved P cs) (cs_storage_slots cs))"
  by (metis guest_verify_storage_Inr Inl_Inr_False verify_storage_Ok_iff)

subsection \<open>Acceptance\<close>

definition guest_accepts ::
  "'x helios \<Rightarrow> crypto \<Rightarrow> 'x proof_inputs \<Rightarrow> 'x store \<Rightarrow> 'x store \<Rightarrow> exec_header \<Rightarrow> bool" where
  "guest_accepts H P inp updated final ex \<longleftrightarrow>
     update_chain H (expected_slot inp) (genesis_root inp) (forks inp)
       ((light_store inp)\<lparr>next_sync_committee := None\<rparr>) (sync_committee_updates inp) updated \<and>
     h_verify_finality H (finality_upd inp) (expected_slot inp) updated (genesis_root inp) (forks inp)
       = Inr () \<and>
     final = fst (h_apply_finality H updated (finality_upd inp)) \<and>
     fin_slot (light_store inp) < fin_slot final \<and>
     execution (finalized_header final) = Some ex \<and>
     account_proved P (state_root ex) (contract_storage_slots inp) \<and>
     list_all (slot_proved P (contract_storage_slots inp))
       (cs_storage_slots (contract_storage_slots inp))"

lemma run_program_accepts:
  "run_program H P inp = Inr out \<longleftrightarrow>
     (\<exists>updated final ex. guest_accepts H P inp updated final ex \<and>
        out = guest_outputs H (light_store inp) final ex
          (map (verified_of (contract_storage_slots inp))
             (cs_storage_slots (contract_storage_slots inp))))"
proof -
  have outs: "guest_outputs H (s\<lparr>next_sync_committee := None\<rparr>) final ex vs
      = guest_outputs H s final ex vs" for s final ex vs
    by (simp add: guest_outputs_def)
  let ?chain = "update_chain H (expected_slot inp) (genesis_root inp) (forks inp)
      ((light_store inp)\<lparr>next_sync_committee := None\<rparr>) (sync_committee_updates inp)"
  have chain: "guest_apply_updates H (expected_slot inp) (genesis_root inp) (forks inp) 0
      (sync_committee_updates inp) ((light_store inp)\<lparr>next_sync_committee := None\<rparr>) = Inr u
      \<longleftrightarrow> ?chain u" for u
    by (rule guest_apply_updates_Inr)
  show ?thesis
  proof (cases "guest_apply_updates H (expected_slot inp) (genesis_root inp) (forks inp) 0
      (sync_committee_updates inp) ((light_store inp)\<lparr>next_sync_committee := None\<rparr>)")
    case (Inl p)
    with chain have "\<not> ?chain u" for u by (metis Inl_Inr_False)
    with Inl show ?thesis by (simp add: run_program_def guest_accepts_def Let_def)
  next
    case (Inr updated)
    with chain have only: "?chain u \<longleftrightarrow> u = updated" for u by (metis Inr_inject)
    show ?thesis
      by (simp add: run_program_def guest_accepts_def Let_def Inr only outs
          split: sum.split option.split)
         (auto simp: guest_verify_storage_Inr verify_storage_Ok_iff dest: guest_verify_storage_Inl)
  qed
qed

section \<open>Properties\<close>

lemma unat_ucast_u64_u256: "unat (ucast (a :: u64) :: u256) = unat a"
proof -
  have "unat a < 2 ^ 64" using unsigned_less [of a] by simp
  then have "unat a < 2 ^ 256" by simp
  then show ?thesis by (simp add: unsigned_ucast_eq take_bit_nat_eq_self_iff)
qed

lemma ucast_u64_u256_less: "(ucast a :: u256) < ucast b \<longleftrightarrow> (a :: u64) < b"
  by (simp add: word_less_nat_alt unat_ucast_u64_u256)

lemma program_head_advances:
  "run_program H P inp = Inr out \<Longrightarrow> out_prevHead out < out_newHead out"
  by (auto simp: run_program_accepts guest_accepts_def guest_outputs_def ucast_u64_u256_less)

text \<open>
  C1: the guest commits outputs exactly when the sync-committee updates form a chain of valid
  updates from the input store (its next committee dropped), the finality update is valid on the
  store they produce, the finalized head advances, the new header has an execution payload and the
  account and every slot are proved under its state root; the outputs are then the ones the
  contract expects.
\<close>

theorem guest_refines_acceptance:
  "run_program H P inp = Inr out \<longleftrightarrow>
     (\<exists>updated final ex. guest_accepts H P inp updated final ex \<and>
        out = guest_outputs H (light_store inp) final ex
          (map (verified_of (contract_storage_slots inp))
             (cs_storage_slots (contract_storage_slots inp))))"
  by (rule run_program_accepts)

text \<open>
  C9: committed outputs always report a head strictly above the previous one, and the previous
  head, the previous header and the starting sync committee are those of the input store.
\<close>

theorem guest_head_advances:
  assumes "run_program H P inp = Inr out"
  shows "out_prevHead out < out_newHead out \<and>
    out_prevHead out = ucast (fin_slot (light_store inp)) \<and>
    out_prevHeader out = h_beacon_root H (beacon (finalized_header (light_store inp))) \<and>
    out_startSyncCommitteeHash out = h_committee_root H (current_sync_committee (light_store inp))"
  using assms
  by (auto simp: run_program_accepts guest_accepts_def guest_outputs_def ucast_u64_u256_less)

definition sample_inputs :: "nat proof_inputs" where
  "sample_inputs = \<lparr> sync_committee_updates = [40, 70], finality_upd = sample_finality 96,
     expected_slot = 100, light_store = sample_store 32, genesis_root = 0, forks = 0,
     contract_storage_slots = \<lparr> cs_address = 3, cs_expected_value =
         \<lparr>acc_nonce = 1, acc_balance = 2, acc_storage_root = 3, acc_code_hash = 4\<rparr>,
       cs_mpt_proof = [[1]],
       cs_storage_slots = [\<lparr>ss_key = 10, ss_expected_value = 20, ss_mpt_proof = [[1]]\<rparr>] \<rparr> \<rparr>"

lemma sample_run:
  "run_program sample_helios sample_crypto sample_inputs =
     Inr \<lparr> out_executionStateRoot = 96, out_newHeader = 96, out_nextSyncCommitteeHash = 70,
       out_newHead = 96, out_prevHeader = 32, out_prevHead = 32, out_syncCommitteeHash = 1,
       out_startSyncCommitteeHash = 1,
       out_slots = [\<lparr>vs_key = 10, vs_value = 20, vs_contract_address = 3\<rparr>] \<rparr>"
  by (simp add: run_program_def sample_inputs_def sample_simps guest_verify_storage_def
      guest_outputs_def Let_def)

theorem guest_head_advances_witness:
  "\<exists>out. run_program sample_helios sample_crypto sample_inputs = Inr out \<and>
     out_prevHead out < out_newHead out"
  using guest_head_advances [OF sample_run] sample_run by blast

text \<open>
  The next sync committee of the input store, which the prover chooses freely, never influences
  the outcome: only a valid update can put one into the outputs.
\<close>

theorem guest_ignores_next_committee:
  "run_program H P (inp\<lparr>light_store := (light_store inp)\<lparr>next_sync_committee := c\<rparr>\<rparr>)
     = run_program H P inp"
  by (simp add: run_program_def Let_def cong: sum.case_cong option.case_cong if_cong)

text \<open>
  C39: the guest's storage check and the service's copy of it are the same function: one panics
  where the other returns the corresponding error, and they return the same verified slots.
\<close>

theorem guest_storage_check_equivalent:
  "guest_verify_storage P root cs =
     (case verify_storage_slot_proofs P root cs of
        Ok vs \<Rightarrow> Inr vs
      | Err e \<Rightarrow> Inl (guest_panic_of e)
      | _ \<Rightarrow> Inl Inputs_undecodable)"
  using guest_verify_storage_agrees [of P root cs]
  by (cases "guest_verify_storage P root cs"; cases "verify_storage_slot_proofs P root cs") auto

text \<open>
  The guest rejects the update list at its first invalid update: the panic names it, counted
  from one, every earlier update was valid and applied, and no later one is looked at.
\<close>

theorem guest_first_invalid_update:
  "guest_apply_updates H expected root fks 0 us s = Inl p \<longleftrightarrow>
     (\<exists>k s' e. k < length us \<and> update_chain H expected root fks s (take k us) s' \<and>
        h_verify_update H (us ! k) expected s' root fks = Inl e \<and> p = Update_invalid (k + 1))"
  by (simp add: guest_apply_updates_Inl)

text \<open>
  Bytes leave the guest only as the encoding of accepted outputs: inputs that do not decode, and
  inputs the program rejects, commit nothing.
\<close>

theorem guest_commits_only_accepted:
  "guest_main H P decode_cbor abi_encode input = Inr output \<longleftrightarrow>
     (\<exists>inp out. decode_cbor input = Some inp \<and> run_program H P inp = Inr out \<and>
        output = abi_encode out)"
  by (auto simp: guest_main_def split: option.splits sum.splits)

end
