(* ===== verification/Consensus_Client.thy ===== *)
theory Consensus_Client
  imports Chain_Clock Racing Rust_Strings Zk_Program
begin

text \<open>
  The light client \<open>Client\<close> of \<open>zk-api/src/consensus_client/mod.rs\<close>: bootstrapping on a checkpoint,
  following the chain through several consensus RPC endpoints at once, and the inputs of a proof.

  A client operation is a call over the client (\<open>act\<close>). What the endpoints answer during one
  operation is the parameter \<open>net\<close>, indexed by the endpoint's position; an answer record also
  holds whether that future's timer fired first and the clock readings the future makes, in their
  order. The readings made while logging are separate arguments. \<open>sel\<close> is \<open>select_ok\<close>.
\<close>

section \<open>Types\<close>

record 'x rpc =
  rpc_get_bootstrap :: "b256 \<Rightarrow> string + 'x bootstrap_data"
  rpc_get_updates :: "u64 \<Rightarrow> u8 \<Rightarrow> string + 'x list"
  rpc_get_finality_update :: "string + 'x finality_update"
  rpc_get_block :: "u64 \<Rightarrow> string + 'x"
  rpc_elapsed :: bool
  rpc_clock :: "nat \<Rightarrow> system_time"

type_synonym 'x net = "nat \<Rightarrow> 'x rpc"

record 'x client =
  cl_config :: "'x config"
  cl_store :: "'x store"
  cl_rpcs :: "string list"
  cl_last_checkpoint :: "b256 option"

record 'x base_config =
  bc_genesis_time :: u64
  bc_genesis_root :: b256
  bc_forks :: 'x

datatype client_error =
    Env_missing string
  | Chain_id_invalid
  | Chain_unknown
  | Rpc_failed string
  | Verification_failed string
  | Checkpoint_too_old
  | Rpc_timed_out
  | Rpc_wrapped client_error
  | All_rpcs_failed
  | No_block u64
  | Head_did_not_advance u64 u64
  | No_execution_payload

record 'x sync_trace =
  tr_updates :: "'x list"
  tr_finality :: "'x finality_update"
  tr_final_store :: "'x store"
  tr_last_checkpoint :: "b256 option"
  tr_expected_slot :: u64

record 'x consensus_proof_inputs =
  cpi_initial_store :: "'x store"
  cpi_expected_slot :: u64
  cpi_genesis_root :: b256
  cpi_forks :: 'x
  cpi_updates :: "'x list"
  cpi_finality :: "'x finality_update"
  cpi_execution_block :: u64
  cpi_config :: "'x config"

definition endpoints :: "'x net \<Rightarrow> 'x client \<Rightarrow> 'x rpc list" where
  "endpoints net cl = map net [0..<length (cl_rpcs cl)]"

section \<open>Construction\<close>

definition client_new :: "'x helios \<Rightarrow> 'x config \<Rightarrow> string list \<Rightarrow> (client_error, 'x client) res" where
  "client_new H cfg paths =
     rbind (assert_that (paths \<noteq> [])) (\<lambda>_.
       Ok (\<lparr>cl_config = cfg, cl_store = h_default_store H, cl_rpcs = paths,
           cl_last_checkpoint = None\<rparr>))"

text \<open>\<open>env\<close> is the environment, \<open>networks\<close> the library's table of known chains.\<close>

definition config_from_base :: "'x base_config \<Rightarrow> 'x config" where
  "config_from_base base = \<lparr>genesis_time = bc_genesis_time base,
     cfg_genesis_root = bc_genesis_root base, cfg_forks = bc_forks base,
     strict_checkpoint_age = False, max_checkpoint_age = 604800\<rparr>"

definition client_from_env ::
  "'x helios \<Rightarrow> (string \<Rightarrow> string option) \<Rightarrow> (u64 \<Rightarrow> 'x base_config option)
    \<Rightarrow> (client_error, 'x client) res" where
  "client_from_env H env networks =
     (case env ''SOURCE_CHAIN_ID'' of
        None \<Rightarrow> Err (Env_missing ''SOURCE_CHAIN_ID'')
      | Some chain_id \<Rightarrow>
          (case parse_u64 chain_id of
             None \<Rightarrow> Err Chain_id_invalid
           | Some n \<Rightarrow>
               (case networks n of
                  None \<Rightarrow> Err Chain_unknown
                | Some base \<Rightarrow>
                    (case env ''CONSENSUS_RPCS_LIST'' of
                       None \<Rightarrow> Panic Unwrap_failed
                     | Some paths_str \<Rightarrow>
                         client_new H (config_from_base base) (comma_list paths_str)))))"

section \<open>Comparing stores\<close>

definition cmp_u64 :: "u64 \<Rightarrow> u64 \<Rightarrow> ordering" where
  "cmp_u64 a b = (if a < b then Less else if a = b then Equal else Greater)"

definition compare_store_advancement :: "'x store \<Rightarrow> 'x store \<Rightarrow> ordering" where
  "compare_store_advancement a b =
     (case cmp_u64 (fin_slot a) (fin_slot b) of
        Less \<Rightarrow> Less
      | Greater \<Rightarrow> Greater
      | Equal \<Rightarrow>
          (case (next_sync_committee a \<noteq> None, next_sync_committee b \<noteq> None) of
             (True, False) \<Rightarrow> Greater
           | (False, True) \<Rightarrow> Less
           | _ \<Rightarrow> Equal))"

lemma cmp_u64_iff [simp]:
  "cmp_u64 a b = Less \<longleftrightarrow> a < b" "cmp_u64 a b = Greater \<longleftrightarrow> b < a" "cmp_u64 a b = Equal \<longleftrightarrow> a = b"
  by (auto simp: cmp_u64_def)

lemma compare_store_Greater:
  "compare_store_advancement a b = Greater \<longleftrightarrow>
     fin_slot b < fin_slot a \<or>
     (fin_slot a = fin_slot b \<and> next_sync_committee a \<noteq> None \<and> next_sync_committee b = None)"
  by (auto simp: compare_store_advancement_def cmp_u64_def split: bool.splits)

lemma compare_store_Less:
  "compare_store_advancement a b = Less \<longleftrightarrow> compare_store_advancement b a = Greater"
  by (auto simp: compare_store_advancement_def cmp_u64_def split: bool.splits)

lemma compare_store_refl: "compare_store_advancement a a = Equal"
  by (auto simp: compare_store_advancement_def cmp_u64_def split: bool.splits)

lemma compare_store_trans:
  "compare_store_advancement x y = Greater \<Longrightarrow> compare_store_advancement y z \<noteq> Less
    \<Longrightarrow> compare_store_advancement x z = Greater"
  unfolding compare_store_Less unfolding compare_store_Greater by auto

lemma compare_store_not_trans:
  "compare_store_advancement x y \<noteq> Greater \<Longrightarrow> compare_store_advancement y z \<noteq> Greater
    \<Longrightarrow> compare_store_advancement x z \<noteq> Greater"
  unfolding compare_store_Greater by auto

text \<open>
  The comparison meets the contract of the selection loop, for stores and for the two kinds of
  candidates that carry one.
\<close>

interpretation store_order: advancement compare_store_advancement
  by unfold_locales
     (blast intro: compare_store_Less compare_store_refl compare_store_trans
        dest: compare_store_not_trans iffD1 [OF compare_store_Less] iffD2 [OF compare_store_Less])+

interpretation trace_order: advancement
  "\<lambda>a b. compare_store_advancement (tr_final_store a) (tr_final_store b)"
  by unfold_locales (auto simp: store_order.cmp_refl intro: store_order.greater_trans
    dest: store_order.not_greater_trans iffD1 [OF compare_store_Less] iffD2 [OF compare_store_Less])

interpretation advance_order: advancement
  "\<lambda>a b. compare_store_advancement (fst a) (fst b)"
  by unfold_locales (auto simp: store_order.cmp_refl intro: store_order.greater_trans
    dest: store_order.not_greater_trans iffD1 [OF compare_store_Less] iffD2 [OF compare_store_Less])

section \<open>Helpers that keep the checkpoint\<close>

definition client_apply_update ::
  "'x helios \<Rightarrow> b256 option \<Rightarrow> 'x store \<Rightarrow> 'x \<Rightarrow> b256 option \<times> 'x store" where
  "client_apply_update H checkpoint store u =
     (let (store', new_checkpoint) = h_apply_update H store u
      in (if new_checkpoint \<noteq> None then new_checkpoint else checkpoint, store'))"

definition client_apply_finality ::
  "'x helios \<Rightarrow> b256 option \<Rightarrow> 'x store \<Rightarrow> 'x finality_update \<Rightarrow> b256 option \<times> 'x store" where
  "client_apply_finality H checkpoint store f =
     (let (store', new_checkpoint) = h_apply_finality H store f
      in (if new_checkpoint \<noteq> None then new_checkpoint else checkpoint, store'))"

text \<open>
  \<open>apply_store_update\<close> sets the store and the checkpoint, then logs a changed finalized and
  optimistic slot with their age, which is where it can panic.
\<close>

definition log_update ::
  "bool \<Rightarrow> 'x config \<Rightarrow> system_time \<Rightarrow> u64 \<Rightarrow> (client_error, unit) res" where
  "log_update chk cfg now s = rbind (age chk cfg now s) (\<lambda>_. Ok ())"

definition apply_store_update ::
  "bool \<Rightarrow> system_time \<times> system_time \<Rightarrow> 'x store \<Rightarrow> b256 option
    \<Rightarrow> ('x client, client_error, unit) act" where
  "apply_store_update chk nows new_store new_checkpoint = (\<lambda>cl.
     (let prev = cl_store cl;
          cl' = cl\<lparr>cl_store := new_store,
                   cl_last_checkpoint :=
                     (if new_checkpoint \<noteq> None then new_checkpoint else cl_last_checkpoint cl)\<rparr>
      in (rbind (if fin_slot new_store \<noteq> fin_slot prev
                 then log_update chk (cl_config cl) (fst nows) (fin_slot new_store) else Ok ()) (\<lambda>_.
          if slot (beacon (optimistic_header new_store)) \<noteq> slot (beacon (optimistic_header prev))
          then log_update chk (cl_config cl) (snd nows) (slot (beacon (optimistic_header new_store)))
          else Ok ()),
          cl')))"

section \<open>Fetching updates in batches\<close>

lemma unat_batch:
  "(next_p :: u64) < expected \<Longrightarrow>
     unat (min (expected - next_p) 128) = min (unat expected - unat next_p) 128"
  using unat_u64_sub [OF less_imp_le] by (auto simp: min_def word_le_nat_alt)

lemma unat_next_batch:
  "(next_p :: u64) < expected \<Longrightarrow>
     unat (next_p + min (expected - next_p) 128) = unat next_p + min (unat expected - unat next_p) 128"
  using unsigned_less [of expected, where ?'a = nat]
  by (subst unat_u64_add) (auto simp: unat_batch word_less_nat_alt)

text \<open>
  The loop of \<open>get_updates_single_rpc\<close>. Inside it \<open>next < expected\<close>, so neither the subtraction
  nor the advance by \<open>batch\<close>, which stays below \<open>expected\<close>, can overflow.
\<close>

function fetch_batches ::
  "'x rpc \<Rightarrow> u64 \<Rightarrow> u64 \<Rightarrow> 'x list \<Rightarrow> (client_error, u64 \<times> 'x list) res" where
  "fetch_batches rpc expected next_p updates =
     (if next_p < expected then
        let batch = min (expected - next_p) 128 in
        if 255 < unat batch then Panic Unwrap_failed
        else case rpc_get_updates rpc next_p (ucast batch) of
               Inl e \<Rightarrow> Err (Rpc_failed e)
             | Inr us \<Rightarrow> fetch_batches rpc expected (next_p + batch) (updates @ us)
      else Ok (next_p, updates))"
  by pat_completeness auto

termination
  by (relation "measure (\<lambda>(rpc, expected, next_p, updates). unat expected - unat next_p)")
     (auto simp: unat_next_batch word_less_nat_alt)

declare fetch_batches.simps [simp del]

definition get_updates_single_rpc ::
  "bool \<Rightarrow> 'x helios \<Rightarrow> u64 \<Rightarrow> u64 \<Rightarrow> 'x rpc \<Rightarrow> (client_error, 'x list) res" where
  "get_updates_single_rpc chk H expected_current current_finalized rpc =
     (let expected_period = h_calc_sync_period H expected_current;
          fetch_period = h_calc_sync_period H current_finalized
      in rbind (u64_sub chk expected_period fetch_period) (\<lambda>gap.
         rbind (if 128 \<le> gap then fetch_batches rpc expected_period fetch_period []
                else Ok (fetch_period, [])) (\<lambda>(next_p, updates).
         case rpc_get_updates rpc next_p 128 of
           Inl e \<Rightarrow> Err (Rpc_failed e)
         | Inr us \<Rightarrow> Ok (updates @ us))))"

section \<open>One endpoint\<close>

definition verify_res :: "string + unit \<Rightarrow> (client_error, unit) res" where
  "verify_res v = rmap_err Verification_failed (of_sum v)"

definition rpc_res :: "string + 'a \<Rightarrow> (client_error, 'a) res" where
  "rpc_res v = rmap_err Rpc_failed (of_sum v)"

text \<open>The loop over the fetched updates; the clock is read again for each of them.\<close>

fun sync_updates_loop ::
  "'x helios \<Rightarrow> 'x config \<Rightarrow> 'x rpc \<Rightarrow> nat \<Rightarrow> 'x list \<Rightarrow> b256 option \<Rightarrow> 'x store
    \<Rightarrow> (client_error, b256 option \<times> 'x store) res" where
  "sync_updates_loop H cfg rpc i [] checkpoint store = Ok (checkpoint, store)"
| "sync_updates_loop H cfg rpc i (u # us) checkpoint store =
     rbind (verify_res (h_verify_update H u (expected_current_slot H cfg (rpc_clock rpc i)) store
              (cfg_genesis_root cfg) (cfg_forks cfg))) (\<lambda>_.
     case client_apply_update H checkpoint store u of
       (checkpoint', store') \<Rightarrow> sync_updates_loop H cfg rpc (i + 1) us checkpoint' store')"

definition sync_to_chain_single_rpc ::
  "bool \<Rightarrow> 'x helios \<Rightarrow> 'x store \<Rightarrow> 'x config \<Rightarrow> 'x rpc \<Rightarrow> (client_error, 'x sync_trace) res" where
  "sync_to_chain_single_rpc chk H store cfg rpc =
     (let expected = expected_current_slot H cfg (rpc_clock rpc 0)
      in rbind (get_updates_single_rpc chk H expected (fin_slot store) rpc) (\<lambda>updates.
         rbind (sync_updates_loop H cfg rpc 1 updates None store) (\<lambda>(checkpoint, updated).
         rbind (rpc_res (rpc_get_finality_update rpc)) (\<lambda>finality_update.
         rbind (verify_res (h_verify_finality H finality_update
                  (expected_current_slot H cfg (rpc_clock rpc (length updates + 1))) updated
                  (cfg_genesis_root cfg) (cfg_forks cfg))) (\<lambda>_.
         case client_apply_finality H checkpoint updated finality_update of
           (checkpoint', final) \<Rightarrow>
             Ok \<lparr>tr_updates = updates, tr_finality = finality_update, tr_final_store = final,
                 tr_last_checkpoint = checkpoint', tr_expected_slot = expected\<rparr>)))))"

text \<open>The second half of \<open>advance_single_rpc\<close>: the next sync committee, when it is missing.\<close>

definition advance_next_committee ::
  "'x helios \<Rightarrow> 'x config \<Rightarrow> 'x rpc \<Rightarrow> b256 option \<Rightarrow> 'x store
    \<Rightarrow> (client_error, 'x store \<times> b256 option) res" where
  "advance_next_committee H cfg rpc checkpoint store =
     (if next_sync_committee store = None then
        let current_period = h_calc_sync_period H (fin_slot store)
        in rbind (rpc_res (rpc_get_updates rpc current_period 1)) (\<lambda>updates.
           case updates of
             [u] \<Rightarrow>
               (case h_verify_update H u (expected_current_slot H cfg (rpc_clock rpc 1)) store
                       (cfg_genesis_root cfg) (cfg_forks cfg) of
                  Inl _ \<Rightarrow> Ok (store, checkpoint)
                | Inr _ \<Rightarrow>
                    (case client_apply_update H checkpoint store u of
                       (checkpoint', store') \<Rightarrow> Ok (store', checkpoint')))
           | _ \<Rightarrow> Ok (store, checkpoint))
      else Ok (store, checkpoint))"

definition advance_single_rpc ::
  "'x helios \<Rightarrow> 'x store \<Rightarrow> 'x config \<Rightarrow> 'x rpc \<Rightarrow> (client_error, 'x store \<times> b256 option) res" where
  "advance_single_rpc H store cfg rpc =
     rbind (rpc_res (rpc_get_finality_update rpc)) (\<lambda>finality_update.
     rbind (verify_res (h_verify_finality H finality_update
              (expected_current_slot H cfg (rpc_clock rpc 0)) store
              (cfg_genesis_root cfg) (cfg_forks cfg))) (\<lambda>_.
     case client_apply_finality H None store finality_update of
       (checkpoint, store1) \<Rightarrow> advance_next_committee H cfg rpc checkpoint store1))"

definition bootstrap_single_rpc ::
  "bool \<Rightarrow> 'x helios \<Rightarrow> 'x store \<Rightarrow> 'x config \<Rightarrow> b256 \<Rightarrow> 'x rpc \<Rightarrow> (client_error, 'x store) res" where
  "bootstrap_single_rpc chk H store cfg checkpoint rpc =
     rbind (rpc_res (rpc_get_bootstrap rpc checkpoint)) (\<lambda>bootstrap.
     rbind (is_valid_checkpoint chk H cfg (rpc_clock rpc 0) (slot (beacon (boot_header bootstrap))))
       (\<lambda>is_valid.
     if \<not> is_valid \<and> strict_checkpoint_age cfg then Err Checkpoint_too_old
     else rbind (verify_res (h_verify_bootstrap H bootstrap checkpoint (cfg_forks cfg))) (\<lambda>_.
       Ok (h_apply_bootstrap H store bootstrap))))"

section \<open>All endpoints\<close>

text \<open>Each endpoint runs on its own copy of the store, under a timeout, its error wrapped.\<close>

definition all_rpcs ::
  "'x net \<Rightarrow> 'x client \<Rightarrow> ('x rpc \<Rightarrow> (client_error, 'a) res) \<Rightarrow> (client_error, 'a) res list" where
  "all_rpcs net cl single =
     map (\<lambda>rpc. with_timeout (rpc_elapsed rpc) Rpc_timed_out (rmap_err Rpc_wrapped (single rpc)))
       (endpoints net cl)"

definition client_bootstrap ::
  "bool \<Rightarrow> 'x helios \<Rightarrow> ((client_error, 'x store) res list \<Rightarrow> (client_error, 'x store) res) \<Rightarrow> 'x net
    \<Rightarrow> b256 \<Rightarrow> ('x client, client_error, unit) act" where
  "client_bootstrap chk H sel net checkpoint = (\<lambda>cl.
     (case sel (all_rpcs net cl (bootstrap_single_rpc chk H (cl_store cl) (cl_config cl) checkpoint)) of
        Ok store \<Rightarrow> (Ok (), cl\<lparr>cl_store := store, cl_last_checkpoint := Some checkpoint\<rparr>)
      | Err e \<Rightarrow> (Err e, cl)
      | Panic p \<Rightarrow> (Panic p, cl)
      | Diverge \<Rightarrow> (Diverge, cl)))"

definition sync_to_chain ::
  "bool \<Rightarrow> 'x helios \<Rightarrow> 'x net \<Rightarrow> system_time \<times> system_time
    \<Rightarrow> ('x client, client_error, 'x sync_trace) act" where
  "sync_to_chain chk H net nows = (\<lambda>cl.
     abind (alift (join_all (all_rpcs net cl
                    (sync_to_chain_single_rpc chk H (cl_store cl) (cl_config cl))))) (\<lambda>results.
     case pick_candidate
            (\<lambda>a b. compare_store_advancement (tr_final_store a) (tr_final_store b)) None results of
       Some trace \<Rightarrow>
         abind (apply_store_update chk nows (tr_final_store trace) (tr_last_checkpoint trace))
           (\<lambda>_. aret trace)
     | None \<Rightarrow> afail All_rpcs_failed) cl)"

definition client_advance ::
  "'x helios \<Rightarrow> bool \<Rightarrow> 'x net \<Rightarrow> system_time \<times> system_time \<Rightarrow> ('x client, client_error, unit) act" where
  "client_advance H chk net nows = (\<lambda>cl.
     abind (alift (join_all (all_rpcs net cl
                    (advance_single_rpc H (cl_store cl) (cl_config cl))))) (\<lambda>results.
     case pick_candidate (\<lambda>a b. compare_store_advancement (fst a) (fst b)) None results of
       Some (store, last_checkpoint) \<Rightarrow> apply_store_update chk nows store last_checkpoint
     | None \<Rightarrow> afail All_rpcs_failed) cl)"

definition client_sync ::
  "bool \<Rightarrow> 'x helios \<Rightarrow> ((client_error, 'x store) res list \<Rightarrow> (client_error, 'x store) res)
    \<Rightarrow> 'x net \<Rightarrow> 'x net \<Rightarrow> system_time \<times> system_time \<Rightarrow> b256 \<Rightarrow> ('x client, client_error, unit) act" where
  "client_sync chk H sel net_b net_s nows checkpoint = (\<lambda>cl.
     abind (client_bootstrap chk H sel net_b checkpoint) (\<lambda>_.
     abind (sync_to_chain chk H net_s nows) (\<lambda>_. aret ()))
     (cl\<lparr>cl_store := h_default_store H, cl_last_checkpoint := None\<rparr>))"

text \<open>
  A block comes from the first endpoint, or else from the first of the others that answers; those
  run together, each under its timeout.
\<close>

definition get_block :: "'x net \<Rightarrow> 'x client \<Rightarrow> u64 \<Rightarrow> (client_error, 'x) res" where
  "get_block net cl s =
     (case endpoints net cl of
        [] \<Rightarrow> Panic Unwrap_failed
      | primary # backups \<Rightarrow>
          (case rpc_get_block primary s of
             Inr block \<Rightarrow> Ok block
           | Inl _ \<Rightarrow>
               (case concat (map (\<lambda>rpc. case with_timeout (rpc_elapsed rpc) Rpc_timed_out
                                           (rpc_res (rpc_get_block rpc s)) of
                                          Ok block \<Rightarrow> [block] | _ \<Rightarrow> []) backups) of
                  block # _ \<Rightarrow> Ok block
                | [] \<Rightarrow> Err (No_block s))))"

section \<open>The inputs of a proof\<close>

definition consensus_get_proof_inputs ::
  "bool \<Rightarrow> 'x helios \<Rightarrow> ((client_error, 'x store) res list \<Rightarrow> (client_error, 'x store) res)
    \<Rightarrow> (string \<Rightarrow> string option) \<Rightarrow> (u64 \<Rightarrow> 'x base_config option) \<Rightarrow> 'x net \<Rightarrow> 'x net
    \<Rightarrow> system_time \<times> system_time \<Rightarrow> b256 \<Rightarrow> (client_error, 'x consensus_proof_inputs) res" where
  "consensus_get_proof_inputs chk H sel env networks net_b net_s nows from_header =
     rbind (client_from_env H env networks) (\<lambda>client.
     case client_bootstrap chk H sel net_b from_header client of
       (booted, client1) \<Rightarrow>
     rbind booted (\<lambda>_.
     let initial_store = cl_store client1 in
     case sync_to_chain chk H net_s nows client1 of
       (synced, client2) \<Rightarrow>
     rbind synced (\<lambda>trace.
     let initial_slot = fin_slot initial_store;
         new_slot = fin_slot (cl_store client2)
     in rbind (ensure (\<not> new_slot \<le> initial_slot) (Head_did_not_advance initial_slot new_slot)) (\<lambda>_.
        case execution (finalized_header (cl_store client2)) of
          None \<Rightarrow> Err No_execution_payload
        | Some ex \<Rightarrow>
            Ok \<lparr>cpi_initial_store = initial_store,
                cpi_expected_slot = tr_expected_slot trace,
                cpi_genesis_root = cfg_genesis_root (cl_config client2),
                cpi_forks = cfg_forks (cl_config client2),
                cpi_updates = tr_updates trace,
                cpi_finality = tr_finality trace,
                cpi_execution_block = block_number ex,
                cpi_config = cl_config client2\<rparr>))))"

end
