(* ===== verification/Client_Facts.thy ===== *)
theory Client_Facts
  imports Consensus_Client
begin

text \<open>
  What the light client guarantees: the update requests it makes, what one endpoint's successful
  run has verified, how the results of several endpoints are combined, and when the client changes.
\<close>

section \<open>The requests for updates\<close>

text \<open>
  The specification of \<open>get_updates_single_rpc\<close>: the list of requests, each a first period and a
  number of periods, for a fetch from period \<open>n\<close> at the expected period \<open>e\<close>.
\<close>

function update_plan :: "nat \<Rightarrow> nat \<Rightarrow> (nat \<times> nat) list" where
  "update_plan e n =
     (if n < e then (n, min (e - n) 128) # update_plan e (n + min (e - n) 128) else [])"
  by pat_completeness auto
termination
  by (relation "measure (\<lambda>(e, n). e - n)") auto

declare update_plan.simps [simp del]

definition update_requests :: "nat \<Rightarrow> nat \<Rightarrow> (nat \<times> nat) list" where
  "update_requests e n = (if 128 \<le> e - n then update_plan e n @ [(e, 128)] else [(n, 128)])"

definition periods_of :: "(nat \<times> nat) list \<Rightarrow> nat list" where
  "periods_of reqs = concat (map (\<lambda>(p, c). [p..<p + c]) reqs)"

definition request_updates :: "'x rpc \<Rightarrow> nat \<times> nat \<Rightarrow> (client_error, 'x list) res" where
  "request_updates rpc = (\<lambda>(p, c). rpc_res (rpc_get_updates rpc (of_nat p) (of_nat c)))"

lemma periods_of_plan: "n \<le> e \<Longrightarrow> periods_of (update_plan e n) = [n..<e]"
proof (induction e n rule: update_plan.induct)
  case (1 e n)
  show ?case
  proof (cases "n < e")
    case True
    let ?m = "n + min (e - n) 128"
    from True 1 have "periods_of (update_plan e ?m) = [?m..<e]" by simp
    moreover have "[n..<?m] @ [?m..<e] = [n..<e]"
      using upt_add_eq_append [of n ?m "e - ?m"] True by simp
    ultimately show ?thesis
      using True by (subst update_plan.simps) (simp add: periods_of_def)
  next
    case False
    with 1 show ?thesis by (subst update_plan.simps) (simp add: periods_of_def)
  qed
qed

lemma plan_sizes: "(p, c) \<in> set (update_plan e n) \<Longrightarrow> 1 \<le> c \<and> c \<le> 128 \<and> p + c \<le> e"
proof (induction e n rule: update_plan.induct)
  case (1 e n)
  then show ?case by (subst (asm) (2) update_plan.simps) (auto split: if_splits)
qed

lemma request_sizes: "(p, c) \<in> set (update_requests e n) \<Longrightarrow> 1 \<le> c \<and> c \<le> 128"
  using plan_sizes [of p c e n] by (auto simp: update_requests_def split: if_splits)

lemma fetch_batches_plan:
  "next_p \<le> expected \<Longrightarrow>
     fetch_batches rpc expected next_p acc =
       rbind (rmapM (request_updates rpc) (update_plan (unat expected) (unat next_p)))
         (\<lambda>uss. Ok (expected, acc @ concat uss))"
proof (induction rpc expected next_p acc rule: fetch_batches.induct)
  case (1 rpc expected next_p acc)
  show ?case
  proof (cases "next_p < expected")
    case False
    with "1.prems" have "next_p = expected" by simp
    then show ?thesis
      by (simp add: fetch_batches.simps [of rpc expected expected acc]
          update_plan.simps [of "unat expected" "unat expected"])
  next
    case True
    define batch where "batch = min (expected - next_p) 128"
    have ub: "unat batch = min (unat expected - unat next_p) 128"
      using unat_batch [OF True] by (simp add: batch_def)
    have un: "unat (next_p + batch) = unat next_p + min (unat expected - unat next_p) 128"
      using unat_next_batch [OF True] by (simp add: batch_def)
    have le: "next_p + batch \<le> expected"
      using True un by (simp add: word_le_nat_alt word_less_nat_alt)
    have plan: "update_plan (unat expected) (unat next_p) =
        (unat next_p, unat batch) # update_plan (unat expected) (unat (next_p + batch))"
      using True by (subst update_plan.simps) (simp add: word_less_nat_alt ub un)
    have fits: "\<not> 255 < unat batch" by (simp add: ub)
    have call: "request_updates rpc (unat next_p, unat batch)
        = rpc_res (rpc_get_updates rpc next_p (ucast batch))"
      by (simp add: request_updates_def)
    show ?thesis
    proof (cases "rpc_get_updates rpc next_p (ucast batch)")
      case (Inl e)
      with True fits plan call show ?thesis
        by (simp add: fetch_batches.simps [of rpc expected next_p acc] Let_def rpc_res_def
            flip: batch_def)
    next
      case (Inr us)
      have "fetch_batches rpc expected (next_p + batch) (acc @ us) =
          rbind (rmapM (request_updates rpc) (update_plan (unat expected) (unat (next_p + batch))))
            (\<lambda>uss. Ok (expected, (acc @ us) @ concat uss))"
        using "1.IH" [OF True batch_def fits Inr le] .
      with True fits Inr plan call show ?thesis
        by (simp add: fetch_batches.simps [of rpc expected next_p acc] Let_def rpc_res_def
            flip: batch_def)
           (cases "rmapM (request_updates rpc)
              (update_plan (unat expected) (unat (next_p + batch)))"; simp)
    qed
  qed
qed

lemma rmapM_append:
  "rmapM f (xs @ ys) = rbind (rmapM f xs) (\<lambda>us. rbind (rmapM f ys) (\<lambda>vs. Ok (us @ vs)))"
proof (induction xs)
  case Nil
  show ?case by (cases "rmapM f ys") simp_all
next
  case (Cons x xs)
  then show ?case by (cases "f x"; cases "rmapM f xs"; cases "rmapM f ys") simp_all
qed

lemma get_updates_requests:
  assumes "h_calc_sync_period H fin \<le> h_calc_sync_period H cur"
  shows "get_updates_single_rpc chk H cur fin rpc =
    rbind (rmapM (request_updates rpc)
             (update_requests (unat (h_calc_sync_period H cur)) (unat (h_calc_sync_period H fin))))
      (\<lambda>uss. Ok (concat uss))"
proof -
  define e n where "e = h_calc_sync_period H cur" and "n = h_calc_sync_period H fin"
  have le: "n \<le> e" using assms by (simp add: e_def n_def)
  have gap: "128 \<le> e - n \<longleftrightarrow> 128 \<le> unat e - unat n"
    using unat_u64_sub [OF le] by (simp add: word_le_nat_alt)
  have last: "request_updates rpc (unat p, 128) = rpc_res (rpc_get_updates rpc p 128)" for p
    by (simp add: request_updates_def)
  show ?thesis
  proof (cases "128 \<le> unat e - unat n")
    case True
    then show ?thesis
      by (simp add: get_updates_single_rpc_def Let_def u64_sub_ok [OF le, unfolded e_def n_def]
          gap [unfolded e_def n_def] e_def n_def update_requests_def rmapM_append last
          fetch_batches_plan [OF le, unfolded e_def n_def])
         (cases "rmapM (request_updates rpc) (update_plan (unat (h_calc_sync_period H cur))
            (unat (h_calc_sync_period H fin)))";
          cases "rpc_get_updates rpc (h_calc_sync_period H cur) 128"; simp add: rpc_res_def)
  next
    case False
    then show ?thesis
      by (simp add: get_updates_single_rpc_def Let_def u64_sub_ok [OF le, unfolded e_def n_def]
          gap [unfolded e_def n_def] e_def n_def update_requests_def last)
         (cases "rpc_get_updates rpc (h_calc_sync_period H fin) 128"; simp add: rpc_res_def)
  qed
qed

text \<open>
  A store ahead of the clock: the subtraction of the periods overflows. A checked build panics; an
  unchecked one wraps, skips the batches and asks once from the store's period.
\<close>

lemma fetch_batches_done: "\<not> next_p < expected \<Longrightarrow> fetch_batches rpc expected next_p acc = Ok (next_p, acc)"
  by (subst fetch_batches.simps) simp

lemma get_updates_clock_behind:
  assumes "h_calc_sync_period H cur < h_calc_sync_period H fin"
  shows "get_updates_single_rpc chk H cur fin rpc =
    (if chk then Panic Arith_overflow
     else rpc_res (rpc_get_updates rpc (h_calc_sync_period H fin) 128))"
proof -
  from assms have "\<not> h_calc_sync_period H fin < h_calc_sync_period H cur" by simp
  note finished = fetch_batches_done [OF this]
  from assms show ?thesis
    by (simp add: get_updates_single_rpc_def Let_def u64_sub_def finished)
       (cases "rpc_get_updates rpc (h_calc_sync_period H fin) 128"; simp add: rpc_res_def)
qed

lemma update_requests_periods:
  assumes "n \<le> e"
  shows "\<exists>m. periods_of (update_requests e n) = [n..<m] \<and> e < m"
proof (cases "128 \<le> e - n")
  case True
  have "periods_of (update_requests e n) = [n..<e] @ [e..<e + 128]"
    using True periods_of_plan [OF assms] by (simp add: update_requests_def periods_of_def)
  also have "\<dots> = [n..<e + 128]" using upt_add_eq_append [OF assms, of 128] by simp
  finally show ?thesis by (intro exI [of _ "e + 128"]) simp
next
  case False
  then show ?thesis
    by (intro exI [of _ "n + 128"]) (simp add: update_requests_def periods_of_def)
qed

section \<open>One endpoint\<close>

text \<open>\<open>steady_clock\<close>: every reading one endpoint's future makes falls in the slot of the first.\<close>

definition steady_clock :: "'x helios \<Rightarrow> 'x config \<Rightarrow> 'x rpc \<Rightarrow> bool" where
  "steady_clock H cfg rpc \<longleftrightarrow>
     (\<forall>i. expected_current_slot H cfg (rpc_clock rpc i) = expected_current_slot H cfg (rpc_clock rpc 0))"

lemma verify_res_Ok [simp]: "verify_res v = Ok u \<longleftrightarrow> v = Inr ()"
  by (simp add: verify_res_def)

lemma rpc_res_Ok [simp]: "rpc_res v = Ok x \<longleftrightarrow> v = Inr x"
  by (simp add: rpc_res_def)

lemma snd_client_apply_update:
  "snd (client_apply_update H c s u) = fst (h_apply_update H s u)"
  by (simp add: client_apply_update_def split: prod.split)

lemma snd_client_apply_finality:
  "snd (client_apply_finality H c s f) = fst (h_apply_finality H s f)"
  by (simp add: client_apply_finality_def split: prod.split)

lemma sync_updates_chain:
  assumes "steady_clock H cfg rpc"
    and "sync_updates_loop H cfg rpc i us c s = Ok (c', s')"
  shows "update_chain H (expected_current_slot H cfg (rpc_clock rpc 0)) (cfg_genesis_root cfg)
    (cfg_forks cfg) s us s'"
  using assms(2)
proof (induction us arbitrary: i c s)
  case Nil
  then show ?case by simp
next
  case (Cons u us)
  from assms(1) have clock: "expected_current_slot H cfg (rpc_clock rpc i)
      = expected_current_slot H cfg (rpc_clock rpc 0)" by (simp add: steady_clock_def)
  obtain c1 s1 where step: "client_apply_update H c s u = (c1, s1)"
    by (cases "client_apply_update H c s u")
  then have "s1 = fst (h_apply_update H s u)" using snd_client_apply_update [of H c s u] by simp
  moreover from Cons.prems step clock have
    "h_verify_update H u (expected_current_slot H cfg (rpc_clock rpc 0)) s (cfg_genesis_root cfg)
       (cfg_forks cfg) = Inr ()"
    and "sync_updates_loop H cfg rpc (i + 1) us c1 s1 = Ok (c', s')"
    by (auto simp: rbind_Ok_iff)
  ultimately show ?case using Cons.IH by (auto intro: chain_cons)
qed

text \<open>\<open>trace_verified\<close>: the trace replays from \<open>s\<close> under its own expected slot.\<close>

definition trace_verified :: "'x helios \<Rightarrow> 'x config \<Rightarrow> 'x store \<Rightarrow> 'x sync_trace \<Rightarrow> bool" where
  "trace_verified H cfg s tr \<longleftrightarrow>
     (\<exists>updated.
        update_chain H (tr_expected_slot tr) (cfg_genesis_root cfg) (cfg_forks cfg) s
          (tr_updates tr) updated \<and>
        h_verify_finality H (tr_finality tr) (tr_expected_slot tr) updated (cfg_genesis_root cfg)
          (cfg_forks cfg) = Inr () \<and>
        tr_final_store tr = fst (h_apply_finality H updated (tr_finality tr)))"

lemma sync_single_verified:
  assumes steady: "steady_clock H cfg rpc"
    and run: "sync_to_chain_single_rpc chk H s cfg rpc = Ok tr"
  shows "trace_verified H cfg s tr"
proof -
  define e where "e = expected_current_slot H cfg (rpc_clock rpc 0)"
  have clock: "expected_current_slot H cfg (rpc_clock rpc i) = e" for i
    using steady by (simp add: steady_clock_def e_def)
  from run obtain us c updated f c' final where
    loop: "sync_updates_loop H cfg rpc 1 us None s = Ok (c, updated)"
    and fin: "h_verify_finality H f e updated (cfg_genesis_root cfg) (cfg_forks cfg) = Inr ()"
    and app: "client_apply_finality H c updated f = (c', final)"
    and tr: "tr = \<lparr>tr_updates = us, tr_finality = f, tr_final_store = final,
      tr_last_checkpoint = c', tr_expected_slot = e\<rparr>"
    by (clarsimp simp: sync_to_chain_single_rpc_def Let_def rbind_Ok_iff clock case_prod_unfold)
  from app have "final = fst (h_apply_finality H updated f)"
    using snd_client_apply_finality [of H c updated f] by simp
  moreover from sync_updates_chain [OF steady loop]
  have "update_chain H e (cfg_genesis_root cfg) (cfg_forks cfg) s us updated" by (simp add: e_def)
  ultimately show ?thesis using fin tr by (auto simp: trace_verified_def)
qed

section \<open>All endpoints together\<close>

lemma all_rpcs_member:
  "Ok x \<in> set (all_rpcs net cl single) \<longleftrightarrow>
     (\<exists>rpc \<in> set (endpoints net cl). \<not> rpc_elapsed rpc \<and> single rpc = Ok x)"
proof -
  have "Ok x = with_timeout t e (rmap_err g r) \<longleftrightarrow> \<not> t \<and> r = Ok x"
    for t and e :: client_error and g :: "client_error \<Rightarrow> client_error" and r
    by (auto simp: eq_commute [of "Ok x"])
  then show ?thesis by (auto simp: all_rpcs_def image_iff)
qed

lemma all_rpcs_empty [simp]: "all_rpcs net cl single = [] \<longleftrightarrow> cl_rpcs cl = []"
  by (simp add: all_rpcs_def endpoints_def)

lemma apply_store_update_client:
  assumes "apply_store_update chk nows new_store new_checkpoint cl = (r, cl')"
  shows "cl' = cl\<lparr>cl_store := new_store, cl_last_checkpoint :=
    (if new_checkpoint \<noteq> None then new_checkpoint else cl_last_checkpoint cl)\<rparr>"
  using assms by (simp add: apply_store_update_def Let_def)

lemma log_update_no_err [simp]: "log_update chk cfg now s \<noteq> Err e"
  by (simp add: log_update_def rbind_Err_iff)

lemma apply_store_update_no_err:
  "fst (apply_store_update chk nows new_store new_checkpoint cl) \<noteq> Err e"
  by (simp add: apply_store_update_def Let_def rbind_Err_iff)

text \<open>How \<open>sync_to_chain\<close> and \<open>advance\<close> end: no endpoint answered, or the chosen result is applied.\<close>

lemma sync_to_chain_cases:
  assumes run: "sync_to_chain chk H net nows cl = (r, cl')"
  obtains (stopped) "cl' = cl" "\<And>tr. r \<noteq> Ok tr"
  | (chosen) results tr where
      "all_rpcs net cl (sync_to_chain_single_rpc chk H (cl_store cl) (cl_config cl)) = map of_sum results"
      "pick_candidate (\<lambda>a b. compare_store_advancement (tr_final_store a) (tr_final_store b))
         None results = Some tr"
      "cl' = cl\<lparr>cl_store := tr_final_store tr, cl_last_checkpoint :=
         (if tr_last_checkpoint tr \<noteq> None then tr_last_checkpoint tr else cl_last_checkpoint cl)\<rparr>"
      "\<And>tr'. r = Ok tr' \<Longrightarrow> tr' = tr"
proof -
  from run have "abind (alift (join_all (all_rpcs net cl
      (sync_to_chain_single_rpc chk H (cl_store cl) (cl_config cl))))) (\<lambda>results.
      case pick_candidate (\<lambda>a b. compare_store_advancement (tr_final_store a) (tr_final_store b))
             None results of
        Some trace \<Rightarrow> abind (apply_store_update chk nows (tr_final_store trace)
          (tr_last_checkpoint trace)) (\<lambda>_. aret trace)
      | None \<Rightarrow> afail All_rpcs_failed) cl = (r, cl')"
    by (simp add: sync_to_chain_def)
  then show thesis
  proof (cases rule: abind_cases)
    case (ok results w1)
    then have join: "all_rpcs net cl (sync_to_chain_single_rpc chk H (cl_store cl) (cl_config cl))
        = map of_sum results" and w1: "w1 = cl"
      by (auto simp: alift_def join_all_Ok)
    show thesis
    proof (cases "pick_candidate (\<lambda>a b. compare_store_advancement (tr_final_store a)
        (tr_final_store b)) None results")
      case None
      with ok(2) w1 stopped show thesis by (auto simp: afail_def)
    next
      case (Some tr)
      with ok(2) w1 have "abind (apply_store_update chk nows (tr_final_store tr)
          (tr_last_checkpoint tr)) (\<lambda>_. aret tr) cl = (r, cl')" by simp
      then show thesis
        by (cases rule: abind_cases)
           (use chosen [OF join Some] in \<open>auto simp: aret_def dest!: apply_store_update_client\<close>)
    qed
  qed (use stopped in \<open>auto simp: alift_def\<close>)
qed

lemma client_advance_cases:
  assumes run: "client_advance H chk net nows cl = (r, cl')"
  obtains (stopped) "cl' = cl" "r \<noteq> Ok ()"
  | (chosen) results store c where
      "all_rpcs net cl (advance_single_rpc H (cl_store cl) (cl_config cl)) = map of_sum results"
      "pick_candidate (\<lambda>a b. compare_store_advancement (fst a) (fst b)) None results = Some (store, c)"
      "cl' = cl\<lparr>cl_store := store, cl_last_checkpoint :=
         (if c \<noteq> None then c else cl_last_checkpoint cl)\<rparr>"
proof -
  from run have "abind (alift (join_all (all_rpcs net cl
      (advance_single_rpc H (cl_store cl) (cl_config cl))))) (\<lambda>results.
      case pick_candidate (\<lambda>a b. compare_store_advancement (fst a) (fst b)) None results of
        Some (store, last_checkpoint) \<Rightarrow> apply_store_update chk nows store last_checkpoint
      | None \<Rightarrow> afail All_rpcs_failed) cl = (r, cl')"
    by (simp add: client_advance_def)
  then show thesis
  proof (cases rule: abind_cases)
    case (ok results w1)
    then have join: "all_rpcs net cl (advance_single_rpc H (cl_store cl) (cl_config cl))
        = map of_sum results" and w1: "w1 = cl"
      by (auto simp: alift_def join_all_Ok)
    show thesis
    proof (cases "pick_candidate (\<lambda>a b. compare_store_advancement (fst a) (fst b)) None results")
      case None
      with ok(2) w1 stopped show thesis by (auto simp: afail_def)
    next
      case (Some sc)
      obtain store c where "sc = (store, c)" by (cases sc)
      with Some ok(2) w1 chosen [OF join] show thesis
        by (auto dest!: apply_store_update_client)
    qed
  qed (use stopped in \<open>auto simp: alift_def\<close>)
qed

lemma sync_most_advanced:
  assumes run: "sync_to_chain chk H net nows cl = (Ok tr, cl')"
  shows "(\<exists>rpc \<in> set (endpoints net cl). \<not> rpc_elapsed rpc \<and>
      sync_to_chain_single_rpc chk H (cl_store cl) (cl_config cl) rpc = Ok tr) \<and>
    (\<forall>rpc \<in> set (endpoints net cl). \<forall>other. \<not> rpc_elapsed rpc \<longrightarrow>
      sync_to_chain_single_rpc chk H (cl_store cl) (cl_config cl) rpc = Ok other \<longrightarrow>
      compare_store_advancement (tr_final_store other) (tr_final_store tr) \<noteq> Greater) \<and>
    cl' = cl\<lparr>cl_store := tr_final_store tr, cl_last_checkpoint :=
      (if tr_last_checkpoint tr \<noteq> None then tr_last_checkpoint tr else cl_last_checkpoint cl)\<rparr>"
  using run
proof (cases rule: sync_to_chain_cases)
  case (chosen results t)
  let ?single = "sync_to_chain_single_rpc chk H (cl_store cl) (cl_config cl)"
  from chosen(4) have t: "t = tr" by simp
  have member: "Inr x \<in> set results \<longleftrightarrow>
      (\<exists>rpc \<in> set (endpoints net cl). \<not> rpc_elapsed rpc \<and> ?single rpc = Ok x)" for x
    using all_rpcs_member [of x net cl ?single] chosen(1) by (auto simp: image_iff)
  from pick_candidate_member [OF chosen(2)] have "Inr tr \<in> set results" by (simp add: t)
  with trace_order.pick_maximal [OF chosen(2)] chosen(3) show ?thesis
    unfolding member t by blast
qed blast

lemma sync_verified:
  assumes "sync_to_chain chk H net nows cl = (Ok tr, cl')"
    and "\<forall>rpc \<in> set (endpoints net cl). steady_clock H (cl_config cl) rpc"
  shows "trace_verified H (cl_config cl) (cl_store cl) tr"
  using assms(1)
proof (cases rule: sync_to_chain_cases)
  case (chosen results t)
  from chosen(4) have "t = tr" by simp
  with pick_candidate_member [OF chosen(2)] have "Inr tr \<in> set results" by simp
  then have "Ok tr \<in> set (map of_sum results)" by force
  then obtain rpc where "rpc \<in> set (endpoints net cl)"
      "sync_to_chain_single_rpc chk H (cl_store cl) (cl_config cl) rpc = Ok tr"
    unfolding chosen(1) [symmetric] all_rpcs_member by blast
  with assms(2) show ?thesis by (blast intro: sync_single_verified)
qed blast

text \<open>
  The finality update of a trace was verified against the last reading of an endpoint's clock, while
  the trace records the first one.
\<close>

definition finality_reading :: "'x helios \<Rightarrow> 'x config \<Rightarrow> 'x rpc \<Rightarrow> 'x list \<Rightarrow> u64" where
  "finality_reading H cfg rpc updates = expected_current_slot H cfg (rpc_clock rpc (length updates + 1))"

lemma sync_single_finality:
  assumes "sync_to_chain_single_rpc chk H s cfg rpc = Ok tr"
  shows "tr_expected_slot tr = expected_current_slot H cfg (rpc_clock rpc 0) \<and>
    (\<exists>updated. h_verify_finality H (tr_finality tr) (finality_reading H cfg rpc (tr_updates tr)) updated
       (cfg_genesis_root cfg) (cfg_forks cfg) = Inr ())"
  using assms
  by (clarsimp simp: sync_to_chain_single_rpc_def Let_def rbind_Ok_iff case_prod_unfold finality_reading_def) blast

lemma sync_finality:
  assumes "sync_to_chain chk H net nows cl = (Ok tr, cl')"
  shows "\<exists>rpc \<in> set (endpoints net cl). tr_expected_slot tr = expected_current_slot H (cl_config cl) (rpc_clock rpc 0) \<and>
    (\<exists>updated. h_verify_finality H (tr_finality tr) (finality_reading H (cl_config cl) rpc (tr_updates tr)) updated
       (cfg_genesis_root (cl_config cl)) (cfg_forks (cl_config cl)) = Inr ())"
  using sync_most_advanced [OF assms] sync_single_finality by blast

section \<open>Monotonicity\<close>

text \<open>
  What the library documents of its application functions: a finalized header is replaced only by
  a newer one.
\<close>

definition helios_monotone :: "'x helios \<Rightarrow> bool" where
  "helios_monotone H \<longleftrightarrow>
     (\<forall>s u e root fks. h_verify_update H u e s root fks = Inr () \<longrightarrow>
        fin_slot s \<le> fin_slot (fst (h_apply_update H s u))) \<and>
     (\<forall>s f e root fks. h_verify_finality H f e s root fks = Inr () \<longrightarrow>
        fin_slot s \<le> fin_slot (fst (h_apply_finality H s f)))"

lemma sample_helios_monotone: "helios_monotone sample_helios"
  by (auto simp: helios_monotone_def sample_helios_def sample_header_def less_imp_le split: if_splits)

lemma apply_update_slot:
  "helios_monotone H \<Longrightarrow> h_verify_update H u e s root fks = Inr () \<Longrightarrow>
     client_apply_update H c s u = (c', s') \<Longrightarrow> fin_slot s \<le> fin_slot s'"
  using snd_client_apply_update [of H c s u] by (force simp: helios_monotone_def)

lemma apply_finality_slot:
  "helios_monotone H \<Longrightarrow> h_verify_finality H f e s root fks = Inr () \<Longrightarrow>
     client_apply_finality H c s f = (c', s') \<Longrightarrow> fin_slot s \<le> fin_slot s'"
  using snd_client_apply_finality [of H c s f] by (force simp: helios_monotone_def)

lemma sync_updates_slot:
  "helios_monotone H \<Longrightarrow> sync_updates_loop H cfg rpc i us c s = Ok (c', s') \<Longrightarrow> fin_slot s \<le> fin_slot s'"
proof (induction us arbitrary: i c s)
  case (Cons u us)
  obtain c1 s1 where step: "client_apply_update H c s u = (c1, s1)"
    by (cases "client_apply_update H c s u")
  with Cons.prems have v: "h_verify_update H u (expected_current_slot H cfg (rpc_clock rpc i)) s
      (cfg_genesis_root cfg) (cfg_forks cfg) = Inr ()"
    and rest: "sync_updates_loop H cfg rpc (i + 1) us c1 s1 = Ok (c', s')"
    by (auto simp: rbind_Ok_iff)
  have "fin_slot s \<le> fin_slot s1" using Cons.prems(1) v step by (rule apply_update_slot)
  also have "\<dots> \<le> fin_slot s'" using Cons.prems(1) rest by (rule Cons.IH)
  finally show ?case .
qed simp

lemma sync_single_slot:
  assumes mono: "helios_monotone H" and run: "sync_to_chain_single_rpc chk H s cfg rpc = Ok tr"
  shows "fin_slot s \<le> fin_slot (tr_final_store tr)"
proof -
  from run obtain us c updated f where
    loop: "sync_updates_loop H cfg rpc 1 us None s = Ok (c, updated)"
    and fin: "h_verify_finality H f (expected_current_slot H cfg (rpc_clock rpc (length us + 1)))
      updated (cfg_genesis_root cfg) (cfg_forks cfg) = Inr ()"
    and tr: "tr_final_store tr = snd (client_apply_finality H c updated f)"
    by (clarsimp simp: sync_to_chain_single_rpc_def Let_def rbind_Ok_iff case_prod_unfold)
  have "fin_slot s \<le> fin_slot updated" using mono loop by (rule sync_updates_slot)
  also have "\<dots> \<le> fin_slot (tr_final_store tr)"
    by (rule apply_finality_slot [OF mono fin]) (simp add: tr prod_eq_iff)
  finally show ?thesis .
qed

lemma advance_next_committee_cases:
  assumes "advance_next_committee H cfg rpc c s = Ok (s', c')"
  shows "s' = s \<or> (\<exists>u e. h_verify_update H u e s (cfg_genesis_root cfg) (cfg_forks cfg) = Inr () \<and>
    client_apply_update H c s u = (c', s'))"
proof (cases "next_sync_committee s")
  case None
  with assms obtain us where
    us: "(case us of [u] \<Rightarrow>
            (case h_verify_update H u (expected_current_slot H cfg (rpc_clock rpc 1)) s
                    (cfg_genesis_root cfg) (cfg_forks cfg) of
               Inl _ \<Rightarrow> Ok (s, c)
             | Inr _ \<Rightarrow> (case client_apply_update H c s u of (checkpoint', store') \<Rightarrow>
                 Ok (store', checkpoint')))
          | _ \<Rightarrow> Ok (s, c)) = (Ok (s', c') :: (client_error, _) res)"
    by (auto simp: advance_next_committee_def Let_def rbind_Ok_iff simp del: One_nat_def)
  then show ?thesis
    by (cases us rule: remdups_adj.cases) (auto split: sum.split_asm prod.split_asm)
qed (use assms in \<open>simp add: advance_next_committee_def\<close>)

lemma advance_single_slot:
  assumes mono: "helios_monotone H" and run: "advance_single_rpc H s cfg rpc = Ok (s', c')"
  shows "fin_slot s \<le> fin_slot s'"
proof -
  from run obtain f where
    fin: "h_verify_finality H f (expected_current_slot H cfg (rpc_clock rpc 0)) s
      (cfg_genesis_root cfg) (cfg_forks cfg) = Inr ()"
    and run1: "(case client_apply_finality H None s f of (checkpoint, store1) \<Rightarrow>
        advance_next_committee H cfg rpc checkpoint store1) = Ok (s', c')"
    by (auto simp: advance_single_rpc_def rbind_Ok_iff)
  obtain c1 s1 where app: "client_apply_finality H None s f = (c1, s1)"
    by (cases "client_apply_finality H None s f")
  with run1 have "advance_next_committee H cfg rpc c1 s1 = Ok (s', c')" by simp
  from advance_next_committee_cases [OF this] have "fin_slot s1 \<le> fin_slot s'"
    using apply_update_slot [OF mono] by auto
  with apply_finality_slot [OF mono fin app] show ?thesis by simp
qed

section \<open>Properties\<close>

text \<open>
  C28: fetching light-client updates up to the current period makes exactly the planned requests, in
  order, and returns their answers concatenated; each request asks for 1 to 128 periods, and
  together they ask for every period from the store's to at least the current one, each once.
\<close>

theorem updates_cover_gap:
  assumes "h_calc_sync_period H fin \<le> h_calc_sync_period H cur"
  shows "\<exists>requests m.
    get_updates_single_rpc chk H cur fin rpc =
      rbind (rmapM (request_updates rpc) requests) (\<lambda>uss. Ok (concat uss)) \<and>
    (\<forall>(p, c) \<in> set requests. 1 \<le> c \<and> c \<le> 128) \<and>
    periods_of requests = [unat (h_calc_sync_period H fin)..<m] \<and>
    unat (h_calc_sync_period H cur) < m"
proof -
  let ?n = "unat (h_calc_sync_period H fin)" and ?e = "unat (h_calc_sync_period H cur)"
  from assms have "?n \<le> ?e" by (simp add: word_le_nat_alt)
  then obtain m where "periods_of (update_requests ?e ?n) = [?n..<m] \<and> ?e < m"
    using update_requests_periods by blast
  moreover have "\<forall>(p, c) \<in> set (update_requests ?e ?n). 1 \<le> c \<and> c \<le> 128"
    using request_sizes by blast
  ultimately show ?thesis using get_updates_requests [OF assms] by blast
qed

definition sample_rpc :: "u64 \<Rightarrow> nat rpc" where
  "sample_rpc s = \<lparr>rpc_get_bootstrap = (\<lambda>c. Inr (sample_bootstrap (ucast c))),
     rpc_get_updates = (\<lambda>p c. Inr [unat p * 8192 + 32]),
     rpc_get_finality_update = Inr (sample_finality s),
     rpc_get_block = (\<lambda>n. if n = 64 then Inr 64 else Inl ''missing''),
     rpc_elapsed = False, rpc_clock = (\<lambda>i. 2000000 * 10 ^ 9)\<rparr>"

theorem updates_cover_gap_witness:
  "\<exists>requests m. get_updates_single_rpc True sample_helios 3000000 100 (sample_rpc 96) =
      rbind (rmapM (request_updates (sample_rpc 96)) requests) (\<lambda>uss. Ok (concat uss)) \<and>
    periods_of requests = [0..<m] \<and> 366 < m"
  using updates_cover_gap [of sample_helios 100 3000000 True "sample_rpc 96"]
  by (auto simp: sample_helios_def)

text \<open>
  C29: when the store's period is past the clock's, the build with overflow checks panics on the
  subtraction and the release build asks once, for 128 periods from the store's own.
\<close>

theorem updates_clock_behind:
  assumes "h_calc_sync_period H cur < h_calc_sync_period H fin"
  shows "get_updates_single_rpc chk H cur fin rpc =
    (if chk then Panic Arith_overflow
     else rpc_res (rpc_get_updates rpc (h_calc_sync_period H fin) 128))"
  using assms by (rule get_updates_clock_behind)

theorem updates_clock_behind_witness:
  "get_updates_single_rpc True sample_helios 100 9000 (sample_rpc 96) = Panic Arith_overflow \<and>
   get_updates_single_rpc False sample_helios 100 9000 (sample_rpc 96) = Ok [8224]"
  using updates_clock_behind [of sample_helios 100 9000 True "sample_rpc 96"]
    updates_clock_behind [of sample_helios 100 9000 False "sample_rpc 96"]
  by (simp add: sample_helios_def sample_rpc_def rpc_res_def)

text \<open>
  C17: a successful synchronisation returns a trace that some endpoint produced in time, none of the
  other timely traces ends in a more advanced store, and the client holds exactly that trace's
  final store and its checkpoint, if it established one.
\<close>

theorem sync_takes_most_advanced:
  assumes run: "sync_to_chain chk H net nows cl = (Ok tr, cl')"
  shows "(\<exists>rpc \<in> set (endpoints net cl). \<not> rpc_elapsed rpc \<and>
      sync_to_chain_single_rpc chk H (cl_store cl) (cl_config cl) rpc = Ok tr) \<and>
    (\<forall>rpc \<in> set (endpoints net cl). \<forall>other. \<not> rpc_elapsed rpc \<longrightarrow>
      sync_to_chain_single_rpc chk H (cl_store cl) (cl_config cl) rpc = Ok other \<longrightarrow>
      compare_store_advancement (tr_final_store other) (tr_final_store tr) \<noteq> Greater) \<and>
    cl' = cl\<lparr>cl_store := tr_final_store tr, cl_last_checkpoint :=
      (if tr_last_checkpoint tr \<noteq> None then tr_last_checkpoint tr else cl_last_checkpoint cl)\<rparr>"
  using assms by (rule sync_most_advanced)

definition sample_net :: "nat net" where
  "sample_net i = sample_rpc (if i = 0 then 96 else 128)"

definition sample_client :: "u64 \<Rightarrow> nat client" where
  "sample_client s = \<lparr>cl_config = sample_config, cl_store = sample_store s,
     cl_rpcs = [''a'', ''b''], cl_last_checkpoint = None\<rparr>"

lemma sample_rpc_elapsed [simp]: "\<not> rpc_elapsed (sample_rpc s)"
  by (simp add: sample_rpc_def)

lemmas sample_single_simps = sync_to_chain_single_rpc_def get_updates_single_rpc_def Let_def
  expected_current_slot_def sample_simps sample_config_def sample_rpc_def u64_sub_def rpc_res_def
  verify_res_def client_apply_update_def client_apply_finality_def

lemma sample_single:
  "n = 96 \<or> n = 128 \<Longrightarrow>
   sync_to_chain_single_rpc True sample_helios (sample_store 10) sample_config (sample_rpc n) =
     Ok \<lparr>tr_updates = [32], tr_finality = sample_finality n,
       tr_final_store = (sample_store 10)\<lparr>finalized_header := sample_header n,
         next_sync_committee := Some 32\<rparr>,
       tr_last_checkpoint = Some (ucast n), tr_expected_slot = 166583\<rparr>"
  by (elim disjE; simp add: sample_single_simps)

lemma sample_sync:
  "\<exists>tr cl'. sync_to_chain True sample_helios sample_net (2000000 * 10 ^ 9, 2000000 * 10 ^ 9)
     (sample_client 10) = (Ok tr, cl') \<and> fin_slot (tr_final_store tr) = 128"
  by (simp add: sync_to_chain_def sample_single endpoints_def all_rpcs_def sample_client_def
      sample_net_def with_timeout_def upt_rec)
     (simp add: alift_def abind_def compare_store_advancement_def cmp_u64_def sample_simps
       apply_store_update_def Let_def log_update_def age_def slot_timestamp_def u64_mul_def
       u64_add_def chrono_max_millis_def aret_def sample_config_def)

theorem sync_takes_most_advanced_witness:
  "\<exists>tr cl'. sync_to_chain True sample_helios sample_net (2000000 * 10 ^ 9, 2000000 * 10 ^ 9)
     (sample_client 10) = (Ok tr, cl') \<and> fin_slot (cl_store cl') = 128"
  using sample_sync
    sync_takes_most_advanced [of True sample_helios sample_net _ "sample_client 10"]
  by fastforce

text \<open>
  C18: when an endpoint's clock stays within one slot, the trace it returns replays: its updates are a
  chain of updates valid from the client's store, its finality update is valid on the store they
  produce, all under the expected slot the trace reports, and its final store is the result.
\<close>

theorem sync_trace_replays:
  assumes "sync_to_chain chk H net nows cl = (Ok tr, cl')"
    and "\<forall>rpc \<in> set (endpoints net cl). steady_clock H (cl_config cl) rpc"
  shows "trace_verified H (cl_config cl) (cl_store cl) tr"
  using assms by (rule sync_verified)

lemma sample_steady: "rpc \<in> set (endpoints sample_net cl) \<Longrightarrow> steady_clock H cfg rpc"
  by (auto simp: endpoints_def sample_net_def sample_rpc_def steady_clock_def)

theorem sync_trace_replays_witness:
  "\<exists>tr cl'. sync_to_chain True sample_helios sample_net (2000000 * 10 ^ 9, 2000000 * 10 ^ 9)
     (sample_client 10) = (Ok tr, cl') \<and> trace_verified sample_helios sample_config (sample_store 10) tr"
proof -
  from sample_sync obtain tr cl' where run: "sync_to_chain True sample_helios sample_net
    (2000000 * 10 ^ 9, 2000000 * 10 ^ 9) (sample_client 10) = (Ok tr, cl')" by blast
  from sync_trace_replays [OF run] sample_steady
  have "trace_verified sample_helios (cl_config (sample_client 10)) (cl_store (sample_client 10)) tr"
    by blast
  with run show ?thesis by (auto simp: sample_client_def)
qed

end
