(* ===== verification/Client_Outcomes.thy ===== *)
theory Client_Outcomes
  imports Client_Facts
begin

text \<open>
  How the client's public operations end: construction from the environment, bootstrapping on a
  checkpoint, advancing, fetching a block, and the inputs of a proof.
\<close>

section \<open>Bootstrapping\<close>

text \<open>\<open>bootstrap_valid\<close>: an endpoint's bootstrap is the one of the checkpoint and not too old.\<close>

definition bootstrap_valid ::
  "bool \<Rightarrow> 'x helios \<Rightarrow> 'x config \<Rightarrow> 'x rpc \<Rightarrow> b256 \<Rightarrow> 'x bootstrap_data \<Rightarrow> bool" where
  "bootstrap_valid chk H cfg rpc checkpoint b \<longleftrightarrow>
     rpc_get_bootstrap rpc checkpoint = Inr b \<and>
     h_verify_bootstrap H b checkpoint (cfg_forks cfg) = Inr () \<and>
     (strict_checkpoint_age cfg \<longrightarrow>
        is_valid_checkpoint chk H cfg (rpc_clock rpc 0) (slot (beacon (boot_header b)))
          = (Ok True :: (client_error, bool) res))"

lemma bootstrap_single_Ok:
  assumes "bootstrap_single_rpc chk H s cfg checkpoint rpc = Ok s'"
  shows "\<exists>b. bootstrap_valid chk H cfg rpc checkpoint b \<and> s' = h_apply_bootstrap H s b"
proof -
  from assms obtain b valid where b: "rpc_get_bootstrap rpc checkpoint = Inr b"
    and valid: "is_valid_checkpoint chk H cfg (rpc_clock rpc 0) (slot (beacon (boot_header b)))
      = (Ok valid :: (client_error, bool) res)"
    and rest: "(if \<not> valid \<and> strict_checkpoint_age cfg then Err Checkpoint_too_old
      else rbind (verify_res (h_verify_bootstrap H b checkpoint (cfg_forks cfg)))
        (\<lambda>_. Ok (h_apply_bootstrap H s b))) = Ok s'"
    by (auto simp: bootstrap_single_rpc_def rbind_Ok_iff)
  then show ?thesis
    by (auto simp: bootstrap_valid_def rbind_Ok_iff split: if_splits)
qed

lemma all_rpcs_err:
  assumes "x \<in> set (endpoints net cl)" and "list_all is_err (all_rpcs net cl single)"
  shows "rpc_elapsed x \<or> is_err (single x)"
proof -
  from assms have "is_err (with_timeout (rpc_elapsed x) Rpc_timed_out (rmap_err Rpc_wrapped (single x)))"
    by (auto simp: all_rpcs_def list_all_iff)
  then show ?thesis by (cases "single x") (auto simp: with_timeout_def split: if_splits)
qed

lemma bootstrap_outcome_facts:
  assumes sel: "select_ok_spec sel" and "cl_rpcs cl \<noteq> []"
  shows "case client_bootstrap chk H sel net checkpoint cl of
      (Ok _, cl') \<Rightarrow> \<exists>rpc \<in> set (endpoints net cl). \<exists>b. \<not> rpc_elapsed rpc \<and>
         bootstrap_valid chk H (cl_config cl) rpc checkpoint b \<and>
         cl' = cl\<lparr>cl_store := h_apply_bootstrap H (cl_store cl) b,
                  cl_last_checkpoint := Some checkpoint\<rparr>
    | (Err _, cl') \<Rightarrow> cl' = cl \<and> (\<forall>rpc \<in> set (endpoints net cl). rpc_elapsed rpc \<or>
         is_err (bootstrap_single_rpc chk H (cl_store cl) (cl_config cl) checkpoint rpc))
    | (_, cl') \<Rightarrow> cl' = cl"
proof -
  define single where "single = bootstrap_single_rpc chk H (cl_store cl) (cl_config cl) checkpoint"
  define xs where "xs = all_rpcs net cl single"
  have ne: "xs \<noteq> []" using assms(2) by (simp add: xs_def)
  show ?thesis
  proof (cases "sel xs")
    case (Ok s')
    with select_ok_member [OF sel ne] have "Ok s' \<in> set (all_rpcs net cl single)"
      by (simp add: xs_def)
    then obtain rpc where "rpc \<in> set (endpoints net cl)" "\<not> rpc_elapsed rpc" "single rpc = Ok s'"
      by (auto simp: all_rpcs_member)
    with bootstrap_single_Ok Ok show ?thesis
      by (fastforce simp: client_bootstrap_def single_def xs_def)
  next
    case (Err e)
    with sel ne have "list_all is_err xs" by (auto simp: select_ok_spec_def)
    with all_rpcs_err [of _ net cl single] Err show ?thesis
      by (auto simp: client_bootstrap_def single_def xs_def)
  qed (simp_all add: client_bootstrap_def single_def xs_def)
qed

section \<open>Construction and blocks\<close>

lemma client_from_env_Ok:
  assumes "client_from_env H env networks = Ok cl"
  obtains id n base paths where
    "env ''SOURCE_CHAIN_ID'' = Some id" "parse_u64 id = Some n" "networks n = Some base"
    "env ''CONSENSUS_RPCS_LIST'' = Some paths" "comma_list paths \<noteq> []"
    "cl = \<lparr>cl_config = config_from_base base, cl_store = h_default_store H,
       cl_rpcs = comma_list paths, cl_last_checkpoint = None\<rparr>"
  using assms
  by (auto simp: client_from_env_def client_new_def rbind_Ok_iff split: option.splits)

text \<open>\<open>timely_block\<close>: the answer of a backup endpoint, if it came in time.\<close>

definition timely_block :: "u64 \<Rightarrow> 'x rpc \<Rightarrow> 'x option" where
  "timely_block s rpc =
     (case rpc_get_block rpc s of Inr block \<Rightarrow> if rpc_elapsed rpc then None else Some block | Inl _ \<Rightarrow> None)"

lemma backup_blocks:
  "concat (map (\<lambda>rpc. case with_timeout (rpc_elapsed rpc) Rpc_timed_out (rpc_res (rpc_get_block rpc s)) of
     Ok block \<Rightarrow> [block] | _ \<Rightarrow> []) rpcs) = map the (filter (\<lambda>b. b \<noteq> None) (map (timely_block s) rpcs))"
proof (induction rpcs)
  case (Cons r rs)
  then show ?case
    by (cases "rpc_get_block r s") (simp_all add: timely_block_def with_timeout_def rpc_res_def)
qed simp

section \<open>The inputs of a proof\<close>

text \<open>What a successful \<open>get_proof_inputs\<close> of the client has established.\<close>

lemma consensus_inputs_cases:
  assumes sel: "select_ok_spec sel"
    and steady: "\<And>i cfg. steady_clock H cfg (net_s i)"
    and run: "consensus_get_proof_inputs chk H sel env networks net_b net_s nows from_header = Ok inp"
  obtains client b rpc tr ex where
    "client_from_env H env networks = Ok client"
    "rpc \<in> set (endpoints net_b client)"
    "bootstrap_valid chk H (cl_config client) rpc from_header b"
    "cpi_initial_store inp = h_apply_bootstrap H (cl_store client) b"
    "trace_verified H (cl_config client) (cpi_initial_store inp) tr"
    "tr_expected_slot tr = cpi_expected_slot inp"
    "tr_updates tr = cpi_updates inp" "tr_finality tr = cpi_finality inp"
    "fin_slot (cpi_initial_store inp) < fin_slot (tr_final_store tr)"
    "execution (finalized_header (tr_final_store tr)) = Some ex"
    "block_number ex = cpi_execution_block inp"
    "cfg_genesis_root (cl_config client) = cpi_genesis_root inp"
    "cfg_forks (cl_config client) = cpi_forks inp" "cpi_config inp = cl_config client"
proof -
  obtain client where client: "client_from_env H env networks = Ok client"
    using run by (auto simp: consensus_get_proof_inputs_def rbind_Ok_iff)
  obtain booted client1 where boot: "client_bootstrap chk H sel net_b from_header client = (booted, client1)"
    by (cases "client_bootstrap chk H sel net_b from_header client")
  obtain synced client2 where sync: "sync_to_chain chk H net_s nows client1 = (synced, client2)"
    by (cases "sync_to_chain chk H net_s nows client1")
  from run client boot sync obtain tr ex where ok: "booted = Ok ()" "synced = Ok tr"
    and ahead: "\<not> fin_slot (cl_store client2) \<le> fin_slot (cl_store client1)"
    and ex: "execution (finalized_header (cl_store client2)) = Some ex"
    and inp: "inp = \<lparr>cpi_initial_store = cl_store client1, cpi_expected_slot = tr_expected_slot tr,
      cpi_genesis_root = cfg_genesis_root (cl_config client2),
      cpi_forks = cfg_forks (cl_config client2), cpi_updates = tr_updates tr,
      cpi_finality = tr_finality tr, cpi_execution_block = block_number ex,
      cpi_config = cl_config client2\<rparr>"
    by (auto simp: consensus_get_proof_inputs_def Let_def rbind_Ok_iff split: option.splits)
  have "cl_rpcs client \<noteq> []" using client by (auto elim: client_from_env_Ok)
  from bootstrap_outcome_facts [OF sel this, where chk = chk and H = H and net = net_b
      and checkpoint = from_header] boot ok(1)
  obtain rpc b where b: "rpc \<in> set (endpoints net_b client)"
      "bootstrap_valid chk H (cl_config client) rpc from_header b"
      "client1 = client\<lparr>cl_store := h_apply_bootstrap H (cl_store client) b,
         cl_last_checkpoint := Some from_header\<rparr>"
    by auto
  have cfg: "cl_config client1 = cl_config client" by (simp add: b(3))
  have st: "client2 = client1\<lparr>cl_store := tr_final_store tr, cl_last_checkpoint :=
      (if tr_last_checkpoint tr \<noteq> None then tr_last_checkpoint tr else cl_last_checkpoint client1)\<rparr>"
    using sync_most_advanced [OF sync [unfolded ok(2)]] by simp
  have "trace_verified H (cl_config client) (cl_store client1) tr"
    using sync_verified [OF sync [unfolded ok(2)]] steady cfg by (auto simp: endpoints_def)
  moreover have "cl_store client2 = tr_final_store tr" "cl_config client2 = cl_config client"
    by (simp_all add: st cfg)
  moreover have "cl_store client1 = h_apply_bootstrap H (cl_store client) b" by (simp add: b(3))
  ultimately show thesis
    using ahead ex by (intro that [OF client b(1,2), where tr = tr and ex = ex]) (simp_all add: inp)
qed

lemma inputs_finality_checked:
  assumes "consensus_get_proof_inputs chk H sel env networks net_b net_s nows from_header = Ok inp"
  shows "\<exists>i. cpi_expected_slot inp = expected_current_slot H (cpi_config inp) (rpc_clock (net_s i) 0) \<and>
    (\<exists>updated. h_verify_finality H (cpi_finality inp) (finality_reading H (cpi_config inp) (net_s i) (cpi_updates inp))
       updated (cfg_genesis_root (cpi_config inp)) (cfg_forks (cpi_config inp)) = Inr ())"
proof -
  obtain client where client: "client_from_env H env networks = Ok client"
    using assms by (auto simp: consensus_get_proof_inputs_def rbind_Ok_iff)
  obtain booted client1 where boot: "client_bootstrap chk H sel net_b from_header client = (booted, client1)"
    by (cases "client_bootstrap chk H sel net_b from_header client")
  obtain synced client2 where synced: "sync_to_chain chk H net_s nows client1 = (synced, client2)"
    by (cases "sync_to_chain chk H net_s nows client1")
  from assms client boot synced obtain tr where tr: "synced = Ok tr"
    and inp: "cpi_expected_slot inp = tr_expected_slot tr" "cpi_config inp = cl_config client2"
      "cpi_updates inp = tr_updates tr" "cpi_finality inp = tr_finality tr"
    by (auto simp: consensus_get_proof_inputs_def Let_def rbind_Ok_iff split: option.splits)
  note sync = synced [unfolded tr]
  have "cl_config client2 = cl_config client1" using sync_most_advanced [OF sync] by simp
  with sync_finality [OF sync] inp show ?thesis by (auto simp: endpoints_def)
qed

section \<open>Properties\<close>

text \<open>
  C30: with at least one endpoint, bootstrapping on a checkpoint either succeeds, and then the client
  holds the store of a timely endpoint's bootstrap that verifies against exactly this checkpoint
  (and is recent enough when the configuration is strict), with the checkpoint recorded; or it
  leaves the client as it was, and an error is returned only when every endpoint failed or was late.
\<close>

theorem bootstrap_outcome:
  assumes sel: "select_ok_spec sel" and "cl_rpcs cl \<noteq> []"
  shows "case client_bootstrap chk H sel net checkpoint cl of
      (Ok _, cl') \<Rightarrow> \<exists>rpc \<in> set (endpoints net cl). \<exists>b. \<not> rpc_elapsed rpc \<and>
         bootstrap_valid chk H (cl_config cl) rpc checkpoint b \<and>
         cl' = cl\<lparr>cl_store := h_apply_bootstrap H (cl_store cl) b,
                  cl_last_checkpoint := Some checkpoint\<rparr>
    | (Err _, cl') \<Rightarrow> cl' = cl \<and> (\<forall>rpc \<in> set (endpoints net cl). rpc_elapsed rpc \<or>
         is_err (bootstrap_single_rpc chk H (cl_store cl) (cl_config cl) checkpoint rpc))
    | (_, cl') \<Rightarrow> cl' = cl"
  using assms by (rule bootstrap_outcome_facts)

theorem bootstrap_outcome_witness:
  "\<exists>cl'. client_bootstrap True sample_helios in_order sample_net 64 (sample_client 10) = (Ok (), cl') \<and>
     cl_last_checkpoint cl' = Some 64"
proof -
  have run: "\<exists>cl'. client_bootstrap True sample_helios in_order sample_net 64 (sample_client 10) = (Ok (), cl')"
    by (simp add: client_bootstrap_def all_rpcs_def endpoints_def sample_client_def sample_net_def
        upt_rec bootstrap_single_rpc_def rpc_res_def verify_res_def with_timeout_def
        is_valid_checkpoint_def Let_def slot_timestamp_def u64_mul_def u64_add_def
        sample_config_def expected_current_slot_def)
       (simp add: sample_rpc_def sample_simps)
  have "cl_rpcs (sample_client 10) \<noteq> []" by (simp add: sample_client_def)
  from run bootstrap_outcome [OF in_order_select_ok this, where chk = True and H = sample_helios
      and net = sample_net and checkpoint = 64]
  show ?thesis by auto
qed

text \<open>
  C27: advancing never moves the client's finalized head backwards, whatever the endpoints answer and
  however the call ends, and a call that fails before a result is chosen leaves the client as it was.
\<close>

theorem client_head_monotone:
  assumes mono: "helios_monotone H" and run: "client_advance H chk net nows cl = (r, cl')"
  shows "fin_slot (cl_store cl) \<le> fin_slot (cl_store cl') \<and> (r = Err All_rpcs_failed \<longrightarrow> cl' = cl)"
  using run
proof (cases rule: client_advance_cases)
  case (chosen results s c)
  from pick_candidate_member [OF chosen(2)] have "Inr (s, c) \<in> set results" by simp
  then have "Ok (s, c) \<in> set (map of_sum results)" by force
  then obtain rpc where "advance_single_rpc H (cl_store cl) (cl_config cl) rpc = Ok (s, c)"
    unfolding chosen(1) [symmetric] all_rpcs_member by blast
  with mono have "fin_slot (cl_store cl) \<le> fin_slot s" by (rule advance_single_slot)
  moreover have "r \<noteq> Err All_rpcs_failed"
    using run chosen(1,2) apply_store_update_no_err [of chk nows s c cl]
    by (auto simp: client_advance_def alift_def abind_def)
  ultimately show ?thesis using chosen(3) by simp
qed simp

lemma sample_advance_single:
  "n = 96 \<or> n = 128 \<Longrightarrow>
   advance_single_rpc sample_helios (sample_store 10) sample_config (sample_rpc n) =
     Ok ((sample_store 10)\<lparr>finalized_header := sample_header n\<rparr>, Some (ucast n))"
  by (elim disjE; simp add: sample_single_simps advance_single_rpc_def advance_next_committee_def)

theorem client_head_monotone_witness:
  "\<exists>cl'. client_advance sample_helios True sample_net (2000000 * 10 ^ 9, 2000000 * 10 ^ 9)
     (sample_client 10) = (Ok (), cl') \<and> 10 \<le> fin_slot (cl_store cl')"
proof -
  have "\<exists>cl'. client_advance sample_helios True sample_net (2000000 * 10 ^ 9, 2000000 * 10 ^ 9)
     (sample_client 10) = (Ok (), cl')"
    by (simp add: client_advance_def endpoints_def all_rpcs_def sample_client_def sample_net_def
        with_timeout_def upt_rec sample_advance_single)
       (simp add: sample_simps compare_store_advancement_def cmp_u64_def alift_def abind_def
        apply_store_update_def log_update_def age_def slot_timestamp_def u64_mul_def u64_add_def
        chrono_max_millis_def Let_def sample_config_def)
  then obtain cl' where run: "client_advance sample_helios True sample_net
      (2000000 * 10 ^ 9, 2000000 * 10 ^ 9) (sample_client 10) = (Ok (), cl')" ..
  from client_head_monotone [OF sample_helios_monotone this] run show ?thesis
    by (auto simp: sample_client_def sample_store_def sample_header_def)
qed

text \<open>
  C40: a client built from the environment has at least one endpoint, each endpoint's path is
  non-empty, trimmed and free of commas; its genesis and forks are those of the network whose number
  \<open>SOURCE_CHAIN_ID\<close> is, with a checkpoint-age limit of one week that is not strict; and its store is the
  library's default.
\<close>

theorem client_from_env_well_formed:
  assumes "client_from_env H env networks = Ok cl"
  shows "cl_rpcs cl \<noteq> [] \<and> (\<forall>p \<in> set (cl_rpcs cl). p \<noteq> [] \<and> CHR '','' \<notin> set p \<and> trimmed p) \<and>
    (\<exists>chain_id n base. env ''SOURCE_CHAIN_ID'' = Some chain_id \<and> parse_u64 chain_id = Some n \<and> networks n = Some base \<and>
       genesis_time (cl_config cl) = bc_genesis_time base \<and> cfg_genesis_root (cl_config cl) = bc_genesis_root base \<and>
       cfg_forks (cl_config cl) = bc_forks base) \<and>
    max_checkpoint_age (cl_config cl) = 604800 \<and> \<not> strict_checkpoint_age (cl_config cl) \<and>
    cl_store cl = h_default_store H \<and> cl_last_checkpoint cl = None"
proof -
  from assms obtain chain_id n base paths where c: "env ''SOURCE_CHAIN_ID'' = Some chain_id" "parse_u64 chain_id = Some n"
      "networks n = Some base" "comma_list paths \<noteq> []"
      "cl = \<lparr>cl_config = config_from_base base, cl_store = h_default_store H,
         cl_rpcs = comma_list paths, cl_last_checkpoint = None\<rparr>"
    by (rule client_from_env_Ok)
  then show ?thesis by (auto simp: config_from_base_def dest: comma_list_parts)
qed

definition sample_env :: "string \<Rightarrow> string option" where
  "sample_env name =
     (if name = ''SOURCE_CHAIN_ID'' then Some ''1''
      else if name = ''CONSENSUS_RPCS_LIST'' then Some '' a,, b ''
      else if name = ''SOURCE_EXECUTION_RPC_URL'' then Some ''u, v''
      else None)"

definition sample_networks :: "u64 \<Rightarrow> nat base_config option" where
  "sample_networks n =
     (if n = 1 then Some \<lparr>bc_genesis_time = 1000, bc_genesis_root = 0, bc_forks = 0\<rparr> else None)"

lemma sample_from_env:
  "client_from_env sample_helios sample_env sample_networks =
     Ok \<lparr>cl_config = sample_config, cl_store = sample_store 0, cl_rpcs = [''a'', ''b''],
       cl_last_checkpoint = None\<rparr>"
  by (simp add: client_from_env_def sample_env_def sample_networks_def parse_u64_def
      parse_below_def Let_def is_digit_def digits_value_def client_new_def assert_that_def
      comma_list_def trim_def is_space_def config_from_base_def sample_config_def sample_helios_def)

theorem client_from_env_well_formed_witness:
  "\<exists>cl. client_from_env sample_helios sample_env sample_networks = Ok cl \<and> cl_rpcs cl = [''a'', ''b''] \<and>
     (\<forall>p \<in> set (cl_rpcs cl). trimmed p)"
  using client_from_env_well_formed [OF sample_from_env] sample_from_env by auto

text \<open>
  A block comes from the first endpoint when it answers; otherwise from the first of the other
  endpoints, in their order, that answers in time; the call fails exactly when none does.
\<close>

theorem get_block_first_answer:
  assumes "endpoints net cl = primary # backups"
  shows "get_block net cl s =
    (case rpc_get_block primary s of
       Inr block \<Rightarrow> Ok block
     | Inl _ \<Rightarrow>
         (case filter (\<lambda>b. b \<noteq> None) (map (timely_block s) backups) of
            Some block # _ \<Rightarrow> Ok block
          | _ \<Rightarrow> Err (No_block s)))"
proof (cases "filter (\<lambda>b. b \<noteq> None) (map (timely_block s) backups)")
  case (Cons b bs)
  then have "b \<in> set (filter (\<lambda>b. b \<noteq> None) (map (timely_block s) backups))" by simp
  then obtain y where "b = Some y" by auto
  with Cons show ?thesis
    by (auto simp: get_block_def assms backup_blocks split: sum.split)
qed (simp add: get_block_def assms backup_blocks split: sum.split)

theorem get_block_first_answer_witness:
  "get_block sample_net (sample_client 10) 64 = Ok 64 \<and>
   get_block sample_net (sample_client 10) 65 = Err (No_block 65)"
proof -
  have "endpoints sample_net (sample_client 10) = [sample_rpc 96, sample_rpc 128]"
    by (simp add: endpoints_def sample_client_def sample_net_def upt_rec)
  from get_block_first_answer [OF this] show ?thesis
    by (simp add: sample_rpc_def timely_block_def)
qed

end
