(* ===== verification/Rpc_Proxies.thy ===== *)
theory Rpc_Proxies
  imports Storage_Proofs Rust_Strings
begin

text \<open>
  The execution side, \<open>zk-api/src/rpc_proxies\<close>: \<open>multiplex\<close>, which runs one call on every client
  and takes the first success, and \<open>execution::Proxy\<close>, which asks several execution nodes for a
  storage proof and checks the answer before passing it on.

  A provider answers \<open>eth_getProof\<close> at a block number; \<open>ep_elapsed\<close> says whether its timer fired
  first. \<open>sel\<close> is \<open>select_ok\<close>, \<open>parse_url\<close> the URL parser with the connection of a provider.
\<close>

section \<open>The operations\<close>

record exec_provider =
  ep_get_proof :: "address \<Rightarrow> b256 list \<Rightarrow> u64 \<Rightarrow> string + account_proof_response"
  ep_elapsed :: bool

datatype proxy_error =
    No_clients
  | No_valid_urls
  | Node_error string
  | Node_timed_out
  | Bad_answer storage_error

definition multiplex ::
  "((proxy_error, 'a) res list \<Rightarrow> (proxy_error, 'a) res) \<Rightarrow> ('c \<Rightarrow> (proxy_error, 'a) res) \<Rightarrow> 'c list
    \<Rightarrow> (proxy_error, 'a) res" where
  "multiplex sel f clients = (if clients = [] then Err No_clients else sel (map f clients))"

definition get_proof_and_check ::
  "crypto \<Rightarrow> exec_provider \<Rightarrow> address \<Rightarrow> b256 list \<Rightarrow> u64 \<Rightarrow> b256
    \<Rightarrow> (proxy_error, account_proof_response) res" where
  "get_proof_and_check P client addr keys block_id root =
     (if ep_elapsed client then Err Node_timed_out
      else case ep_get_proof client addr keys block_id of
             Inl e \<Rightarrow> Err (Node_error e)
           | Inr proof \<Rightarrow>
               rbind (rmap_err Bad_answer (build_contract_storage keys proof)) (\<lambda>contract_storage.
               rbind (rmap_err Bad_answer (verify_storage_slot_proofs P root contract_storage))
                 (\<lambda>_. Ok proof)))"

definition proxy_get_proof ::
  "crypto
    \<Rightarrow> ((proxy_error, account_proof_response) res list \<Rightarrow> (proxy_error, account_proof_response) res)
    \<Rightarrow> exec_provider list \<Rightarrow> address \<Rightarrow> b256 list \<Rightarrow> u64 \<Rightarrow> b256
    \<Rightarrow> (proxy_error, account_proof_response) res" where
  "proxy_get_proof P sel providers addr keys block_id root =
     multiplex sel (\<lambda>client. get_proof_and_check P client addr keys block_id root) providers"

text \<open>The loop over the URLs of \<open>try_from_env\<close>: an invalid one is skipped.\<close>

fun push_providers :: "(string \<Rightarrow> 'p option) \<Rightarrow> string list \<Rightarrow> 'p list \<Rightarrow> 'p list" where
  "push_providers parse_url [] providers = providers"
| "push_providers parse_url (u # us) providers =
     (case parse_url u of
        Some provider \<Rightarrow> push_providers parse_url us (providers @ [provider])
      | None \<Rightarrow> push_providers parse_url us providers)"

definition proxy_try_from_env ::
  "(string \<Rightarrow> string option) \<Rightarrow> (string \<Rightarrow> 'p option) \<Rightarrow> (proxy_error, 'p list) res" where
  "proxy_try_from_env env parse_url =
     (let providers =
            (case env ''SOURCE_EXECUTION_RPC_URL'' of
               Some urls_str \<Rightarrow> push_providers parse_url (comma_list urls_str) []
             | None \<Rightarrow> [])
      in if providers = [] then Err No_valid_urls else Ok providers)"

definition proxy_from_env ::
  "(string \<Rightarrow> string option) \<Rightarrow> (string \<Rightarrow> 'p option) \<Rightarrow> (proxy_error, 'p list) res" where
  "proxy_from_env env parse_url =
     (case proxy_try_from_env env parse_url of Ok p \<Rightarrow> Ok p | _ \<Rightarrow> Panic Unwrap_failed)"

section \<open>Facts\<close>

text \<open>\<open>answer_proved\<close>: the answer is for these keys and every part of it is proved under the root.\<close>

definition answer_proved :: "crypto \<Rightarrow> b256 list \<Rightarrow> b256 \<Rightarrow> account_proof_response \<Rightarrow> bool" where
  "answer_proved P keys root proof \<longleftrightarrow>
     (\<exists>cs. build_contract_storage keys proof = Ok cs \<and> account_proved P root cs \<and>
        list_all (slot_proved P cs) (cs_storage_slots cs))"

lemma build_contract_storage_no_panic:
  "is_ok (build_contract_storage keys pr) \<or> is_err (build_contract_storage keys pr)"
  by (simp add: build_contract_storage_def)

lemma get_proof_and_check_Ok:
  "get_proof_and_check P client addr keys block root = Ok proof \<longleftrightarrow>
     \<not> ep_elapsed client \<and> ep_get_proof client addr keys block = Inr proof \<and>
     answer_proved P keys root proof"
proof (cases "ep_get_proof client addr keys block")
  case (Inr pr)
  have inner: "(\<exists>vs. verify_storage_slot_proofs P root cs = Ok vs) \<longleftrightarrow>
      account_proved P root cs \<and> list_all (slot_proved P cs) (cs_storage_slots cs)" for cs
    by (simp add: verify_storage_Ok_iff)
  from Inr show ?thesis
    by (auto simp: get_proof_and_check_def rbind_Ok_iff answer_proved_def inner)
qed (simp add: get_proof_and_check_def)

lemma multiplex_Ok:
  assumes "select_ok_spec sel" and "multiplex sel f clients = Ok x"
  shows "\<exists>c \<in> set clients. f c = Ok x"
proof -
  from assms(2) have ne: "map f clients \<noteq> []" and eq: "sel (map f clients) = Ok x"
    by (auto simp: multiplex_def split: if_splits)
  from select_ok_member [OF assms(1) ne] eq have "Ok x \<in> set (map f clients)" by simp
  then show ?thesis by (auto simp: image_iff)
qed

lemma multiplex_Err:
  assumes "select_ok_spec sel" and "multiplex sel f clients = Err e" and "c \<in> set clients"
  shows "is_err (f c)"
proof -
  from assms(3) have ne: "map f clients \<noteq> []" by auto
  with assms(2) have "is_err (sel (map f clients))" by (auto simp: multiplex_def split: if_splits)
  from select_ok_fails [OF assms(1) ne this] assms(3) show ?thesis by simp
qed

lemma execution_answer_proved:
  "select_ok_spec sel \<Longrightarrow> proxy_get_proof P sel providers addr keys block root = Ok pr \<Longrightarrow>
     answer_proved P keys root pr"
  using multiplex_Ok by (fastforce simp: proxy_get_proof_def get_proof_and_check_Ok)

lemma push_providers_eq:
  "push_providers parse us acc = acc @ map the (filter (\<lambda>p. p \<noteq> None) (map parse us))"
  by (induction us arbitrary: acc) (auto split: option.splits)

lemma proxy_try_from_env_Ok:
  "proxy_try_from_env env parse = Ok ps \<Longrightarrow>
     ps \<noteq> [] \<and> (\<exists>urls. env ''SOURCE_EXECUTION_RPC_URL'' = Some urls \<and>
       ps = map the (filter (\<lambda>p. p \<noteq> None) (map parse (comma_list urls))))"
  by (auto simp: proxy_try_from_env_def Let_def push_providers_eq split: if_splits option.splits)

section \<open>Properties\<close>

text \<open>
  C31: a storage proof the proxy returns was answered in time by one of the providers for the
  requested address, keys and block, and its account and every slot, in the order of the keys, are
  proved under the given state root; when the proxy reports an error, every provider failed.
\<close>

theorem execution_proof_verified:
  assumes sel: "select_ok_spec sel"
  shows "case proxy_get_proof P sel providers addr keys block root of
      Ok proof \<Rightarrow> (\<exists>client \<in> set providers. \<not> ep_elapsed client \<and>
         ep_get_proof client addr keys block = Inr proof) \<and> answer_proved P keys root proof
    | Err _ \<Rightarrow> (\<forall>client \<in> set providers. is_err (get_proof_and_check P client addr keys block root))
    | _ \<Rightarrow> True"
proof (cases "proxy_get_proof P sel providers addr keys block root")
  case (Ok pr)
  with multiplex_Ok [OF sel] show ?thesis
    by (fastforce simp: proxy_get_proof_def get_proof_and_check_Ok)
next
  case (Err e)
  then have "multiplex sel (\<lambda>client. get_proof_and_check P client addr keys block root) providers = Err e"
    by (simp add: proxy_get_proof_def)
  from multiplex_Err [OF sel this] Err show ?thesis by simp
qed simp_all

definition sample_provider :: "address \<Rightarrow> exec_provider" where
  "sample_provider a = \<lparr>ep_get_proof = (\<lambda>addr keys block. Inr (sample_response a (length keys))),
     ep_elapsed = False\<rparr>"

lemma sample_provider_run:
  "proxy_get_proof sample_crypto in_order [sample_provider a] addr [10, 11] block root
     = Ok (sample_response a 2)"
proof -
  have "answer_proved sample_crypto [10, 11] root (sample_response a 2)"
    by (auto simp: answer_proved_def build_contract_storage_def sample_response_def account_proved_def
        slot_proved_def slot_check_def sample_crypto_def numeral_2_eq_2)
  then have "get_proof_and_check sample_crypto (sample_provider a) addr [10, 11] block root
      = Ok (sample_response a 2)"
    unfolding get_proof_and_check_Ok by (simp add: sample_provider_def numeral_2_eq_2)
  then show ?thesis by (simp add: proxy_get_proof_def multiplex_def)
qed

theorem execution_proof_verified_witness:
  "\<exists>proof. proxy_get_proof sample_crypto in_order [sample_provider 3] 3 [10, 11] 5 42 = Ok proof \<and>
     answer_proved sample_crypto [10, 11] 42 proof"
  using execution_proof_verified [OF in_order_select_ok, where P = sample_crypto
      and providers = "[sample_provider 3]" and addr = 3 and keys = "[10, 11]" and block = 5
      and root = 42]
  by (simp add: sample_provider_run)

text \<open>
  C32: the check never compares the address of the answer with the requested one: a node can answer
  for another account with a valid proof of that account, and the proxy returns it.
\<close>

theorem execution_proof_address_unchecked:
  "\<exists>P providers addr keys block root proof.
     proxy_get_proof P in_order providers addr keys block root = Ok proof \<and> pr_address proof \<noteq> addr"
proof -
  have "pr_address (sample_response 4 2) \<noteq> 3" by (simp add: sample_response_def)
  with sample_provider_run [of 4 3 5 42] show ?thesis by blast
qed

text \<open>
  The proxy is built exactly when at least one of the trimmed, non-empty, comma-separated URLs
  is valid; its providers are those of the valid URLs, in order.
\<close>

theorem proxy_providers:
  "proxy_try_from_env env parse_url =
     (let valid = (case env ''SOURCE_EXECUTION_RPC_URL'' of
                     None \<Rightarrow> []
                   | Some urls \<Rightarrow> map the (filter (\<lambda>p. p \<noteq> None) (map parse_url (comma_list urls))))
      in if valid = [] then Err No_valid_urls else Ok valid)"
  by (simp add: proxy_try_from_env_def Let_def push_providers_eq split: option.split)

end
