(* ===== verification/Proof_Service.thy ===== *)
theory Proof_Service
  imports Store_Search Client_Outcomes Rpc_Proxies
begin

text \<open>
  \<open>ProofService\<close> of \<open>zk-api/src/proof_service.rs\<close>: accepting requests, following the finalized
  header, building the inputs of a proof, running the prover and storing its result, restarting
  orphaned tasks, and the main loop.

  An operation is a call over a \<open>world\<close>: the Redis server and the generation tasks spawned so far
  (\<open>tokio::spawn\<close> of \<open>generate_and_store_proof\<close>). What the network answers during one attempt to
  build inputs is an \<open>attempt\<close>. The libraries and the environment are the record \<open>runtime\<close>.
\<close>

section \<open>Types\<close>

record 'r world =
  srv :: 'r
  spawned :: "(proof_request \<times> proof_id) list"

definition on_srv :: "('r, 'e, 'a) act \<Rightarrow> ('r world, 'e, 'a) act" where
  "on_srv m = (\<lambda>w. case m (srv w) of (res, r) \<Rightarrow> (res, w\<lparr>srv := r\<rparr>))"

definition spawn :: "proof_request \<Rightarrow> proof_id \<Rightarrow> ('r world, 'e, unit) act" where
  "spawn rq pid = (\<lambda>w. (Ok (), w\<lparr>spawned := spawned w @ [(rq, pid)]\<rparr>))"

text \<open>The trait \<open>ProofBackend\<close> of \<open>zk-api/src/proof_backends/mod.rs\<close>.\<close>

record ('x, 'o) proof_backend =
  generate_proof :: "'x proof_inputs \<Rightarrow> string + 'o"
  vkey_digest :: bytes

record ('r, 'x, 'o) proof_service =
  ps_backend :: "('x, 'o) proof_backend"
  ps_store :: "('r, 'x, 'o) redis_store"

record 'x attempt =
  at_bootstrap :: "'x net"
  at_sync :: "'x net"
  at_nows :: "system_time \<times> system_time"
  at_providers :: "exec_provider list"

datatype task_error =
    Consensus_failed client_error
  | No_execution_in_update
  | Storage_proof_failed proxy_error
  | Storage_build_failed storage_error
  | Backend_failed string
  | Attempts_exhausted proof_id task_error
  | Slot_not_checkpoint u64

text \<open>
  \<open>rt_select_*\<close> are the two uses of \<open>select_ok\<close>, \<open>rt_show\<close> is the text of an error, \<open>rt_fuel\<close> the
  bound of the model on the loops that the program does not bound.
\<close>

record 'x runtime =
  rt_chk :: bool
  rt_helios :: "'x helios"
  rt_crypto :: crypto
  rt_env :: "string \<Rightarrow> string option"
  rt_networks :: "u64 \<Rightarrow> 'x base_config option"
  rt_select_store :: "(client_error, 'x store) res list \<Rightarrow> (client_error, 'x store) res"
  rt_select_proof ::
    "(proxy_error, account_proof_response) res list \<Rightarrow> (proxy_error, account_proof_response) res"
  rt_show :: "task_error \<Rightarrow> string"
  rt_fuel :: nat

definition INITIAL_PROOF_GENERATION_LOCK_DURATION_MS :: u64 where
  "INITIAL_PROOF_GENERATION_LOCK_DURATION_MS = 1000"

definition MAX_GET_PROOF_INPUTS_ATTEMPTS :: nat where
  "MAX_GET_PROOF_INPUTS_ATTEMPTS = 3"

definition MAX_FINALIZED_HEADER_AGE_SECS :: nat where
  "MAX_FINALIZED_HEADER_AGE_SECS = 12 * 32 * 3 + 180"

definition new_id ::
  "'x runtime \<Rightarrow> ('r, 'x, 'o) proof_service \<Rightarrow> proof_request \<Rightarrow> proof_id" where
  "new_id rt ps rq = proof_id_new (rt_crypto rt) (rs_text (ps_store ps)) rq"

section \<open>The API-facing operations\<close>

definition vkey_digest_bytes :: "('r, 'x, 'o) proof_service \<Rightarrow> bytes" where
  "vkey_digest_bytes ps = vkey_digest (ps_backend ps)"

definition get_proof ::
  "('r, 'x, 'o) proof_service \<Rightarrow> proof_id
    \<Rightarrow> ('r world, proof_service_error, 'o proof_request_state option) act" where
  "get_proof ps pid = on_srv (get_proof_state (ps_store ps) pid)"

record finalized_header_response =
  fhr_slot :: u64
  fhr_checkpoint :: string

definition get_finalized_header_details ::
  "'x runtime \<Rightarrow> ('r, 'x, 'o) proof_service
    \<Rightarrow> ('r world, proof_service_error, finalized_header_response option) act" where
  "get_finalized_header_details rt ps =
     abind (on_srv (read_finalized_header (ps_store ps))) (\<lambda>h.
       case h of
         Some header \<Rightarrow>
           aret (Some \<lparr>fhr_slot = slot (beacon header),
             fhr_checkpoint = t_display (rs_text (ps_store ps)) (h_beacon_root (rt_helios rt) (beacon header))\<rparr>)
       | None \<Rightarrow> aret None)"

text \<open>
  \<open>with_global_lock\<close> runs its argument whether or not the lock was acquired, and then deletes the
  lock's key in either case.
\<close>

definition finally_act ::
  "('w, 'e, 'a) act \<Rightarrow> ('w, 'e, unit) act \<Rightarrow> ('w, 'e, 'a) act" where
  "finally_act m fin = (\<lambda>w. case m w of
      (Ok x, w') \<Rightarrow> (Ok x, snd (fin w'))
    | (Err e, w') \<Rightarrow> (Err e, snd (fin w'))
    | (Panic p, w') \<Rightarrow> (Panic p, w')
    | (Diverge, w') \<Rightarrow> (Diverge, w'))"

definition with_global_lock ::
  "('r, 'x, 'o) proof_service \<Rightarrow> (bool \<Rightarrow> ('r world, proof_service_error, 'a) act)
    \<Rightarrow> ('r world, proof_service_error, 'a) act" where
  "with_global_lock ps f =
     abind (on_srv (acquire_global_lock (ps_store ps))) (\<lambda>acquired.
       finally_act (f acquired) (on_srv (release_global_lock (ps_store ps))))"

text \<open>
  The common tail of three places in the code: try the generation lock and spawn the task only if it
  was acquired; a held lock and a Redis error are both only logged.
\<close>

definition try_spawn ::
  "'x runtime \<Rightarrow> ('r, 'x, 'o) proof_service \<Rightarrow> proof_request
    \<Rightarrow> ('r world, proof_service_error, unit) act" where
  "try_spawn rt ps rq =
     (let pid = new_id rt ps rq in
      amatch (on_srv (acquire_proof_generation_lock (ps_store ps) pid
               INITIAL_PROOF_GENERATION_LOCK_DURATION_MS))
        (\<lambda>acquired. if acquired then spawn rq pid else aret ())
        (\<lambda>_. aret ()))"

definition initialize_request_locked ::
  "'x runtime \<Rightarrow> ('r, 'x, 'o) proof_service \<Rightarrow> u64 \<Rightarrow> u64 \<Rightarrow> proof_request
    \<Rightarrow> ('r world, proof_service_error, proof_request_status) act" where
  "initialize_request_locked rt ps latest_finalized_slot latest_finalized_block rq =
     (let pid = new_id rt ps rq;
          proof_state = new_request_state rq
      in if src_chain_block_number rq \<le> latest_finalized_block \<and>
            dst_chain_contract_from_head rq < latest_finalized_slot
         then
           abind (on_srv (set_proof_state (ps_store ps) pid (proof_state\<lparr>status := Generating\<rparr>))) (\<lambda>_.
           abind (try_spawn rt ps rq) (\<lambda>_. aret Generating))
         else
           abind (on_srv (set_proof_state (ps_store ps) pid (proof_state\<lparr>status := Waiting_for_finality\<rparr>)))
             (\<lambda>_. aret Waiting_for_finality))"

definition process_request_locked ::
  "'x runtime \<Rightarrow> ('r, 'x, 'o) proof_service \<Rightarrow> proof_request \<Rightarrow> bool
    \<Rightarrow> ('r world, proof_service_error, proof_id \<times> proof_request_status) act" where
  "process_request_locked rt ps rq redis_lock_acquired =
     (let pid = new_id rt ps rq in
      abind (get_proof ps pid) (\<lambda>proof_request_state.
      if redis_lock_acquired then
        abind (on_srv (read_finalized_header (ps_store ps))) (\<lambda>h.
        case h of
          None \<Rightarrow> afail (Internal ''No finalized header available in redis. Wait and try again'')
        | Some hdr \<Rightarrow>
            (case execution hdr of
               None \<Rightarrow> afail (Internal ''Failed to get execution header.'')
             | Some ex \<Rightarrow>
                 let init = abind (initialize_request_locked rt ps (slot (beacon hdr))
                                     (block_number ex) rq) (\<lambda>s. aret (pid, s))
                 in case proof_request_state of
                      Some state \<Rightarrow> if status state = Errored then init else aret (pid, status state)
                    | None \<Rightarrow> init))
      else
        case proof_request_state of
          Some state \<Rightarrow> aret (pid, status state)
        | None \<Rightarrow> afail (Lock_contention pid)))"

definition request_proof ::
  "'x runtime \<Rightarrow> ('r, 'x, 'o) proof_service \<Rightarrow> proof_request
    \<Rightarrow> ('r world, proof_service_error, proof_id \<times> proof_request_status) act" where
  "request_proof rt ps rq = with_global_lock ps (process_request_locked rt ps rq)"

section \<open>A new finalized header\<close>

text \<open>The loop over the waiting requests: the states to store and the requests to go on with.\<close>

definition promotable :: "u64 \<Rightarrow> u64 \<Rightarrow> 'o proof_request_state \<Rightarrow> bool" where
  "promotable finalized_block_number finalized_slot st \<longleftrightarrow>
     status st = Waiting_for_finality \<and>
     src_chain_block_number (request st) \<le> finalized_block_number \<and>
     dst_chain_contract_from_head (request st) < finalized_slot"

fun collect_promoted ::
  "'x runtime \<Rightarrow> ('r, 'x, 'o) proof_service \<Rightarrow> u64 \<Rightarrow> u64 \<Rightarrow> 'o proof_request_state list
    \<Rightarrow> (proof_id \<times> 'o proof_request_state) list \<Rightarrow> proof_request list
    \<Rightarrow> (proof_id \<times> 'o proof_request_state) list \<times> proof_request list" where
  "collect_promoted rt ps block fslot [] updated further = (updated, further)"
| "collect_promoted rt ps block fslot (st # sts) updated further =
     (if promotable block fslot st
      then collect_promoted rt ps block fslot sts
             (updated @ [(new_id rt ps (request st), st\<lparr>status := Generating\<rparr>)]) (further @ [request st])
      else collect_promoted rt ps block fslot sts updated further)"

definition process_new_finalized_header_locked ::
  "'x runtime \<Rightarrow> ('r, 'x, 'o) proof_service \<Rightarrow> 'x header \<Rightarrow> ('r world, proof_service_error, unit) act"
  where
  "process_new_finalized_header_locked rt ps latest =
     abind (on_srv (read_finalized_header (ps_store ps))) (\<lambda>stored.
     let should_update_header =
           (case stored of
              Some redis_header \<Rightarrow> slot (beacon redis_header) < slot (beacon latest)
            | None \<Rightarrow> True)
     in if should_update_header then
          abind (on_srv (find_requests_by_status (ps_store ps) (rt_fuel rt) Waiting_for_finality))
            (\<lambda>waiting_requests.
          case execution latest of
            None \<Rightarrow> afail (Internal ''Failed to get execution header from finality update'')
          | Some ex \<Rightarrow>
              (case collect_promoted rt ps (block_number ex) (slot (beacon latest)) waiting_requests [] [] of
                 (updated_states, requests_to_process_further) \<Rightarrow>
                   abind (on_srv (update_finalized_header_and_proof_states (ps_store ps) latest updated_states))
                     (\<lambda>_. afor requests_to_process_further (try_spawn rt ps))))
        else aret ())"

definition process_new_finalized_header ::
  "'x runtime \<Rightarrow> ('r, 'x, 'o) proof_service \<Rightarrow> 'x header \<Rightarrow> ('r world, proof_service_error, bool) act"
  where
  "process_new_finalized_header rt ps latest =
     with_global_lock ps (\<lambda>lock_acquired.
       if lock_acquired
       then abind (process_new_finalized_header_locked rt ps latest) (\<lambda>_. aret True)
       else aret False)"

section \<open>Orphaned tasks\<close>

text \<open>
  The function has two parts, with anything in between: it reads which requests are generating, and
  then tries the lock of each of them.
\<close>

definition restart_each ::
  "'x runtime \<Rightarrow> ('r, 'x, 'o) proof_service \<Rightarrow> 'o proof_request_state list
    \<Rightarrow> ('r world, proof_service_error, unit) act" where
  "restart_each rt ps generating_requests =
     (if generating_requests = [] then aret ()
      else afor generating_requests (\<lambda>proof_state. try_spawn rt ps (request proof_state)))"

definition restart_orphaned_proofs ::
  "'x runtime \<Rightarrow> ('r, 'x, 'o) proof_service \<Rightarrow> ('r world, proof_service_error, unit) act" where
  "restart_orphaned_proofs rt ps =
     abind (on_srv (find_requests_by_status (ps_store ps) (rt_fuel rt) Generating)) (restart_each rt ps)"

lemma restart_each_loop: "restart_each rt ps gs = afor (map request gs) (try_spawn rt ps)"
proof -
  have "afor gs (\<lambda>st. try_spawn rt ps (request st)) = afor (map request gs) (try_spawn rt ps)"
    by (induction gs) simp_all
  then show ?thesis by (cases gs) (simp_all add: restart_each_def)
qed

section \<open>The inputs of a proof\<close>

definition get_proof_inputs_once ::
  "'x runtime \<Rightarrow> proof_request \<Rightarrow> 'x attempt \<Rightarrow> (task_error, 'x proof_inputs) res" where
  "get_proof_inputs_once rt rq at =
     rbind (rmap_err Consensus_failed
              (consensus_get_proof_inputs (rt_chk rt) (rt_helios rt) (rt_select_store rt) (rt_env rt)
                 (rt_networks rt) (at_bootstrap at) (at_sync at) (at_nows at)
                 (dst_chain_contract_from_header rq))) (\<lambda>cpi.
     case execution (fin_header (cpi_finality cpi)) of
       None \<Rightarrow> Err No_execution_in_update
     | Some ex \<Rightarrow>
         rbind (rmap_err Storage_proof_failed
                  (proxy_get_proof (rt_crypto rt) (rt_select_proof rt) (at_providers at)
                     (src_chain_contract_address rq) (src_chain_storage_slots rq) (block_number ex)
                     (state_root ex))) (\<lambda>proof.
         rbind (rmap_err Storage_build_failed
                  (build_contract_storage (src_chain_storage_slots rq) proof)) (\<lambda>cs.
         Ok \<lparr>sync_committee_updates = cpi_updates cpi, finality_upd = cpi_finality cpi,
             expected_slot = cpi_expected_slot cpi, light_store = cpi_initial_store cpi,
             genesis_root = cfg_genesis_root (cpi_config cpi), forks = cfg_forks (cpi_config cpi),
             contract_storage_slots = cs\<rparr>)))"

text \<open>The retry loop; \<open>attempt\<close> counts the failures so far.\<close>

function get_proof_inputs_loop ::
  "'x runtime \<Rightarrow> proof_id \<Rightarrow> proof_request \<Rightarrow> (nat \<Rightarrow> 'x attempt) \<Rightarrow> nat
    \<Rightarrow> (task_error, 'x proof_inputs) res" where
  "get_proof_inputs_loop rt pid rq attempts attempt =
     (case get_proof_inputs_once rt rq (attempts attempt) of
        Ok inputs \<Rightarrow> Ok inputs
      | Err e \<Rightarrow>
          if MAX_GET_PROOF_INPUTS_ATTEMPTS \<le> attempt + 1 then Err (Attempts_exhausted pid e)
          else get_proof_inputs_loop rt pid rq attempts (attempt + 1)
      | Panic p \<Rightarrow> Panic p
      | Diverge \<Rightarrow> Diverge)"
  by pat_completeness auto
termination
  by (relation "measure (\<lambda>(_, _, _, _, attempt). 3 - attempt)")
     (auto simp: MAX_GET_PROOF_INPUTS_ATTEMPTS_def)

declare get_proof_inputs_loop.simps [simp del]

definition get_proof_inputs ::
  "'x runtime \<Rightarrow> ('r, 'x, 'o) proof_service \<Rightarrow> proof_request \<Rightarrow> (nat \<Rightarrow> 'x attempt)
    \<Rightarrow> (task_error, 'x proof_inputs) res" where
  "get_proof_inputs rt ps rq attempts = get_proof_inputs_loop rt (new_id rt ps rq) rq attempts 0"

end
