(* ===== verification/Proof_Runtime.thy ===== *)
theory Proof_Runtime
  imports Proof_Service
begin

text \<open>
  The long-running parts of \<open>zk-api/src/proof_service.rs\<close>: a generation task and the task that
  extends its lock, the initial checkpoint, the light client's start, and one turn of the main loop
  \<open>run\<close> with its steps.
\<close>

section \<open>A generation task\<close>

text \<open>What the task stores: the proof, or the error, with the fields of a fresh state.\<close>

definition proof_output_result ::
  "('r, 'x, 'o) proof_service \<Rightarrow> (task_error, 'x proof_inputs) res \<Rightarrow> (task_error, 'o) res" where
  "proof_output_result ps inputs =
     rbind inputs (\<lambda>inp.
       let s = slot (beacon (fin_header (finality_upd inp)))
       in if s mod 32 = 0
          then rmap_err Backend_failed (of_sum (generate_proof (ps_backend ps) inp))
          else Err (Slot_not_checkpoint s))"

definition updated_proof_state ::
  "'x runtime \<Rightarrow> proof_request \<Rightarrow> (task_error + 'o) \<Rightarrow> 'o proof_request_state" where
  "updated_proof_state rt rq out =
     (case out of
        Inr proof_output \<Rightarrow>
          (new_request_state rq)\<lparr>status := Success, proof_data := Some proof_output\<rparr>
      | Inl e \<Rightarrow>
          (new_request_state rq)\<lparr>status := Errored, error_message := Some (rt_show rt e)\<rparr>)"

text \<open>The loop that stores the state; the program retries for ever, the model \<open>fuel\<close> times.\<close>

fun store_state_loop ::
  "('r, 'x, 'o) redis_store \<Rightarrow> proof_id \<Rightarrow> 'o proof_request_state \<Rightarrow> nat
    \<Rightarrow> ('r, proof_service_error, unit) act" where
  "store_state_loop S pid st 0 = alift Diverge"
| "store_state_loop S pid st (Suc fuel) =
     amatch (set_proof_state S pid st) (\<lambda>_. aret ()) (\<lambda>_. store_state_loop S pid st fuel)"

definition generate_and_store_proof ::
  "'x runtime \<Rightarrow> ('r, 'x, 'o) proof_service \<Rightarrow> (nat \<Rightarrow> 'x attempt) \<Rightarrow> proof_request \<Rightarrow> proof_id
    \<Rightarrow> ('r world, proof_service_error, unit) act" where
  "generate_and_store_proof rt ps attempts rq pid =
     (case proof_output_result ps (get_proof_inputs rt ps rq attempts) of
        Ok out \<Rightarrow> on_srv (store_state_loop (ps_store ps) pid (updated_proof_state rt rq (Inr out)) (rt_fuel rt))
      | Err e \<Rightarrow> on_srv (store_state_loop (ps_store ps) pid (updated_proof_state rt rq (Inl e)) (rt_fuel rt))
      | Panic p \<Rightarrow> alift (Panic p)
      | Diverge \<Rightarrow> alift Diverge)"

text \<open>
  The lock-extension task, over the order in which its two events occur: the cancellation (the
  generation task's guard is dropped when it ends, however it ends) and a tick of the ten-second
  interval. It returns whether it is still running.
\<close>

definition LOCK_EXTENSION_INTERVAL_SECS :: u64 where
  "LOCK_EXTENSION_INTERVAL_SECS = 10"

definition LOCK_EXTENSION_BUFFER_SECS :: u64 where
  "LOCK_EXTENSION_BUFFER_SECS = REDIS_TIMEOUT_SECS + 1"

datatype extension_event = Cancelled | Tick

fun lock_extension_task ::
  "('r, 'x, 'o) redis_store \<Rightarrow> proof_id \<Rightarrow> extension_event list \<Rightarrow> ('r, proof_service_error, bool) act"
  where
  "lock_extension_task S pid [] = aret True"
| "lock_extension_task S pid (Cancelled # es) =
     abind (release_proof_generation_lock S pid) (\<lambda>_. aret False)"
| "lock_extension_task S pid (Tick # es) =
     amatch (extend_proof_generation_lock S pid ((LOCK_EXTENSION_INTERVAL_SECS + LOCK_EXTENSION_BUFFER_SECS) * 1000))
       (\<lambda>extended. if extended then lock_extension_task S pid es else aret False)
       (\<lambda>_. abind (release_proof_generation_lock S pid) (\<lambda>_. aret False))"

section \<open>Starting the light client\<close>

datatype run_error =
    Store_failed proof_service_error
  | Init_checkpoint_invalid
  | Init_checkpoint_missing
  | Client_init_failed client_error
  | Header_too_old nat
  | Header_missing

definition get_initial_checkpoint ::
  "'x runtime \<Rightarrow> ('r, 'x, 'o) proof_service \<Rightarrow> ('r world, run_error, b256) act" where
  "get_initial_checkpoint rt ps =
     amatch (on_srv (read_finalized_header (ps_store ps)))
       (\<lambda>h. case h of
          Some hdr \<Rightarrow> aret (h_beacon_root (rt_helios rt) (beacon hdr))
        | None \<Rightarrow>
            (case rt_env rt ''INIT_CHECKPOINT'' of
               Some checkpoint_hex \<Rightarrow>
                 (case t_parse_b256 (rs_text (ps_store ps)) checkpoint_hex of
                    Some checkpoint \<Rightarrow> aret checkpoint
                  | None \<Rightarrow> afail Init_checkpoint_invalid)
             | None \<Rightarrow> afail Init_checkpoint_missing))
       (\<lambda>e. afail (Store_failed e))"

text \<open>
  The delay to the first tick: \<open>to_std().unwrap()\<close> panics on a negative one. \<open>now1\<close> and \<open>now2\<close> are
  the clock readings.
\<close>

definition init_light_client ::
  "'x runtime \<Rightarrow> ('r, 'x, 'o) proof_service \<Rightarrow> 'x attempt \<Rightarrow> system_time \<times> system_time
    \<Rightarrow> ('r world, run_error, 'x client \<times> nat) act" where
  "init_light_client rt ps at nows =
     abind (get_initial_checkpoint rt ps) (\<lambda>init_checkpoint.
     abind (alift (rmap_err Client_init_failed
              (client_from_env (rt_helios rt) (rt_env rt) (rt_networks rt)))) (\<lambda>client.
     (case client_sync (rt_chk rt) (rt_helios rt) (rt_select_store rt) (at_bootstrap at) (at_sync at)
             (at_nows at) init_checkpoint client of
        (synced, client') \<Rightarrow>
          abind (alift (rmap_err Client_init_failed synced)) (\<lambda>_.
          abind (alift (duration_until_next_update (rt_chk rt) (rt_helios rt) (cl_config client')
                   (fst nows) (snd nows))) (\<lambda>secs.
          if secs < 0 then alift (Panic Unwrap_failed) else aret (client', nat secs))))))"

section \<open>The main loop\<close>

text \<open>The loop's variables, beside the world.\<close>

record 'x run_vars =
  light_client :: "'x client"
  should_advance_redis_state :: bool

text \<open>Best effort: an error is only logged.\<close>

definition update_redis_state ::
  "'x runtime \<Rightarrow> ('r, 'x, 'o) proof_service \<Rightarrow> 'x header \<Rightarrow> bool \<Rightarrow> ('r world, run_error, bool) act" where
  "update_redis_state rt ps hdr should_advance =
     amatch (process_new_finalized_header rt ps hdr)
       (\<lambda>header_equal_or_newer. aret (if header_equal_or_newer then False else should_advance))
       (\<lambda>_. aret should_advance)"

definition advance_light_client ::
  "'x runtime \<Rightarrow> 'x net \<Rightarrow> system_time \<times> system_time \<Rightarrow> 'x run_vars
    \<Rightarrow> (run_error, 'x run_vars) res" where
  "advance_light_client rt net nows v =
     (let prev_finalized_slot = fin_slot (cl_store (light_client v))
      in case client_advance (rt_helios rt) (rt_chk rt) net nows (light_client v) of
           (Ok _, client) \<Rightarrow>
             (let new_finalized_slot = fin_slot (cl_store client)
              in Ok (v\<lparr>light_client := client,
                       should_advance_redis_state :=
                         (if prev_finalized_slot < new_finalized_slot then True
                          else should_advance_redis_state v)\<rparr>))
         | (Err _, client) \<Rightarrow> Ok (v\<lparr>light_client := client\<rparr>)
         | (Panic p, client) \<Rightarrow> Panic p
         | (Diverge, client) \<Rightarrow> Diverge)"

text \<open>The age of the stored header, in nanoseconds; \<open>age\<close> panics for a slot in the future.\<close>

definition get_stored_header_age ::
  "bool \<Rightarrow> ('r, 'x, 'o) redis_store \<Rightarrow> 'x config \<Rightarrow> system_time
    \<Rightarrow> ('r, proof_service_error, nat option) act" where
  "get_stored_header_age chk S cfg now =
     abind (read_finalized_header S) (\<lambda>h.
       case h of
         Some hdr \<Rightarrow> alift (rbind (age chk cfg now (slot (beacon hdr))) (\<lambda>a. Ok (Some a)))
       | None \<Rightarrow> aret None)"

definition check_header_health ::
  "bool \<Rightarrow> ('r, 'x, 'o) redis_store \<Rightarrow> 'x config \<Rightarrow> system_time \<Rightarrow> ('r, run_error, unit) act" where
  "check_header_health chk S cfg now =
     amatch (get_stored_header_age chk S cfg now)
       (\<lambda>a. case a of
          Some header_age \<Rightarrow>
            if MAX_FINALIZED_HEADER_AGE_SECS * 10 ^ 9 < header_age then afail (Header_too_old header_age)
            else aret ()
        | None \<Rightarrow> afail Header_missing)
       (\<lambda>_. aret ())"

text \<open>What happens around one turn: the clock at the health check, and the endpoints' answers.\<close>

record 'x turn =
  tn_health_now :: system_time
  tn_net :: "'x net"
  tn_nows :: "system_time \<times> system_time"

definition run_turn ::
  "'x runtime \<Rightarrow> ('r, 'x, 'o) proof_service \<Rightarrow> 'x turn \<Rightarrow> 'x run_vars \<Rightarrow> ('r world, run_error, 'x run_vars) act"
  where
  "run_turn rt ps tn v =
     abind (if should_advance_redis_state v
            then update_redis_state rt ps (finalized_header (cl_store (light_client v)))
                   (should_advance_redis_state v)
            else aret (should_advance_redis_state v)) (\<lambda>should_advance.
     abind (amatch (restart_orphaned_proofs rt ps) (\<lambda>_. aret ()) (\<lambda>_. aret ())) (\<lambda>_.
     abind (on_srv (check_header_health (rt_chk rt) (ps_store ps) (cl_config (light_client v))
              (tn_health_now tn))) (\<lambda>_.
     alift (advance_light_client rt (tn_net tn) (tn_nows tn)
              (v\<lparr>should_advance_redis_state := should_advance\<rparr>)))))"

text \<open>\<open>run\<close> over the turns that happen; it returns only with an error.\<close>

fun run_loop ::
  "'x runtime \<Rightarrow> ('r, 'x, 'o) proof_service \<Rightarrow> 'x turn list \<Rightarrow> 'x run_vars
    \<Rightarrow> ('r world, run_error, 'x run_vars) act" where
  "run_loop rt ps [] v = aret v"
| "run_loop rt ps (tn # tns) v = abind (run_turn rt ps tn v) (run_loop rt ps tns)"

definition run ::
  "'x runtime \<Rightarrow> ('r, 'x, 'o) proof_service \<Rightarrow> 'x attempt \<Rightarrow> system_time \<times> system_time \<Rightarrow> 'x turn list
    \<Rightarrow> ('r world, run_error, 'x run_vars) act" where
  "run rt ps at nows tns =
     abind (init_light_client rt ps at nows) (\<lambda>(client, delay).
       run_loop rt ps tns \<lparr>light_client = client, should_advance_redis_state = True\<rparr>)"

end
