(* ===== verification/Service_Samples.thy ===== *)
theory Service_Samples
  imports Proof_Runtime
begin

text \<open>
  A concrete service over \<open>sample_redis\<close>, and a few of its runs, for the witnesses of the theories
  that follow. The keys stay symbolic: only that they differ is used.
\<close>

definition sample_runtime :: "nat runtime" where
  "sample_runtime = \<lparr>rt_chk = True, rt_helios = sample_helios, rt_crypto = sample_crypto,
     rt_env = sample_env, rt_networks = sample_networks, rt_select_store = in_order,
     rt_select_proof = in_order, rt_show = (\<lambda>_. ''failed''), rt_fuel = 3\<rparr>"

definition sample_service :: "((string \<times> string) list, nat, string) proof_service" where
  "sample_service = \<lparr>ps_backend = \<lparr>generate_proof = (\<lambda>_. Inr ''proof''), vkey_digest = be_bytes 32 (7 :: b256)\<rparr>,
     ps_store = sample_store_conn\<rparr>"

lemma sample_service_simps [simp]:
  "ps_store sample_service = sample_store_conn"
  "rt_crypto sample_runtime = sample_crypto"
  "rt_fuel sample_runtime = 3"
  "new_id sample_runtime sample_service sample_request = sample_pid"
  by (simp_all add: sample_service_def sample_runtime_def new_id_def sample_pid_def)

definition sample_world :: "(string \<times> string) list \<Rightarrow> (string \<times> string) list world" where
  "sample_world r = \<lparr>srv = r, spawned = []\<rparr>"

lemma sample_world_simps [simp]: "srv (sample_world r) = r" "spawned (sample_world r) = []"
  by (simp_all add: sample_world_def)

abbreviation sample_key :: string where
  "sample_key \<equiv> proof_state_key sample_store_conn sample_pid"

abbreviation sample_header_key :: string where
  "sample_header_key \<equiv> finalized_header_key sample_store_conn"

abbreviation sample_lock_key :: string where
  "sample_lock_key \<equiv> proof_generation_lock_key sample_store_conn sample_pid"

abbreviation sample_global_key :: string where
  "sample_global_key \<equiv> global_lock_key sample_store_conn"

lemma sample_text_ok: "text_ok sample_store_conn"
  using lawsD(2) [OF sample_laws] .

lemma sample_lock_prefix [simp]:
  "\<not> starts_with (global_lock_key sample_store_conn) ''p:state:''"
  "\<not> starts_with (proof_generation_lock_key sample_store_conn pid) ''p:state:''"
  by (simp_all add: starts_with_def global_lock_key_def proof_generation_lock_key_def)

lemmas sample_keys = state_key_not_header [OF sample_text_ok] lock_keys_other sample_key_facts

lemma sample_json_simps:
  "de_header sample_json ''32'' = Inr (sample_header 32)"
  "de_header sample_json ''64'' = Inr (sample_header 64)"
  "ser_header sample_json (sample_header 64) = Inr ''64''"
  "ser_header sample_json (sample_header 32) = Inr ''32''"
  "de_state sample_json ''w'' = Inr (sample_state Waiting_for_finality)"
  "de_state sample_json ''g'' = Inr (sample_state Generating)"
  "de_state sample_json ''s'' = Inr (sample_state Success)"
  "de_state sample_json ''e'' = Inr (sample_state Errored)"
  "ser_state sample_json (sample_state s) = Inr (sample_status_text s)"
  by (simp_all add: sample_json_def sample_header_def sample_exec_def)

lemma sample_state_forms:
  "(sample_state Waiting_for_finality)\<lparr>status := Generating\<rparr> = sample_state Generating"
  "(new_request_state sample_request)\<lparr>status := Generating\<rparr> = sample_state Generating"
  "(new_request_state sample_request)\<lparr>status := Waiting_for_finality\<rparr> = sample_state Waiting_for_finality"
  by (simp_all add: sample_state_def new_request_state_def)

lemma sample_header_fields [simp]:
  "slot (beacon (sample_header s)) = s" "execution (sample_header s) = Some (sample_exec s)"
  "block_number (sample_exec s) = s"
  by (simp_all add: sample_header_def sample_exec_def)

lemma sample_request_fields [simp]:
  "src_chain_block_number sample_request = 50" "dst_chain_contract_from_head sample_request = 40"
  "src_chain_contract_address sample_request = 3" "src_chain_storage_slots sample_request = [10, 11]"
  "dst_chain_contract_from_header sample_request = 64" "rq_vkey sample_request = 7"
  by (simp_all add: sample_request_def)

lemmas sample_run_simps = on_srv_def abind_def amatch_def aret_def afail_def alift_def
  redis_call_def sample_redis_def sample_json_simps sample_state_forms sample_keys json_res_def Let_def

text \<open>A newer header promotes the waiting request and spawns its task.\<close>

lemma sample_process_header:
  "process_new_finalized_header sample_runtime sample_service (sample_header 64)
     (sample_world [(sample_header_key, ''32''), (sample_key, ''w'')]) =
   (Ok True, \<lparr>srv = [(sample_header_key, ''64''), (sample_key, ''g''), (sample_lock_key, ''locked'')],
      spawned = [(sample_request, sample_pid)]\<rparr>)"
  by (simp add: process_new_finalized_header_def with_global_lock_def acquire_global_lock_def
      try_acquire_lock_def finally_act_def process_new_finalized_header_locked_def
      read_finalized_header_def read_json_value_def find_requests_by_status_def numeral_3_eq_3
      scan_batch_def promotable_def update_finalized_header_and_proof_states_def state_cmd_def
      try_spawn_def acquire_proof_generation_lock_def spawn_def release_global_lock_def
      ignore_result_def sample_world_def sample_run_simps)

text \<open>A new request below the finalized header starts generating at once.\<close>

lemma sample_request_run:
  "request_proof sample_runtime sample_service sample_request
     (sample_world [(sample_header_key, ''64'')]) =
   (Ok (sample_pid, Generating),
    \<lparr>srv = [(sample_header_key, ''64''), (sample_key, ''g''), (sample_lock_key, ''locked'')],
      spawned = [(sample_request, sample_pid)]\<rparr>)"
  by (simp add: request_proof_def with_global_lock_def acquire_global_lock_def
      try_acquire_lock_def finally_act_def process_request_locked_def get_proof_def get_proof_state_def
      read_finalized_header_def read_json_value_def initialize_request_locked_def set_proof_state_def
      try_spawn_def acquire_proof_generation_lock_def spawn_def release_global_lock_def
      ignore_result_def sample_world_def sample_run_simps)

text \<open>A request that finds the global lock held fails, and the lock is gone afterwards.\<close>

lemma sample_contended_request:
  "request_proof sample_runtime sample_service sample_request
     (sample_world [(sample_global_key, ''locked'')]) =
   (Err (Lock_contention sample_pid), sample_world [])"
  by (simp add: request_proof_def with_global_lock_def acquire_global_lock_def
      try_acquire_lock_def finally_act_def process_request_locked_def get_proof_def get_proof_state_def
      read_json_value_def release_global_lock_def ignore_result_def sample_world_def sample_run_simps)

end
