(* ===== verification/Service_Invariant.thy ===== *)
theory Service_Invariant
  imports Service_Samples
begin

text \<open>
  Safety on a shared server: whatever the workers do, in whatever order their commands interleave
  and however they end, every stored state stays well-formed and under the key of its own request,
  and every generation task carries the identifier of its request.
\<close>

definition service_inv ::
  "'x runtime \<Rightarrow> ('r, 'x, 'o) proof_service \<Rightarrow> ('r \<Rightarrow> keyspace) \<Rightarrow> 'r world \<Rightarrow> bool" where
  "service_inv rt ps live w \<longleftrightarrow>
     store_inv (rt_crypto rt) (ps_store ps) (live (srv w)) \<and>
     (\<forall>(rq, pid) \<in> set (spawned w). pid = new_id rt ps rq)"

definition service_shared ::
  "'x runtime \<Rightarrow> ('r, 'x, 'o) proof_service \<Rightarrow> ('r \<Rightarrow> 'r \<Rightarrow> bool) \<Rightarrow> ('r \<Rightarrow> keyspace) \<Rightarrow> bool" where
  "service_shared rt ps rely live \<longleftrightarrow> shared (rt_crypto rt) (ps_store ps) rely live"

lemma ensures_on_srv:
  assumes "ensures (inv_on (rt_crypto rt) (ps_store ps) live) m Q"
  shows "ensures (service_inv rt ps live) (on_srv m) Q"
proof (rule ensuresI)
  fix w res w' assume inv: "service_inv rt ps live w" and run: "on_srv m w = (res, w')"
  then obtain r where m: "m (srv w) = (res, r)" and w': "w' = w\<lparr>srv := r\<rparr>"
    by (auto simp: on_srv_def split: prod.splits)
  from inv have "store_inv (rt_crypto rt) (ps_store ps) (live (srv w))" by (simp add: service_inv_def)
  with assms m have "store_inv (rt_crypto rt) (ps_store ps) (live r) \<and> (\<forall>x. res = Ok x \<longrightarrow> Q x)"
    unfolding ensures_def by blast
  with inv w' show "service_inv rt ps live w' \<and> (\<forall>x. res = Ok x \<longrightarrow> Q x)"
    by (simp add: service_inv_def)
qed

lemma preserves_spawn:
  "pid = new_id rt ps rq \<Longrightarrow> preserves (service_inv rt ps live) (spawn rq pid)"
  by (auto simp: ensures_def spawn_def service_inv_def)

lemma ensures_finally:
  assumes "ensures I m Q" and "preserves I fin"
  shows "ensures I (finally_act m fin) Q"
proof (rule ensuresI)
  fix w res w' assume I: "I w" and run: "finally_act m fin w = (res, w')"
  obtain s w1 where m: "m w = (s, w1)" by (cases "m w")
  obtain u w2 where f: "fin w1 = (u, w2)" by (cases "fin w1")
  from assms(1) I m have "I w1" "\<forall>x. s = Ok x \<longrightarrow> Q x" unfolding ensures_def by blast+
  moreover from this(1) assms(2) f have "I w2" unfolding ensures_def by blast
  ultimately show "I w' \<and> (\<forall>x. res = Ok x \<longrightarrow> Q x)"
    using run m f by (cases s) (auto simp: finally_act_def)
qed

section \<open>Each operation\<close>

lemma service_sharedD:
  assumes "service_shared rt ps rely live"
  shows "shared (rt_crypto rt) (ps_store ps) rely live"
  using assms by (simp add: service_shared_def)

lemma state_at_fresh:
  "s = Waiting_for_finality \<or> s = Generating \<Longrightarrow>
     state_at (rt_crypto rt) (ps_store ps) (new_id rt ps rq) ((new_request_state rq)\<lparr>status := s\<rparr>)"
  by (auto simp: state_at_def new_id_def wf_state_pending)

lemma preserves_try_spawn:
  assumes sh: "service_shared rt ps rely live"
  shows "preserves (service_inv rt ps live) (try_spawn rt ps rq)"
  unfolding try_spawn_def Let_def
  by (intro preserves_amatch ensures_on_srv preserves_lock_ops(3) [OF service_sharedD [OF sh]])
     (auto intro: preserves_spawn ensures_aret)

lemma preserves_initialize:
  assumes sh: "service_shared rt ps rely live"
  shows "preserves (service_inv rt ps live) (initialize_request_locked rt ps fslot block rq)"
proof -
  have set_state: "preserves (service_inv rt ps live) (on_srv (set_proof_state (ps_store ps)
      (new_id rt ps rq) ((new_request_state rq)\<lparr>status := s\<rparr>)))"
    if "s = Waiting_for_finality \<or> s = Generating" for s
    by (intro ensures_on_srv preserves_set_proof_state [OF service_sharedD [OF sh]] state_at_fresh that)
  show ?thesis
    unfolding initialize_request_locked_def Let_def
    by (auto intro!: preserves_abind set_state preserves_try_spawn [OF sh] ensures_aret)
qed

lemma preserves_process_request:
  assumes sh: "service_shared rt ps rely live"
  shows "preserves (service_inv rt ps live) (process_request_locked rt ps rq acquired)"
proof -
  note sh' = service_sharedD [OF sh]
  have get: "preserves (service_inv rt ps live) (get_proof ps pid)" for pid
    unfolding get_proof_def
    by (intro ensures_on_srv ensures_preserves [OF ensures_get_proof_state [OF sh']])
  have hdr: "preserves (service_inv rt ps live) (on_srv (read_finalized_header (ps_store ps)))"
    by (intro ensures_on_srv preserves_read_header [OF sh'])
  show ?thesis
    unfolding process_request_locked_def Let_def
    by (intro preserves_abind [OF get])
       (auto intro!: preserves_abind hdr preserves_initialize [OF sh] ensures_aret ensures_afail
         split: option.split)
qed

lemma ensures_with_global_lock:
  assumes sh: "service_shared rt ps rely live" and "\<And>b. ensures (service_inv rt ps live) (f b) Q"
  shows "ensures (service_inv rt ps live) (with_global_lock ps f) Q"
  unfolding with_global_lock_def
  by (intro preserves_abind ensures_finally ensures_on_srv assms(2)
      preserves_lock_ops(1,2) [OF service_sharedD [OF sh]])

lemma preserves_request_proof:
  "service_shared rt ps rely live \<Longrightarrow> preserves (service_inv rt ps live) (request_proof rt ps rq)"
  unfolding request_proof_def
  by (rule ensures_with_global_lock) (simp_all add: preserves_process_request)

lemma collect_promoted_spec:
  "collect_promoted rt ps block fslot sts updated further =
     (updated @ map (\<lambda>st. (new_id rt ps (request st), st\<lparr>status := Generating\<rparr>))
                  (filter (promotable block fslot) sts),
      further @ map request (filter (promotable block fslot) sts))"
  by (induction rt ps block fslot sts updated further rule: collect_promoted.induct) simp_all

lemma state_at_promoted:
  "wf_state st \<Longrightarrow> promotable block fslot st \<Longrightarrow>
     state_at (rt_crypto rt) (ps_store ps) (new_id rt ps (request st)) (st\<lparr>status := Generating\<rparr>)"
  by (auto simp: state_at_def new_id_def promotable_def wf_state_promote)

lemma preserves_process_header_locked:
  assumes sh: "service_shared rt ps rely live"
  shows "preserves (service_inv rt ps live) (process_new_finalized_header_locked rt ps latest)"
proof -
  note sh' = service_sharedD [OF sh]
  have update: "preserves (service_inv rt ps live)
      (case collect_promoted rt ps block fslot waiting [] [] of (updated, further) \<Rightarrow>
         abind (on_srv (update_finalized_header_and_proof_states (ps_store ps) latest updated))
           (\<lambda>_. afor further (try_spawn rt ps)))"
    if "\<forall>s \<in> set waiting. wf_state s \<and> status s = Waiting_for_finality" for waiting block fslot
    using that
    by (auto simp: collect_promoted_spec state_at_promoted
        intro!: preserves_abind preserves_afor preserves_try_spawn [OF sh] ensures_on_srv
          preserves_update_header_and_states [OF sh'])
  show ?thesis
    unfolding process_new_finalized_header_locked_def Let_def
    by (intro preserves_abind ensures_on_srv preserves_read_header [OF sh'])
       (auto intro!: ensures_abind [OF ensures_on_srv [OF ensures_find [OF sh']]] update
         ensures_afail ensures_aret split: option.split)
qed

lemma preserves_process_header:
  assumes sh: "service_shared rt ps rely live"
  shows "preserves (service_inv rt ps live) (process_new_finalized_header rt ps latest)"
  unfolding process_new_finalized_header_def
  by (rule ensures_with_global_lock [OF sh])
     (auto intro!: preserves_abind preserves_process_header_locked [OF sh] ensures_aret)

lemma preserves_restart:
  assumes sh: "service_shared rt ps rely live"
  shows "preserves (service_inv rt ps live) (restart_orphaned_proofs rt ps)"
  unfolding restart_orphaned_proofs_def restart_each_loop
  by (intro preserves_abind preserves_afor preserves_try_spawn [OF sh] ensures_on_srv
      ensures_preserves [OF ensures_find [OF service_sharedD [OF sh]]])

lemma state_at_updated:
  "pid = new_id rt ps rq \<Longrightarrow>
     state_at (rt_crypto rt) (ps_store ps) pid (updated_proof_state rt rq out)"
  by (cases out) (simp_all add: updated_proof_state_def state_at_def new_id_def wf_state_success
      wf_state_errored)

lemma preserves_store_state_loop:
  assumes "shared P S rely live" and "state_at P S pid st"
  shows "preserves (inv_on P S live) (store_state_loop S pid st fuel)"
proof (induction fuel)
  case (Suc fuel)
  then show ?case
    by (auto intro!: preserves_amatch preserves_set_proof_state [OF assms] ensures_aret)
qed (simp add: preserves_alift)

lemma preserves_generate:
  assumes sh: "service_shared rt ps rely live" and pid: "pid = new_id rt ps rq"
  shows "preserves (service_inv rt ps live) (generate_and_store_proof rt ps attempts rq pid)"
  unfolding generate_and_store_proof_def
  by (auto intro!: ensures_on_srv preserves_alift
      preserves_store_state_loop [OF service_sharedD [OF sh] state_at_updated [OF pid]]
      split: res.split)

lemma preserves_extension:
  assumes "shared P S rely live"
  shows "preserves (inv_on P S live) (lock_extension_task S pid events)"
proof (induction events)
  case Nil
  show ?case by (simp add: ensures_aret)
next
  case (Cons e es)
  note ops = preserves_lock_ops(4,5) [OF assms]
  have stop: "preserves (inv_on P S live)
      (abind (release_proof_generation_lock S pid) (\<lambda>_. aret False))"
    by (intro preserves_abind ops ensures_aret TrueI)
  show ?case
  proof (cases e)
    case Cancelled
    then show ?thesis using stop by simp
  next
    case Tick
    have "preserves (inv_on P S live) (if b then lock_extension_task S pid es else aret False)" for b
      using Cons.IH by (simp add: ensures_aret)
    then show ?thesis
      unfolding Tick lock_extension_task.simps by (intro preserves_amatch ops stop)
  qed
qed

section \<open>The main loop\<close>

lemma preserves_run_turn:
  assumes sh: "service_shared rt ps rely live"
  shows "preserves (service_inv rt ps live) (run_turn rt ps tn v)"
proof -
  note sh' = service_sharedD [OF sh]
  have upd: "preserves (service_inv rt ps live) (update_redis_state rt ps hdr flag)" for hdr flag
    unfolding update_redis_state_def
    by (intro preserves_amatch preserves_process_header [OF sh] ensures_aret TrueI)
  have restart: "preserves (service_inv rt ps live)
      (amatch (restart_orphaned_proofs rt ps) (\<lambda>_. aret ()) (\<lambda>_. aret ()))"
    by (intro preserves_amatch preserves_restart [OF sh] ensures_aret TrueI)
  have stored_age: "preserves (inv_on (rt_crypto rt) (ps_store ps) live)
      (get_stored_header_age chk (ps_store ps) cfg now)" for chk cfg now
    unfolding get_stored_header_age_def
    by (intro preserves_abind preserves_read_header [OF sh'])
       (simp add: preserves_alift ensures_aret split: option.split)
  have health: "preserves (inv_on (rt_crypto rt) (ps_store ps) live)
      (check_header_health chk (ps_store ps) cfg now)" for chk cfg now
    unfolding check_header_health_def
    by (intro preserves_amatch stored_age) (simp_all add: ensures_aret ensures_afail split: option.split)
  show ?thesis
    unfolding run_turn_def
    by (intro preserves_abind restart ensures_on_srv [OF health] preserves_alift)
       (simp add: upd ensures_aret)
qed

section \<open>All reachable worlds\<close>

text \<open>
  A step of a worker: one of the operations that the API, the main loop and the spawned tasks run,
  with any answers of the network; or anything other processes do.
\<close>

inductive service_step ::
  "'x runtime \<Rightarrow> ('r, 'x, 'o) proof_service \<Rightarrow> ('r \<Rightarrow> 'r \<Rightarrow> bool) \<Rightarrow> 'r world \<Rightarrow> 'r world \<Rightarrow> bool"
  for rt :: "'x runtime" and ps :: "('r, 'x, 'o) proof_service" and rely :: "'r \<Rightarrow> 'r \<Rightarrow> bool" where
  step_request: "request_proof rt ps rq w = (res, w') \<Longrightarrow> service_step rt ps rely w w'"
| step_header: "process_new_finalized_header rt ps hdr w = (res, w') \<Longrightarrow> service_step rt ps rely w w'"
| step_restart: "restart_orphaned_proofs rt ps w = (res, w') \<Longrightarrow> service_step rt ps rely w w'"
| step_turn: "run_turn rt ps tn v w = (res, w') \<Longrightarrow> service_step rt ps rely w w'"
| step_task: "(rq, pid) \<in> set (spawned w) \<Longrightarrow>
     generate_and_store_proof rt ps attempts rq pid w = (res, w') \<Longrightarrow> service_step rt ps rely w w'"
| step_extension: "(rq, pid) \<in> set (spawned w) \<Longrightarrow>
     on_srv (lock_extension_task (ps_store ps) pid events) w = (res, w') \<Longrightarrow> service_step rt ps rely w w'"
| step_others: "rely (srv w) r \<Longrightarrow> service_step rt ps rely w (w\<lparr>srv := r\<rparr>)"

lemma service_step_inv:
  assumes sh: "service_shared rt ps rely live" and "service_step rt ps rely w w'"
    and inv: "service_inv rt ps live w"
  shows "service_inv rt ps live w'"
  using assms(2) inv
proof (cases rule: service_step.cases)
  case (step_task rq pid attempts res)
  with inv have "pid = new_id rt ps rq" by (auto simp: service_inv_def)
  with step_task inv show ?thesis using ensuresD(1) [OF preserves_generate [OF sh]] by blast
next
  case (step_others r)
  with inv sharedD(5) [OF service_sharedD [OF sh]] show ?thesis
    by (simp add: service_inv_def stable_def)
qed (use inv in \<open>blast dest: ensuresD(1) [OF preserves_request_proof [OF sh]]
       ensuresD(1) [OF preserves_process_header [OF sh]] ensuresD(1) [OF preserves_restart [OF sh]]
       ensuresD(1) [OF preserves_run_turn [OF sh]]
       ensuresD(1) [OF ensures_on_srv [OF preserves_extension [OF service_sharedD [OF sh]]]]\<close>)+

lemma reachable_inv:
  assumes "service_shared rt ps rely live" and "(service_step rt ps rely)\<^sup>*\<^sup>* w0 w"
    and "service_inv rt ps live w0"
  shows "service_inv rt ps live w"
  using assms(2,3) by (induction rule: rtranclp_induct) (auto intro: service_step_inv [OF assms(1)])

section \<open>Properties\<close>

text \<open>
  C4: start from a server whose stored states are well-formed and let the workers take any steps,
  with any interference that keeps the stored states well-formed: whatever is stored for an
  identifier is the state of a request with that identifier, it carries proof data exactly when its
  status is success and an error message exactly when it is errored, and no state is ever stored as
  initiated.
\<close>

theorem reachable_states_well_formed:
  assumes sh: "service_shared rt ps rely live" and "service_inv rt ps live w0"
    and "(service_step rt ps rely)\<^sup>*\<^sup>* w0 w" and view: "state_view (ps_store ps) (live (srv w)) pid = Some st"
  shows "new_id rt ps (request st) = pid \<and> status st \<noteq> Initiated \<and>
    (proof_data st \<noteq> None \<longleftrightarrow> status st = Success) \<and> (error_message st \<noteq> None \<longleftrightarrow> status st = Errored)"
proof -
  from reachable_inv [OF sh assms(3,2)] have inv: "store_inv (rt_crypto rt) (ps_store ps) (live (srv w))"
    by (simp add: service_inv_def)
  from store_inv_state_key [OF inv sharedD(2) [OF service_sharedD [OF sh]]] view
  have "state_at (rt_crypto rt) (ps_store ps) pid st" by (simp add: state_view_def)
  then show ?thesis by (simp add: state_at_def wf_state_def new_id_def)
qed

lemma sample_shared: "service_shared sample_runtime sample_service (=) map_of"
  using sample_laws sample_plain by (simp add: service_shared_def shared_def)

lemma sample_waiting_inv:
  "service_inv sample_runtime sample_service map_of
     (sample_world [(sample_header_key, ''32''), (sample_key, ''w'')])"
  using sample_server_state [of Waiting_for_finality] by (simp add: service_inv_def sample_server_def)

theorem reachable_states_well_formed_witness:
  "\<exists>w st. (service_step sample_runtime sample_service (=))\<^sup>*\<^sup>*
      (sample_world [(sample_header_key, ''32''), (sample_key, ''w'')]) w \<and>
     state_view sample_store_conn (map_of (srv w)) sample_pid = Some st \<and> status st = Generating \<and>
     proof_data st = None"
proof -
  define w where "w = \<lparr>srv = [(sample_header_key, ''64''), (sample_key, ''g''), (sample_lock_key, ''locked'')],
    spawned = [(sample_request, sample_pid)]\<rparr>"
  have steps: "(service_step sample_runtime sample_service (=))\<^sup>*\<^sup>*
      (sample_world [(sample_header_key, ''32''), (sample_key, ''w'')]) w"
    using step_header [OF sample_process_header] by (simp add: w_def r_into_rtranclp)
  have view: "state_view (ps_store sample_service) (map_of (srv w)) sample_pid = Some (sample_state Generating)"
    by (simp add: w_def state_view_def sample_keys sample_json_simps)
  from reachable_states_well_formed [OF sample_shared sample_waiting_inv steps view] steps view
  show ?thesis by auto
qed

end
