(* ===== verification/Service_Facts.thy ===== *)
theory Service_Facts
  imports Service_Samples
begin

text \<open>
  What the service's operations do, branch by branch, on a server nobody else uses: what a request
  returns and stores, which requests a new finalized header promotes, what a generation task leaves
  behind, and when the main loop stops.
\<close>

section \<open>What an operation leaves unchanged\<close>

abbreviation states_of where
  "states_of ps live w \<equiv> state_view (ps_store ps) (live (srv w))"

abbreviation header_of where
  "header_of ps live w \<equiv> header_view (ps_store ps) (live (srv w))"

definition same_views ::
  "('r, 'x, 'o) proof_service \<Rightarrow> ('r \<Rightarrow> keyspace) \<Rightarrow> 'r world \<Rightarrow> 'r world \<Rightarrow> bool" where
  "same_views ps live w w' \<longleftrightarrow>
     states_of ps live w' = states_of ps live w \<and> header_of ps live w' = header_of ps live w"

lemma same_views_refl [simp]: "same_views ps live w w"
  by (simp add: same_views_def)

lemma same_views_trans: "same_views ps live w w1 \<Longrightarrow> same_views ps live w1 w2 \<Longrightarrow> same_views ps live w w2"
  by (simp add: same_views_def)

lemma on_srv_cases:
  assumes "on_srv m w = (res, w')"
  obtains r where "m (srv w) = (res, r)" "w' = w\<lparr>srv := r\<rparr>"
  using assms by (auto simp: on_srv_def split: prod.splits)

lemma try_acquire_keeps_views:
  assumes L: "laws S (=) live" and run: "try_acquire_lock S k t r = (res, r')"
    and k: "k = global_lock_key S \<or> k = proof_generation_lock_key S pid"
  shows "state_view S (live r') = state_view S (live r) \<and> header_view S (live r') = header_view S (live r)"
  using lock_alone_any [OF redis_lawsD(10) [OF lawsD(1) [OF L]] run [unfolded try_acquire_lock_def]] k
  by auto

lemma release_global_keeps_views:
  assumes L: "laws (ps_store ps) (=) live"
    and run: "on_srv (release_global_lock (ps_store ps)) w = (res, w')"
  shows "same_views ps live w w' \<and> spawned w' = spawned w"
  using run
proof (cases rule: on_srv_cases)
  case (1 r)
  with release_global_alone [OF L 1(1)] show ?thesis by (auto simp: same_views_def)
qed

text \<open>\<open>reliable\<close>: the server answers the commands of the locks.\<close>

definition reliable :: "'r redis \<Rightarrow> bool" where
  "reliable R \<longleftrightarrow>
     (\<forall>k r e r'. rd_del R k r \<noteq> (Inl e, r')) \<and> (\<forall>k v t r e r'. rd_set_nx_px R k v t r \<noteq> (Inl e, r'))"

text \<open>
  The guarded spawn always returns and changes no stored value. It spawns its own task, once, when the
  lock is free, unless the server fails to answer, and nothing when the lock is held.
\<close>

definition spawn_effect ::
  "'x runtime \<Rightarrow> ('r, 'x, 'o) proof_service \<Rightarrow> ('r \<Rightarrow> keyspace) \<Rightarrow> proof_request \<Rightarrow> 'r world \<Rightarrow> 'r world \<Rightarrow> bool" where
  "spawn_effect rt ps live rq w w' \<longleftrightarrow>
     (if spawned w' = spawned w
      then reliable (conn_manager (ps_store ps)) \<longrightarrow>
        generation_held (ps_store ps) (live (srv w)) (new_id rt ps rq)
      else spawned w' = spawned w @ [(rq, new_id rt ps rq)] \<and>
        \<not> generation_held (ps_store ps) (live (srv w)) (new_id rt ps rq))"

lemma spawn_effect_from:
  "spawned w1 = spawned w \<Longrightarrow>
     generation_held (ps_store ps) (live (srv w1)) = generation_held (ps_store ps) (live (srv w)) \<Longrightarrow>
     spawn_effect rt ps live rq w1 w' = spawn_effect rt ps live rq w w'"
  by (simp only: spawn_effect_def)

lemma acquire_generation_reliable:
  assumes "reliable (conn_manager S)" and "acquire_proof_generation_lock S pid t r = (res, r')"
  obtains b where "res = Ok b"
proof -
  let ?nx = "rd_set_nx_px (conn_manager S) (proof_generation_lock_key S pid) ''locked'' t r"
  obtain s r1 where nx: "?nx = (s, r1)" by (cases ?nx)
  with assms(1) obtain b where "s = Inr b" by (cases s) (auto simp: reliable_def)
  with nx assms(2) that show thesis
    by (auto simp: acquire_proof_generation_lock_def try_acquire_lock_def redis_call_def)
qed

lemma try_spawn_effect_alone:
  assumes L: "laws (ps_store ps) (=) live" and run: "try_spawn rt ps rq w = (res, w')"
  shows "spawn_effect rt ps live rq w w'"
proof -
  let ?m = "on_srv (acquire_proof_generation_lock (ps_store ps) (new_id rt ps rq)
      INITIAL_PROOF_GENERATION_LOCK_DURATION_MS)"
  obtain s w1 where m: "?m w = (s, w1)" by (cases "?m w")
  then obtain r where r: "acquire_proof_generation_lock (ps_store ps) (new_id rt ps rq)
      INITIAL_PROOF_GENERATION_LOCK_DURATION_MS (srv w) = (s, r)" and w1: "w1 = w\<lparr>srv := r\<rparr>"
    by (rule on_srv_cases)
  show ?thesis
  proof (cases s)
    case (Ok b)
    with generation_lock.acquire_free [OF L] r
    have "b \<longleftrightarrow> \<not> generation_held (ps_store ps) (live (srv w)) (new_id rt ps rq)" by blast
    with run m Ok w1 show ?thesis
      by (cases b) (auto simp: try_spawn_def Let_def amatch_def spawn_def aret_def spawn_effect_def)
  next
    case (Err e)
    with r have "\<not> reliable (conn_manager (ps_store ps))" by (auto elim: acquire_generation_reliable)
    with run m Err w1 show ?thesis
      by (auto simp: try_spawn_def Let_def amatch_def aret_def spawn_effect_def)
  qed (use r in \<open>auto simp: acquire_proof_generation_lock_def try_acquire_lock_def redis_call_no_diverge\<close>)
qed

text \<open>The same without the lock: it returns and changes no stored value.\<close>

lemma try_spawn_alone:
  assumes L: "laws (ps_store ps) (=) live" and run: "try_spawn rt ps rq w = (res, w')"
  shows "res = Ok () \<and> same_views ps live w w' \<and>
    (spawned w' = spawned w \<or>
     spawned w' = spawned w @ [(rq, new_id rt ps rq)] \<and>
       \<not> generation_held (ps_store ps) (live (srv w)) (new_id rt ps rq))"
proof -
  let ?m = "on_srv (acquire_proof_generation_lock (ps_store ps) (new_id rt ps rq)
      INITIAL_PROOF_GENERATION_LOCK_DURATION_MS)"
  obtain s w1 where m: "?m w = (s, w1)" by (cases "?m w")
  then obtain r where r: "acquire_proof_generation_lock (ps_store ps) (new_id rt ps rq)
      INITIAL_PROOF_GENERATION_LOCK_DURATION_MS (srv w) = (s, r)" and w1: "w1 = w\<lparr>srv := r\<rparr>"
    by (rule on_srv_cases)
  have same: "same_views ps live w w1"
    using try_acquire_keeps_views [OF L r [unfolded acquire_proof_generation_lock_def]] w1
    by (auto simp: same_views_def)
  have free: "b \<longleftrightarrow> \<not> generation_held (ps_store ps) (live (srv w)) (new_id rt ps rq)" if "s = Ok b" for b
    using generation_lock.acquire_free [OF L] r that by blast
  from r have "s \<noteq> Diverge" "\<And>p. s \<noteq> Panic p"
    by (auto simp: acquire_proof_generation_lock_def try_acquire_lock_def redis_call_no_diverge)
  with run m same w1 free show ?thesis
    unfolding try_spawn_def Let_def amatch_def
    by (cases s) (auto simp: spawn_def aret_def same_views_def split: if_splits)
qed

lemma spawn_loop_alone:
  assumes L: "laws (ps_store ps) (=) live"
  shows "afor rqs (try_spawn rt ps) w = (res, w') \<Longrightarrow>
    res = Ok () \<and> same_views ps live w w' \<and>
    (\<exists>new. spawned w' = spawned w @ new \<and> set new \<subseteq> (\<lambda>rq. (rq, new_id rt ps rq)) ` set rqs)"
proof (induction rqs arbitrary: w)
  case Nil
  then show ?case by (auto simp: aret_def)
next
  case (Cons rq rqs)
  obtain s w1 where step: "try_spawn rt ps rq w = (s, w1)" by (cases "try_spawn rt ps rq w")
  note one = try_spawn_alone [OF L step]
  with Cons.prems step have "afor rqs (try_spawn rt ps) w1 = (res, w')" by (auto simp: abind_def)
  from Cons.IH [OF this] obtain new where new: "res = Ok ()" "same_views ps live w1 w'"
      "spawned w' = spawned w1 @ new" "set new \<subseteq> (\<lambda>rq. (rq, new_id rt ps rq)) ` set rqs" by blast
  from one obtain first where "spawned w1 = spawned w @ first"
      "set first \<subseteq> {(rq, new_id rt ps rq)}" by fastforce
  with new one have "spawned w' = spawned w @ (first @ new)"
      "set (first @ new) \<subseteq> (\<lambda>rq. (rq, new_id rt ps rq)) ` set (rq # rqs)" by auto
  with new one show ?case using same_views_trans by blast
qed

section \<open>Requests\<close>

definition finality_met :: "proof_request \<Rightarrow> 'x header \<Rightarrow> exec_header \<Rightarrow> bool" where
  "finality_met rq h ex \<longleftrightarrow>
     src_chain_block_number rq \<le> block_number ex \<and>
     dst_chain_contract_from_head rq < slot (beacon h)"

lemma set_state_world:
  assumes L: "laws (ps_store ps) (=) live"
    and run: "on_srv (set_proof_state (ps_store ps) pid st) w = (Ok u, w')"
  shows "states_of ps live w' = (states_of ps live w)(pid \<mapsto> st) \<and>
    header_of ps live w' = header_of ps live w \<and> spawned w' = spawned w \<and>
    generation_held (ps_store ps) (live (srv w')) = generation_held (ps_store ps) (live (srv w))"
  using run
proof (cases rule: on_srv_cases)
  case (1 r)
  from set_proof_state_alone [OF L 1(1)] obtain j where
    "live r = (live (srv w))(proof_state_key (ps_store ps) pid \<mapsto> j)" by auto
  with state_cells.write_view [OF L 1(1)] 1 lawsD(2) [OF L] show ?thesis by simp
qed

lemma initialize_alone:
  assumes L: "laws (ps_store ps) (=) live"
    and run: "initialize_request_locked rt ps fslot block rq w = (Ok s, w')"
  shows "s = (if src_chain_block_number rq \<le> block \<and> dst_chain_contract_from_head rq < fslot
      then Generating else Waiting_for_finality) \<and>
    states_of ps live w' = (states_of ps live w)(new_id rt ps rq \<mapsto> (new_request_state rq)\<lparr>status := s\<rparr>) \<and>
    header_of ps live w' = header_of ps live w \<and>
    (if s = Generating then spawn_effect rt ps live rq w w' else spawned w' = spawned w)"
proof (cases "src_chain_block_number rq \<le> block \<and> dst_chain_contract_from_head rq < fslot")
  case True
  with run obtain u w1 w2 v where st: "on_srv (set_proof_state (ps_store ps) (new_id rt ps rq)
      ((new_request_state rq)\<lparr>status := Generating\<rparr>)) w = (Ok u, w1)"
    and sp: "try_spawn rt ps rq w1 = (Ok v, w2)" and "s = Generating" "w' = w2"
    unfolding initialize_request_locked_def Let_def
    by (auto elim!: abind_Ok_cases simp: aret_def)
  note st' = set_state_world [OF L st]
  from st' have "spawn_effect rt ps live rq w w2"
    using try_spawn_effect_alone [OF L sp] spawn_effect_from [of w1 w ps live rt rq w2] by simp
  with \<open>s = Generating\<close> \<open>w' = w2\<close> True st' try_spawn_alone [OF L sp] show ?thesis
    by (simp add: same_views_def)
next
  case False
  with run obtain u where st: "on_srv (set_proof_state (ps_store ps) (new_id rt ps rq)
      ((new_request_state rq)\<lparr>status := Waiting_for_finality\<rparr>)) w = (Ok u, w')"
    and "s = Waiting_for_finality"
    unfolding initialize_request_locked_def Let_def
    by (auto elim!: abind_Ok_cases simp: aret_def)
  with False set_state_world [OF L st] show ?thesis by auto
qed

lemma get_proof_alone:
  assumes L: "laws (ps_store ps) (=) live" and run: "get_proof ps pid w = (Ok x, w')"
  shows "x = states_of ps live w pid \<and> same_views ps live w w' \<and> spawned w' = spawned w \<and>
    live (srv w') = live (srv w)"
  using run unfolding get_proof_def
proof (cases rule: on_srv_cases)
  case (1 r)
  with get_proof_state_alone [OF L 1(1)] show ?thesis by (simp add: same_views_def)
qed

lemma read_header_world:
  assumes L: "laws (ps_store ps) (=) live"
    and run: "on_srv (read_finalized_header (ps_store ps)) w = (Ok x, w')"
  shows "x = header_of ps live w \<and> same_views ps live w w' \<and> spawned w' = spawned w \<and>
    live (srv w') = live (srv w)"
  using run
proof (cases rule: on_srv_cases)
  case (1 r)
  with read_finalized_header_alone [OF L 1(1)] show ?thesis by (simp add: same_views_def)
qed

definition restartable :: "'o proof_request_state option \<Rightarrow> bool" where
  "restartable x \<longleftrightarrow> (case x of None \<Rightarrow> True | Some st \<Rightarrow> status st = Errored)"

text \<open>What a request that returns has done, with the lock and without.\<close>

definition request_effect ::
  "'x runtime \<Rightarrow> ('r, 'x, 'o) proof_service \<Rightarrow> ('r \<Rightarrow> keyspace) \<Rightarrow> proof_request \<Rightarrow> bool
    \<Rightarrow> 'r world \<Rightarrow> proof_request_status \<Rightarrow> 'r world \<Rightarrow> bool" where
  "request_effect rt ps live rq locked w s w' \<longleftrightarrow>
     header_of ps live w' = header_of ps live w \<and>
     (if locked \<and> restartable (states_of ps live w (new_id rt ps rq))
      then (\<exists>h ex. header_of ps live w = Some h \<and> execution h = Some ex \<and>
              s = (if finality_met rq h ex then Generating else Waiting_for_finality)) \<and>
           states_of ps live w' =
             (states_of ps live w)(new_id rt ps rq \<mapsto> (new_request_state rq)\<lparr>status := s\<rparr>) \<and>
           (if s = Generating then spawn_effect rt ps live rq w w' else spawned w' = spawned w)
      else (\<exists>st. states_of ps live w (new_id rt ps rq) = Some st \<and> s = status st) \<and>
           states_of ps live w' = states_of ps live w \<and> spawned w' = spawned w)"

lemma process_request_alone:
  assumes L: "laws (ps_store ps) (=) live"
    and run: "process_request_locked rt ps rq locked w = (Ok (pid, s), w')"
  shows "pid = new_id rt ps rq \<and> request_effect rt ps live rq locked w s w'"
proof -
  from run obtain x w1 where get: "get_proof ps (new_id rt ps rq) w = (Ok x, w1)"
    and rest: "(if locked then
        abind (on_srv (read_finalized_header (ps_store ps))) (\<lambda>h.
        case h of
          None \<Rightarrow> afail (Internal ''No finalized header available in redis. Wait and try again'')
        | Some hdr \<Rightarrow>
            (case execution hdr of
               None \<Rightarrow> afail (Internal ''Failed to get execution header.'')
             | Some ex \<Rightarrow>
                 let init = abind (initialize_request_locked rt ps (slot (beacon hdr)) (block_number ex) rq)
                              (\<lambda>s. aret (new_id rt ps rq, s))
                 in case x of
                      Some state \<Rightarrow>
                        if status state = Errored then init else aret (new_id rt ps rq, status state)
                    | None \<Rightarrow> init))
      else case x of
             Some state \<Rightarrow> aret (new_id rt ps rq, status state)
           | None \<Rightarrow> afail (Lock_contention (new_id rt ps rq))) w1 = (Ok (pid, s), w')"
    unfolding process_request_locked_def Let_def by (auto elim: abind_Ok_cases)
  note x = get_proof_alone [OF L get]
  show ?thesis
  proof (cases locked)
    case False
    with rest x show ?thesis
      by (auto simp: aret_def afail_def request_effect_def same_views_def split: option.splits)
  next
    case True
    with rest obtain h w2 where rd: "on_srv (read_finalized_header (ps_store ps)) w1 = (Ok h, w2)"
      and rest2: "(case h of
          None \<Rightarrow> afail (Internal ''No finalized header available in redis. Wait and try again'')
        | Some hdr \<Rightarrow>
            (case execution hdr of
               None \<Rightarrow> afail (Internal ''Failed to get execution header.'')
             | Some ex \<Rightarrow>
                 let init = abind (initialize_request_locked rt ps (slot (beacon hdr)) (block_number ex) rq)
                              (\<lambda>s. aret (new_id rt ps rq, s))
                 in case x of
                      Some state \<Rightarrow>
                        if status state = Errored then init else aret (new_id rt ps rq, status state)
                    | None \<Rightarrow> init)) w2 = (Ok (pid, s), w')"
      by (auto elim: abind_Ok_cases)
    note hd = read_header_world [OF L rd]
    from rest2 obtain hdr ex where h: "h = Some hdr" "execution hdr = Some ex"
      by (auto simp: afail_def split: option.splits)
    show ?thesis
    proof (cases "restartable x")
      case True
      with rest2 h have "abind (initialize_request_locked rt ps (slot (beacon hdr)) (block_number ex) rq)
          (\<lambda>s. aret (new_id rt ps rq, s)) w2 = (Ok (pid, s), w')"
        by (auto simp: restartable_def Let_def split: option.splits)
      then have "initialize_request_locked rt ps (slot (beacon hdr)) (block_number ex) rq w2 = (Ok s, w')"
        and "pid = new_id rt ps rq"
        by (auto elim!: abind_Ok_cases simp: aret_def)
      note init = initialize_alone [OF L this(1)] and pid = this(2)
      have "\<exists>h ex. header_of ps live w = Some h \<and> execution h = Some ex \<and>
          s = (if finality_met rq h ex then Generating else Waiting_for_finality)"
        using init x hd h
        by (intro exI [of _ hdr] exI [of _ ex]) (simp add: finality_met_def same_views_def)
      moreover have "spawn_effect rt ps live rq w2 w' = spawn_effect rt ps live rq w w'"
        using x hd by (intro spawn_effect_from) simp_all
      ultimately show ?thesis
        using conjunct2 [OF init] pid True \<open>locked\<close> x hd
        by (cases "s = Generating") (simp_all add: request_effect_def same_views_def)
    next
      case False
      with rest2 h have "pid = new_id rt ps rq" "w' = w2" "\<exists>st. x = Some st \<and> s = status st"
        by (auto simp: restartable_def Let_def aret_def split: option.splits)
      with False x hd show ?thesis by (auto simp: request_effect_def same_views_def)
    qed
  qed
qed

lemma with_global_lock_alone:
  assumes L: "laws (ps_store ps) (=) live" and run: "with_global_lock ps f w = (Ok x, w')"
  obtains w1 w2 where "same_views ps live w w1" "spawned w1 = spawned w"
    "generation_held (ps_store ps) (live (srv w1)) = generation_held (ps_store ps) (live (srv w))"
    "f (\<not> global_held (ps_store ps) (live (srv w))) w1 = (Ok x, w2)"
    "same_views ps live w2 w'" "spawned w' = spawned w2"
proof -
  from run obtain acquired w1 where acq: "on_srv (acquire_global_lock (ps_store ps)) w = (Ok acquired, w1)"
    and fin: "finally_act (f acquired) (on_srv (release_global_lock (ps_store ps))) w1 = (Ok x, w')"
    unfolding with_global_lock_def by (auto elim: abind_Ok_cases)
  from acq obtain r where r: "acquire_global_lock (ps_store ps) (srv w) = (Ok acquired, r)"
    and w1: "w1 = w\<lparr>srv := r\<rparr>" by (rule on_srv_cases)
  have acquired: "acquired \<longleftrightarrow> \<not> global_held (ps_store ps) (live (srv w))"
    using global_lock.acquire_free [OF L r] .
  have same: "same_views ps live w w1"
    using try_acquire_keeps_views [OF L r [unfolded acquire_global_lock_def]] w1
    by (auto simp: same_views_def)
  have "live r = live (srv w) \<or> live r = (live (srv w))(global_lock_key (ps_store ps) \<mapsto> ''locked'')"
    using lock_alone_any [OF redis_lawsD(10) [OF lawsD(1) [OF L]]
        r [unfolded acquire_global_lock_def try_acquire_lock_def]] .
  then have held: "generation_held (ps_store ps) (live (srv w1)) = generation_held (ps_store ps) (live (srv w))"
    using w1 by auto
  obtain s w2 where f: "f acquired w1 = (s, w2)" by (cases "f acquired w1")
  obtain u w3 where rel: "on_srv (release_global_lock (ps_store ps)) w2 = (u, w3)"
    by (cases "on_srv (release_global_lock (ps_store ps)) w2")
  from fin f rel have "s = Ok x" "w' = w3" by (cases s; auto simp: finally_act_def)+
  with that [OF same _ held] f release_global_keeps_views [OF L rel] acquired w1 show thesis by simp
qed

lemma request_proof_alone:
  assumes L: "laws (ps_store ps) (=) live" and run: "request_proof rt ps rq w = (Ok (pid, s), w')"
  shows "pid = new_id rt ps rq \<and>
    request_effect rt ps live rq (\<not> global_held (ps_store ps) (live (srv w))) w s w'"
  using run unfolding request_proof_def
proof (rule with_global_lock_alone [OF L])
  fix w1 w2
  assume *: "same_views ps live w w1" "spawned w1 = spawned w"
    "generation_held (ps_store ps) (live (srv w1)) = generation_held (ps_store ps) (live (srv w))"
    "same_views ps live w2 w'" "spawned w' = spawned w2"
    and "process_request_locked rt ps rq (\<not> global_held (ps_store ps) (live (srv w))) w1 = (Ok (pid, s), w2)"
  then have e: "states_of ps live w1 = states_of ps live w" "header_of ps live w1 = header_of ps live w"
      "states_of ps live w' = states_of ps live w2" "header_of ps live w' = header_of ps live w2"
    by (simp_all add: same_views_def)
  from process_request_alone [OF L \<open>process_request_locked rt ps rq _ w1 = _\<close>] show ?thesis
    unfolding request_effect_def spawn_effect_def e *(2,3,5) .
qed

section \<open>The global lock without its holder\<close>

lemma release_global_reliable:
  assumes L: "laws S (=) live" and "reliable (conn_manager S)" and run: "release_global_lock S r = (res, r')"
  shows "\<not> global_held S (live r')"
proof -
  obtain s r1 where del: "rd_del (conn_manager S) (global_lock_key S) r = (s, r1)"
    by (cases "rd_del (conn_manager S) (global_lock_key S) r")
  with assms(2) obtain u where "s = Inr u" by (cases s) (auto simp: reliable_def)
  with del have call: "redis_call (rd_del (conn_manager S) (global_lock_key S)) r = (Ok (), r1)"
    by (simp add: redis_call_def)
  with run have "r' = r1" by (simp add: release_global_lock_def ignore_result_def amatch_def aret_def)
  with write_alone [OF redis_lawsD(8) [OF lawsD(1) [OF L]] call] show ?thesis by simp
qed

lemma acquire_global_reliable:
  assumes L: "laws S (=) live" and rel: "reliable (conn_manager S)" and run: "acquire_global_lock S r = (res, r')"
  shows "res = Ok (\<not> global_held S (live r))"
proof -
  obtain s r1 where nx: "rd_set_nx_px (conn_manager S) (global_lock_key S) ''locked''
      (of_nat (unat (global_lock_duration_secs S) * 1000)) r = (s, r1)"
    by (cases "rd_set_nx_px (conn_manager S) (global_lock_key S) ''locked''
      (of_nat (unat (global_lock_duration_secs S) * 1000)) r")
  with rel obtain b where "s = Inr b" by (cases s) (auto simp: reliable_def)
  with nx run have ok: "res = Ok b" "acquire_global_lock S r = (Ok b, r')"
    by (auto simp: acquire_global_lock_def try_acquire_lock_def redis_call_def)
  from global_lock.acquire_free [OF L ok(2)] ok(1) show ?thesis by simp
qed

lemma json_some_returns:
  "is_ok (rbind (json_res v) (\<lambda>s. Ok (Some s))) \<or> is_err (rbind (json_res v) (\<lambda>s. Ok (Some s)))"
  by (cases v) (simp_all add: json_res_def)

lemma read_json_returns: "read_json_value S de k r = (res, r') \<Longrightarrow> is_ok res \<or> is_err res"
  unfolding read_json_value_def
  by (elim abind_cases)
     (use json_some_returns in \<open>auto simp: redis_call_no_diverge aret_def alift_def split: option.splits\<close>)

lemma unlocked_request_returns:
  assumes "process_request_locked rt ps rq False w = (res, w')"
  shows "is_ok res \<or> is_err res"
  using assms unfolding process_request_locked_def Let_def
proof (cases rule: abind_cases)
  case (ok x w1)
  then show ?thesis by (auto simp: aret_def afail_def split: option.splits)
qed (auto simp: get_proof_def get_proof_state_def elim!: on_srv_cases dest!: read_json_returns)

section \<open>Properties\<close>

text \<open>
  C8: what a request that returns has done, on a server nobody else uses. With the global lock free
  and nothing stored for it, or an errored state, it is stored afresh: as generating when the stored
  header meets its finality condition, and then exactly one task is spawned for it if its lock is free
  (and the server answers) and none if its lock is held; and as waiting otherwise, with no task.
  In every other case it only reports the stored status. The header and every other request keep
  their values.
\<close>

theorem request_outcome:
  assumes "laws (ps_store ps) (=) live" and "request_proof rt ps rq w = (Ok (pid, s), w')"
  shows "pid = new_id rt ps rq \<and>
    request_effect rt ps live rq (\<not> global_held (ps_store ps) (live (srv w))) w s w'"
  using assms by (rule request_proof_alone)

theorem request_outcome_witness:
  "\<exists>w'. request_proof sample_runtime sample_service sample_request
      (sample_world [(sample_header_key, ''64'')]) = (Ok (sample_pid, Generating), w') \<and>
    request_effect sample_runtime sample_service map_of sample_request True
      (sample_world [(sample_header_key, ''64'')]) Generating w'"
proof -
  have "\<not> global_held sample_store_conn (map_of [(sample_header_key, ''64'')])"
    by (simp add: global_held_def sample_keys)
  with request_outcome [of sample_service map_of, OF _ sample_request_run] sample_laws sample_request_run
  show ?thesis by simp
qed

text \<open>
  C33: a request that finds the global lock held by another worker still deletes it: when it returns,
  the lock is free and the next attempt to take it succeeds, while the holder is still inside its
  critical section.
\<close>

theorem request_releases_foreign_lock:
  assumes L: "laws (ps_store ps) (=) live" and rel: "reliable (conn_manager (ps_store ps))"
    and held: "global_held (ps_store ps) (live (srv w))"
    and run: "request_proof rt ps rq w = (res, w')"
  shows "\<not> global_held (ps_store ps) (live (srv w')) \<and>
    (\<forall>res' r. acquire_global_lock (ps_store ps) (srv w') = (res', r) \<longrightarrow> res' = Ok True)"
proof -
  obtain s r where acq: "acquire_global_lock (ps_store ps) (srv w) = (s, r)"
    by (cases "acquire_global_lock (ps_store ps) (srv w)")
  with acquire_global_reliable [OF L rel acq] held have s: "s = Ok False" by simp
  let ?w1 = "w\<lparr>srv := r\<rparr>"
  obtain t w2 where locked: "process_request_locked rt ps rq False ?w1 = (t, w2)"
    by (cases "process_request_locked rt ps rq False ?w1")
  obtain u r3 where release: "release_global_lock (ps_store ps) (srv w2) = (u, r3)"
    by (cases "release_global_lock (ps_store ps) (srv w2)")
  from unlocked_request_returns [OF locked] run acq s locked release have "w' = w2\<lparr>srv := r3\<rparr>"
    by (cases t) (auto simp: request_proof_def with_global_lock_def abind_def on_srv_def finally_act_def)
  with release_global_reliable [OF L rel release] have free: "\<not> global_held (ps_store ps) (live (srv w'))"
    by simp
  with acquire_global_reliable [OF L rel] show ?thesis by blast
qed

theorem request_releases_foreign_lock_witness:
  "\<exists>r. acquire_global_lock sample_store_conn [] = (Ok True, r) \<and>
     request_proof sample_runtime sample_service sample_request (sample_world r) =
       (Err (Lock_contention sample_pid), sample_world []) \<and>
     \<not> global_held sample_store_conn (map_of [])"
proof -
  have got: "acquire_global_lock sample_store_conn [] = (Ok True, [(sample_global_key, ''locked'')])"
    by (simp add: acquire_global_lock_def try_acquire_lock_def redis_call_def sample_redis_def)
  have "reliable (conn_manager sample_store_conn)"
    by (simp add: reliable_def sample_redis_def)
  moreover have "global_held sample_store_conn (map_of [(sample_global_key, ''locked'')])"
    by (simp add: global_held_def)
  ultimately have "\<not> global_held sample_store_conn (map_of [])"
    using request_releases_foreign_lock [of sample_service map_of, OF _ _ _ sample_contended_request]
      sample_laws by simp
  with got sample_contended_request show ?thesis by auto
qed

end
