(* ===== verification/Header_Facts.thy ===== *)
theory Header_Facts
  imports Service_Invariant Service_Facts
begin

text \<open>
  Following the finalized header: which stored requests a new header promotes, that the stored
  header never goes back, and when the main loop considers the server up to date.
\<close>

section \<open>The atomic update\<close>

lemma apply_state_cmds_views:
  assumes L: "laws S rely live"
  shows "rmapM (state_cmd S) us = Ok cmds \<Longrightarrow>
    state_view S (apply_cmds cmds m) = state_view S m ++ map_of (rev us) \<and>
    header_view S (apply_cmds cmds m) = header_view S m"
proof (induction us arbitrary: cmds m)
  case Nil
  then show ?case by simp
next
  case (Cons u us)
  obtain pid st where u: "u = (pid, st)" by (cases u)
  with Cons.prems obtain j cs where j: "ser_state (rs_json S) st = Inr j"
    and cmds: "cmds = Cmd_set_ex (proof_state_key S pid) j PROOF_STATE_TTL_SECS # cs"
    and cs: "rmapM (state_cmd S) us = Ok cs"
    by (auto simp: rbind_Ok_iff state_cmd_def)
  let ?m = "m(proof_state_key S pid \<mapsto> j)"
  have "state_view S ?m = (state_view S m)(pid \<mapsto> st)" "header_view S ?m = header_view S m"
    using state_view_upd [OF L j] lawsD(2) [OF L] by simp_all
  with Cons.IH [OF cs, of ?m] show ?case
    unfolding cmds apply_cmds.simps u by (simp del: fun_upd_apply)
qed

lemma update_alone:
  assumes L: "laws (ps_store ps) (=) live"
    and run: "on_srv (update_finalized_header_and_proof_states (ps_store ps) hdr us) w = (res, w')"
  shows "spawned w' = spawned w \<and>
    (res \<noteq> Ok () \<and> same_views ps live w w' \<or>
     header_of ps live w' = Some hdr \<and> states_of ps live w' = states_of ps live w ++ map_of (rev us))"
  using run
proof (cases rule: on_srv_cases)
  case (1 r)
  from 1(1) show ?thesis unfolding update_finalized_header_and_proof_states_def
  proof (cases rule: abind_cases)
    case (ok hj r1)
    then have hj: "ser_header (rs_json (ps_store ps)) hdr = Inr hj" and r1: "r1 = srv w"
      by (auto simp: alift_def)
    from ok(2) show ?thesis
    proof (cases rule: abind_cases)
      case okc: (ok cmds r2)
      then have cmds: "rmapM (state_cmd (ps_store ps)) us = Ok cmds" and r2: "r2 = srv w"
        using r1 by (auto simp: alift_def)
      let ?m = "(live (srv w))(finalized_header_key (ps_store ps) \<mapsto> hj)"
      have "live r = live (srv w) \<and> res \<noteq> Ok () \<or> live r = apply_cmds cmds ?m"
        using write_alone_cases [OF redis_lawsD(7) [OF lawsD(1) [OF L]] okc(2)] r2 by auto
      moreover have "state_view (ps_store ps) ?m = states_of ps live w" "header_view (ps_store ps) ?m = Some hdr"
        using lawsD(2) [OF L] header_view_upd [OF L hj] by simp_all
      ultimately show ?thesis
        using apply_state_cmds_views [OF L cmds, of ?m] 1(2) by (auto simp: same_views_def)
    qed (use r1 1 in \<open>auto simp: alift_def same_views_def\<close>)
  qed (use 1 in \<open>auto simp: alift_def same_views_def\<close>)
qed

section \<open>Promotion\<close>

text \<open>
  What a header with this block number and slot does to a stored state: a waiting request is taken up
  when the header's block has reached the requested one and its slot is past the contract's head.
\<close>

definition promoted :: "u64 \<Rightarrow> u64 \<Rightarrow> 'o proof_request_state \<Rightarrow> 'o proof_request_state" where
  "promoted block fslot st =
     (if status st = Waiting_for_finality \<and> src_chain_block_number (request st) \<le> block \<and>
         dst_chain_contract_from_head (request st) < fslot
      then st\<lparr>status := Generating\<rparr> else st)"

lemma promoted_alt: "promoted block fslot st = (if promotable block fslot st then st\<lparr>status := Generating\<rparr> else st)"
  by (simp add: promoted_def promotable_def)

text \<open>The states to store, as a map: exactly the promotable stored requests, as generating.\<close>

lemma promoted_map:
  assumes ids: "\<And>pid st. view pid = Some st \<Longrightarrow> new_id rt ps (request st) = pid"
    and found: "\<And>st. st \<in> set waiting \<longleftrightarrow> status st = Waiting_for_finality \<and> (\<exists>pid. view pid = Some st)"
  shows "view ++ map_of (rev (map (\<lambda>st. (new_id rt ps (request st), st\<lparr>status := Generating\<rparr>))
      (filter (promotable block fslot) waiting))) = (\<lambda>pid. map_option (promoted block fslot) (view pid))"
    (is "view ++ map_of (rev ?us) = _")
proof
  fix pid
  have dom: "pid \<in> fst ` set ?us \<longleftrightarrow> (\<exists>st. view pid = Some st \<and> promotable block fslot st)"
    using ids found by (force simp: image_iff promotable_def)
  show "(view ++ map_of (rev ?us)) pid = map_option (promoted block fslot) (view pid)"
  proof (cases "map_of (rev ?us) pid")
    case None
    then have "pid \<notin> fst ` set ?us" by (simp add: map_of_eq_None_iff image_iff)
    with dom None show ?thesis by (cases "view pid") (auto simp: map_add_def promoted_alt)
  next
    case (Some st')
    then have "(pid, st') \<in> set (rev ?us)" by (rule map_of_SomeD)
    then obtain st where st: "st \<in> set waiting" "promotable block fslot st"
        "pid = new_id rt ps (request st)" "st' = st\<lparr>status := Generating\<rparr>" by auto
    with found ids have "view pid = Some st" by metis
    with Some st show ?thesis by (simp add: map_add_def promoted_alt)
  qed
qed

definition newer_than :: "'x header option \<Rightarrow> 'x header \<Rightarrow> bool" where
  "newer_than stored latest \<longleftrightarrow>
     (case stored of Some h \<Rightarrow> slot (beacon h) < slot (beacon latest) | None \<Rightarrow> True)"

lemma process_header_locked_alone:
  assumes L: "laws (ps_store ps) (=) live" and plain: "plain_prefix (ps_store ps)"
    and complete: "scan_complete live (conn_manager (ps_store ps))"
    and inv: "store_inv (rt_crypto rt) (ps_store ps) (live (srv w))"
    and run: "process_new_finalized_header_locked rt ps latest w = (Ok u, w')"
  shows "if newer_than (header_of ps live w) latest
    then \<exists>ex. execution latest = Some ex \<and> header_of ps live w' = Some latest \<and>
      states_of ps live w' = (\<lambda>pid. map_option (promoted (block_number ex) (slot (beacon latest)))
        (states_of ps live w pid))
    else same_views ps live w w' \<and> spawned w' = spawned w"
proof -
  from run obtain stored w1 where rd: "on_srv (read_finalized_header (ps_store ps)) w = (Ok stored, w1)"
    and rest: "(if newer_than stored latest then
          abind (on_srv (find_requests_by_status (ps_store ps) (rt_fuel rt) Waiting_for_finality))
            (\<lambda>waiting_requests.
          case execution latest of
            None \<Rightarrow> afail (Internal ''Failed to get execution header from finality update'')
          | Some ex \<Rightarrow>
              (case collect_promoted rt ps (block_number ex) (slot (beacon latest)) waiting_requests [] [] of
                 (updated_states, requests_to_process_further) \<Rightarrow>
                   abind (on_srv (update_finalized_header_and_proof_states (ps_store ps) latest updated_states))
                     (\<lambda>_. afor requests_to_process_further (try_spawn rt ps))))
        else aret ()) w1 = (Ok u, w')"
    unfolding process_new_finalized_header_locked_def Let_def newer_than_def
    by (auto elim: abind_Ok_cases)
  note hd = read_header_world [OF L rd]
  show ?thesis
  proof (cases "newer_than stored latest")
    case False
    with rest hd show ?thesis by (auto simp: aret_def)
  next
    case True
    with rest obtain waiting w2 where find: "on_srv (find_requests_by_status (ps_store ps) (rt_fuel rt)
        Waiting_for_finality) w1 = (Ok waiting, w2)"
      and rest2: "(case execution latest of
            None \<Rightarrow> afail (Internal ''Failed to get execution header from finality update'')
          | Some ex \<Rightarrow>
              (case collect_promoted rt ps (block_number ex) (slot (beacon latest)) waiting [] [] of
                 (updated_states, requests_to_process_further) \<Rightarrow>
                   abind (on_srv (update_finalized_header_and_proof_states (ps_store ps) latest updated_states))
                     (\<lambda>_. afor requests_to_process_further (try_spawn rt ps)))) w2 = (Ok u, w')"
      by (auto elim: abind_Ok_cases)
    from find obtain r where r: "find_requests_by_status (ps_store ps) (rt_fuel rt) Waiting_for_finality
        (srv w1) = (Ok waiting, r)" and w2: "w2 = w1\<lparr>srv := r\<rparr>" by (rule on_srv_cases)
    have inv1: "store_inv (rt_crypto rt) (ps_store ps) (live (srv w1))" using inv hd by simp
    from find_requests_alone [OF L plain complete inv1 r] have r': "live r = live (srv w)"
      and waiting: "\<And>s. s \<in> set waiting \<longleftrightarrow> status s = Waiting_for_finality \<and>
        (\<exists>pid. states_of ps live w pid = Some s)" using hd by auto
    from rest2 obtain ex where ex: "execution latest = Some ex"
      by (auto simp: afail_def split: option.splits)
    let ?us = "map (\<lambda>st. (new_id rt ps (request st), st\<lparr>status := Generating\<rparr>))
      (filter (promotable (block_number ex) (slot (beacon latest))) waiting)"
    from rest2 ex obtain v w3 where upd: "on_srv (update_finalized_header_and_proof_states (ps_store ps)
        latest ?us) w2 = (Ok v, w3)"
      and spawn: "afor (map request (filter (promotable (block_number ex) (slot (beacon latest))) waiting))
        (try_spawn rt ps) w3 = (Ok u, w')"
      by (auto simp: collect_promoted_spec elim: abind_Ok_cases)
    have ids: "new_id rt ps (request st) = pid" if "states_of ps live w pid = Some st" for pid st
      using store_inv_state_key [OF inv lawsD(2) [OF L]] that
      by (auto simp: state_view_def state_at_def new_id_def)
    from update_alone [OF L upd] have "header_of ps live w3 = Some latest"
        "states_of ps live w3 = states_of ps live w ++ map_of (rev ?us)" using w2 r' by auto
    with promoted_map [of "states_of ps live w", OF ids waiting] spawn_loop_alone [OF L spawn] True hd ex
    show ?thesis by (auto simp: same_views_def)
  qed
qed

section \<open>The stored header never goes back\<close>

text \<open>
  \<open>header_floor s\<close>: a header of slot \<open>s\<close> or later is stored. Every operation keeps it on a shared
  server, as long as the other processes do.
\<close>

definition header_floor :: "u64 \<Rightarrow> ('r, 'x, 'o) redis_store \<Rightarrow> keyspace \<Rightarrow> bool" where
  "header_floor s S m \<longleftrightarrow> (\<exists>h. header_view S m = Some h \<and> s \<le> slot (beacon h))"

definition floor_shared ::
  "u64 \<Rightarrow> ('r, 'x, 'o) redis_store \<Rightarrow> ('r \<Rightarrow> 'r \<Rightarrow> bool) \<Rightarrow> ('r \<Rightarrow> keyspace) \<Rightarrow> bool" where
  "floor_shared s S rely live \<longleftrightarrow>
     laws S rely live \<and> plain_prefix S \<and> stable rely live (header_floor s S)"

abbreviation floor_on where
  "floor_on s S live \<equiv> (\<lambda>r. header_floor s S (live r))"

lemma floor_sharedD:
  assumes "floor_shared s S rely live"
  shows "laws S rely live" "text_ok S" "redis_laws rely live (conn_manager S)" "plain_prefix S"
    "stable rely live (header_floor s S)"
  using assms by (auto simp: floor_shared_def dest: lawsD)

lemma floor_read:
  assumes "floor_shared s S rely live" and "read_law rely live c ok"
  shows "preserves (floor_on s S live) (redis_call c)"
  by (rule ensures_read [OF floor_sharedD(5) [OF assms(1)] assms(2)]) simp

lemma floor_read_header:
  assumes sh: "floor_shared s S rely live"
  shows "ensures (floor_on s S live) (read_finalized_header S)
    (\<lambda>x. \<exists>h. x = Some h \<and> s \<le> slot (beacon h))"
  unfolding read_finalized_header_def read_json_value_def
proof (rule ensures_abind)
  show "ensures (floor_on s S live) (redis_call (rd_get (conn_manager S) (finalized_header_key S)))
      (\<lambda>v. \<exists>h. decoded (de_header (rs_json S)) v = Some h \<and> s \<le> slot (beacon h))"
    by (rule ensures_read [OF floor_sharedD(5) [OF sh] redis_lawsD(2) [OF floor_sharedD(3) [OF sh]]])
       (auto simp: header_floor_def header_view_def)
qed (auto simp: decoded_Some json_res_def intro!: ensures_alift)

lemma floor_get_state:
  assumes sh: "floor_shared s S rely live"
  shows "preserves (floor_on s S live) (get_proof_state S pid)"
  unfolding get_proof_state_def read_json_value_def
  by (intro preserves_abind floor_read [OF sh redis_lawsD(2) [OF floor_sharedD(3) [OF sh]]])
     (simp add: preserves_alift ensures_aret split: option.split)

lemma floor_set_state:
  assumes sh: "floor_shared s S rely live"
  shows "preserves (floor_on s S live) (set_proof_state S pid st)"
  unfolding set_proof_state_def
  by (intro preserves_abind preserves_alift
      preserves_write [OF floor_sharedD(5) [OF sh] redis_lawsD(6) [OF floor_sharedD(3) [OF sh]]])
     (simp add: header_floor_def floor_sharedD(2) [OF sh])

lemma floor_update:
  assumes sh: "floor_shared s S rely live" and "s \<le> slot (beacon hdr)"
  shows "preserves (floor_on s S live) (update_finalized_header_and_proof_states S hdr us)"
  unfolding update_finalized_header_and_proof_states_def
proof (rule ensures_abind, rule ensures_alift)
  fix hj assume "json_res (ser_header (rs_json S) hdr) = Ok hj"
  then show "ser_header (rs_json S) hdr = Inr hj" by simp
next
  fix hj assume hj: "ser_header (rs_json S) hdr = Inr hj"
  show "preserves (floor_on s S live) (abind (alift (rmapM (state_cmd S) us))
      (\<lambda>cmds. redis_call (rd_atomic (conn_manager S) (Cmd_set (finalized_header_key S) hj # cmds))))"
  proof (rule ensures_abind, rule ensures_alift)
    fix cmds assume "rmapM (state_cmd S) us = Ok cmds"
    then show "rmapM (state_cmd S) us = Ok cmds" .
  next
    fix cmds assume cmds: "rmapM (state_cmd S) us = Ok cmds"
    show "preserves (floor_on s S live) (redis_call (rd_atomic (conn_manager S)
        (Cmd_set (finalized_header_key S) hj # cmds)))"
      by (rule preserves_write [OF floor_sharedD(5) [OF sh] redis_lawsD(7) [OF floor_sharedD(3) [OF sh]]])
         (use assms(2) header_view_upd [OF floor_sharedD(1) [OF sh] hj]
            apply_state_cmds_views [OF floor_sharedD(1) [OF sh] cmds] in \<open>simp add: header_floor_def\<close>)
  qed
qed

lemma floor_locks:
  assumes sh: "floor_shared s S rely live"
  shows "preserves (floor_on s S live) (acquire_global_lock S)"
    and "preserves (floor_on s S live) (release_global_lock S)"
    and "preserves (floor_on s S live) (acquire_proof_generation_lock S pid t)"
proof -
  note st = floor_sharedD(5) [OF sh] and law = floor_sharedD(3) [OF sh]
  show "preserves (floor_on s S live) (acquire_global_lock S)"
    "preserves (floor_on s S live) (acquire_proof_generation_lock S pid t)"
    unfolding acquire_global_lock_def acquire_proof_generation_lock_def try_acquire_lock_def
    by (rule preserves_lock [OF st redis_lawsD(10) [OF law]], simp add: header_floor_def)+
  show "preserves (floor_on s S live) (release_global_lock S)"
    unfolding release_global_lock_def
    by (intro preserves_ignore preserves_write [OF st redis_lawsD(8) [OF law]])
       (simp add: header_floor_def)
qed

lemma floor_find:
  assumes sh: "floor_shared s S rely live"
  shows "preserves (floor_on s S live) (find_requests_by_status S fuel st)"
  by (rule preserves_find [OF floor_sharedD(1,4,5) [OF sh]])

lemma floor_on_srv:
  assumes "ensures (floor_on s (ps_store ps) live) m Q"
  shows "ensures (\<lambda>w. header_floor s (ps_store ps) (live (srv w))) (on_srv m) Q"
  using assms unfolding ensures_def on_srv_def by (fastforce split: prod.splits)

lemma floor_try_spawn:
  assumes sh: "floor_shared s (ps_store ps) rely live"
  shows "preserves (\<lambda>w. header_floor s (ps_store ps) (live (srv w))) (try_spawn rt ps rq)"
proof -
  have "preserves (\<lambda>w :: 'a world. header_floor s (ps_store ps) (live (srv w))) (spawn rq pid)" for pid
    by (simp add: ensures_def spawn_def)
  then show ?thesis
    unfolding try_spawn_def Let_def
    by (intro preserves_amatch floor_on_srv floor_locks(3) [OF sh]) (auto intro: ensures_aret)
qed

lemma floor_process_header:
  assumes sh: "floor_shared s (ps_store ps) rely live"
  shows "preserves (\<lambda>w. header_floor s (ps_store ps) (live (srv w))) (process_new_finalized_header rt ps latest)"
proof -
  have update: "preserves (\<lambda>w. header_floor s (ps_store ps) (live (srv w)))
      (case execution latest of
         None \<Rightarrow> afail (Internal ''Failed to get execution header from finality update'')
       | Some ex \<Rightarrow>
           (case collect_promoted rt ps (block_number ex) (slot (beacon latest)) waiting [] [] of
              (updated, further) \<Rightarrow>
                abind (on_srv (update_finalized_header_and_proof_states (ps_store ps) latest updated))
                  (\<lambda>_. afor further (try_spawn rt ps))))"
    if "s \<le> slot (beacon latest)" for waiting
    by (auto simp: collect_promoted_spec intro!: preserves_abind preserves_afor floor_try_spawn [OF sh]
        floor_on_srv floor_update [OF sh] that ensures_afail split: option.split)
  have locked: "preserves (\<lambda>w. header_floor s (ps_store ps) (live (srv w)))
      (process_new_finalized_header_locked rt ps latest)"
    unfolding process_new_finalized_header_locked_def Let_def
    by (rule ensures_abind [OF floor_on_srv [OF floor_read_header [OF sh]]])
       (auto intro!: preserves_abind floor_on_srv floor_find [OF sh] update ensures_aret
         dest: less_imp_le order_trans split: option.splits)
  show ?thesis
    unfolding process_new_finalized_header_def with_global_lock_def
    by (auto intro!: preserves_abind ensures_finally floor_on_srv floor_locks [OF sh] locked ensures_aret)
qed

text \<open>The other operations do not write the header at all.\<close>

lemma floor_read_srv:
  assumes sh: "floor_shared s (ps_store ps) rely live"
  shows "preserves (\<lambda>w. header_floor s (ps_store ps) (live (srv w)))
    (on_srv (read_finalized_header (ps_store ps)))"
  by (intro floor_on_srv ensures_preserves [OF floor_read_header [OF sh]])

lemma floor_initialize:
  assumes sh: "floor_shared s (ps_store ps) rely live"
  shows "preserves (\<lambda>w. header_floor s (ps_store ps) (live (srv w)))
    (initialize_request_locked rt ps fslot block rq)"
  unfolding initialize_request_locked_def Let_def
  by (auto intro!: preserves_abind floor_on_srv floor_set_state [OF sh] floor_try_spawn [OF sh] ensures_aret)

lemma floor_request:
  assumes sh: "floor_shared s (ps_store ps) rely live"
  shows "preserves (\<lambda>w. header_floor s (ps_store ps) (live (srv w))) (request_proof rt ps rq)"
proof -
  have "preserves (\<lambda>w. header_floor s (ps_store ps) (live (srv w))) (process_request_locked rt ps rq locked)"
    for locked
    unfolding process_request_locked_def get_proof_def Let_def
    by (intro preserves_abind floor_on_srv floor_get_state [OF sh])
       (auto intro!: preserves_abind floor_read_srv [OF sh] floor_initialize [OF sh] ensures_aret
         ensures_afail split: option.split)
  then show ?thesis
    unfolding request_proof_def with_global_lock_def
    by (auto intro!: preserves_abind ensures_finally floor_on_srv floor_locks [OF sh])
qed

lemma floor_restart:
  assumes sh: "floor_shared s (ps_store ps) rely live"
  shows "preserves (\<lambda>w. header_floor s (ps_store ps) (live (srv w))) (restart_orphaned_proofs rt ps)"
  unfolding restart_orphaned_proofs_def restart_each_loop
  by (intro preserves_abind preserves_afor floor_on_srv floor_find [OF sh] floor_try_spawn [OF sh])

lemma floor_generate:
  assumes sh: "floor_shared s (ps_store ps) rely live"
  shows "preserves (\<lambda>w. header_floor s (ps_store ps) (live (srv w)))
    (generate_and_store_proof rt ps attempts rq pid)"
proof -
  have "preserves (floor_on s (ps_store ps) live) (store_state_loop (ps_store ps) pid st fuel)" for st fuel
    by (induction fuel) (auto intro!: preserves_amatch floor_set_state [OF sh] ensures_aret preserves_alift)
  then show ?thesis
    unfolding generate_and_store_proof_def
    by (auto intro!: floor_on_srv preserves_alift split: res.split)
qed

lemma floor_extension:
  assumes sh: "floor_shared s S rely live"
  shows "preserves (floor_on s S live) (lock_extension_task S pid events)"
proof (induction events)
  case Nil
  show ?case by (simp add: ensures_aret)
next
  case (Cons e es)
  note st = floor_sharedD(5) [OF sh] and law = floor_sharedD(3) [OF sh]
  have ext: "preserves (floor_on s S live) (extend_proof_generation_lock S pid t)" for t
    unfolding extend_proof_generation_lock_def
    by (intro preserves_abind ensures_aret TrueI floor_read [OF sh redis_lawsD(9) [OF law]])
  have rel: "preserves (floor_on s S live) (release_proof_generation_lock S pid)"
    unfolding release_proof_generation_lock_def
    by (intro preserves_ignore preserves_write [OF st redis_lawsD(8) [OF law]])
       (simp add: header_floor_def)
  from Cons.IH have "preserves (floor_on s S live)
      (if b then lock_extension_task S pid es else aret False)" for b by (simp add: ensures_aret)
  then show ?case
    by (cases e) (auto intro!: preserves_amatch preserves_abind ext rel ensures_aret)
qed

lemma floor_turn:
  assumes sh: "floor_shared s (ps_store ps) rely live"
  shows "preserves (\<lambda>w. header_floor s (ps_store ps) (live (srv w))) (run_turn rt ps tn v)"
proof -
  have upd: "preserves (\<lambda>w. header_floor s (ps_store ps) (live (srv w))) (update_redis_state rt ps hdr flag)"
    for hdr flag
    unfolding update_redis_state_def
    by (intro preserves_amatch floor_process_header [OF sh] ensures_aret TrueI)
  have health: "preserves (floor_on s (ps_store ps) live) (check_header_health chk (ps_store ps) cfg now)"
    for chk cfg now
    unfolding check_header_health_def get_stored_header_age_def
    by (intro preserves_amatch preserves_abind ensures_preserves [OF floor_read_header [OF sh]])
       (simp_all add: preserves_alift ensures_aret ensures_afail split: option.split)
  show ?thesis
    unfolding run_turn_def
    by (intro preserves_abind preserves_amatch floor_restart [OF sh] ensures_aret TrueI
        floor_on_srv [OF health] preserves_alift)
       (simp add: upd ensures_aret)
qed

lemma service_step_floor:
  assumes sh: "floor_shared s (ps_store ps) rely live" and "service_step rt ps rely w w'"
    and inv: "header_floor s (ps_store ps) (live (srv w))"
  shows "header_floor s (ps_store ps) (live (srv w'))"
  using assms(2) inv
proof (cases rule: service_step.cases)
  case (step_others r)
  with inv floor_sharedD(5) [OF sh] show ?thesis by (simp add: stable_def)
qed (use inv in \<open>blast dest: ensuresD(1) [OF floor_request [OF sh]]
       ensuresD(1) [OF floor_process_header [OF sh]] ensuresD(1) [OF floor_restart [OF sh]]
       ensuresD(1) [OF floor_turn [OF sh]] ensuresD(1) [OF floor_generate [OF sh]]
       ensuresD(1) [OF floor_on_srv [OF floor_extension [OF sh]]]\<close>)+

section \<open>The main loop's flag\<close>

lemma process_header_result:
  assumes L: "laws (ps_store ps) (=) live" and plain: "plain_prefix (ps_store ps)"
    and complete: "scan_complete live (conn_manager (ps_store ps))"
    and inv: "store_inv (rt_crypto rt) (ps_store ps) (live (srv w))"
    and run: "process_new_finalized_header rt ps latest w = (Ok b, w')"
  shows "if global_held (ps_store ps) (live (srv w)) then \<not> b \<and> same_views ps live w w'
    else b \<and> (if newer_than (header_of ps live w) latest
      then \<exists>ex. execution latest = Some ex \<and> header_of ps live w' = Some latest \<and>
        states_of ps live w' = (\<lambda>pid. map_option (promoted (block_number ex) (slot (beacon latest)))
          (states_of ps live w pid))
      else same_views ps live w w')"
proof -
  from run obtain acquired w1 where acq: "on_srv (acquire_global_lock (ps_store ps)) w = (Ok acquired, w1)"
    and fin: "finally_act (if acquired
        then abind (process_new_finalized_header_locked rt ps latest) (\<lambda>_. aret True)
        else aret False) (on_srv (release_global_lock (ps_store ps))) w1 = (Ok b, w')"
    unfolding process_new_finalized_header_def with_global_lock_def by (auto elim: abind_Ok_cases)
  from acq obtain r where r: "acquire_global_lock (ps_store ps) (srv w) = (Ok acquired, r)"
    and w1: "w1 = w\<lparr>srv := r\<rparr>" by (rule on_srv_cases)
  have acquired: "acquired \<longleftrightarrow> \<not> global_held (ps_store ps) (live (srv w))"
    using global_lock.acquire_free [OF L r] .
  have same: "same_views ps live w w1"
    using try_acquire_keeps_views [OF L r [unfolded acquire_global_lock_def]] w1
    by (auto simp: same_views_def)
  have inv1: "store_inv (rt_crypto rt) (ps_store ps) (live (srv w1))"
    using ensuresD(1) [OF preserves_lock_ops(1) [of "rt_crypto rt" "ps_store ps" "(=)" live]] r inv L plain w1
    by (simp add: shared_def)
  show ?thesis
  proof (cases acquired)
    case False
    obtain u w3 where rel: "on_srv (release_global_lock (ps_store ps)) w1 = (u, w3)"
      by (cases "on_srv (release_global_lock (ps_store ps)) w1")
    with fin False have "\<not> b" "w' = w3" by (auto simp: finally_act_def aret_def)
    with release_global_keeps_views [OF L rel] same acquired False show ?thesis
      by (auto intro: same_views_trans)
  next
    case True
    obtain s w2 where lck: "process_new_finalized_header_locked rt ps latest w1 = (s, w2)"
      by (cases "process_new_finalized_header_locked rt ps latest w1")
    obtain u w3 where rel: "on_srv (release_global_lock (ps_store ps)) w2 = (u, w3)"
      by (cases "on_srv (release_global_lock (ps_store ps)) w2")
    from fin True lck rel have s: "s = Ok ()" "b" "w' = w3"
      by (cases s; auto simp: finally_act_def abind_def aret_def)+
    from process_header_locked_alone [OF L plain complete inv1 lck [unfolded s(1)]]
      release_global_keeps_views [OF L rel] same acquired True s
    show ?thesis by (auto simp: same_views_def split: if_splits)
  qed
qed

section \<open>Properties\<close>

text \<open>
  C7: on a server nobody else uses, and with a key prefix that has no pattern character, a new
  finalized header is processed exactly as specified. With
  the lock free and a newer header, the header is stored and every stored request whose finality
  condition it meets moves from waiting to generating, all at once, while every other request keeps
  its state; with an older or equal header, or with the lock held, nothing stored changes. The
  result says whether the server is known to be up to date.
\<close>

theorem new_header_promotes_exactly:
  assumes "laws (ps_store ps) (=) live" and "plain_prefix (ps_store ps)"
    and "scan_complete live (conn_manager (ps_store ps))"
    and "store_inv (rt_crypto rt) (ps_store ps) (live (srv w))"
    and "process_new_finalized_header rt ps latest w = (Ok b, w')"
  shows "if global_held (ps_store ps) (live (srv w)) then \<not> b \<and> same_views ps live w w'
    else b \<and> (if newer_than (header_of ps live w) latest
      then \<exists>ex. execution latest = Some ex \<and> header_of ps live w' = Some latest \<and>
        states_of ps live w' = (\<lambda>pid. map_option (promoted (block_number ex) (slot (beacon latest)))
          (states_of ps live w pid))
      else same_views ps live w w')"
  using assms by (rule process_header_result)

theorem new_header_promotes_exactly_witness:
  "\<exists>w'. process_new_finalized_header sample_runtime sample_service (sample_header 64)
      (sample_world [(sample_header_key, ''32''), (sample_key, ''w'')]) = (Ok True, w') \<and>
    header_of sample_service map_of w' = Some (sample_header 64) \<and>
    states_of sample_service map_of w' sample_pid = Some (sample_state Generating)"
proof -
  let ?w = "sample_world [(sample_header_key, ''32''), (sample_key, ''w'')]"
  have free: "\<not> global_held (ps_store sample_service) (map_of (srv ?w))"
    by (simp add: global_held_def sample_keys)
  have new: "newer_than (header_of sample_service map_of ?w) (sample_header 64)"
    by (simp add: newer_than_def header_view_def sample_keys sample_json_simps)
  have view: "states_of sample_service map_of ?w sample_pid = Some (sample_state Waiting_for_finality)"
    by (simp add: state_view_def sample_keys sample_json_simps)
  have inv: "store_inv (rt_crypto sample_runtime) (ps_store sample_service) (map_of (srv ?w))"
    using sample_waiting_inv by (simp add: service_inv_def)
  have base: "laws (ps_store sample_service) (=) map_of" "plain_prefix (ps_store sample_service)"
      "scan_complete map_of (conn_manager (ps_store sample_service))"
    using sample_laws sample_plain sample_scan_complete by simp_all
  let ?w' = "\<lparr>srv = [(sample_header_key, ''64''), (sample_key, ''g''), (sample_lock_key, ''locked'')],
    spawned = [(sample_request, sample_pid)]\<rparr>"
  from new_header_promotes_exactly [OF base inv sample_process_header] free new
  obtain ex where ex: "execution (sample_header 64) = Some ex"
    and hdr: "header_of sample_service map_of ?w' = Some (sample_header 64)"
    and st: "states_of sample_service map_of ?w' = (\<lambda>pid. map_option
      (promoted (block_number ex) (slot (beacon (sample_header 64)))) (states_of sample_service map_of ?w pid))"
    by (auto simp only: if_True if_False simp_thms)
  from ex have "block_number ex = 64" by auto
  with fun_cong [OF st, of sample_pid] view
  have "states_of sample_service map_of ?w' sample_pid = Some (sample_state Generating)"
    by (simp only: option.map promoted_def) (simp add: sample_state_forms)
  with hdr sample_process_header show ?thesis by blast
qed

text \<open>
  C26: no operation of a worker on a shared server leaves a header older than one stored when it
  began, however its commands interleave with the others' and whether or not it holds the lock, as
  long as the interference does not: a header is written only after an older one was read.
\<close>

theorem stored_header_never_goes_back:
  assumes "header_of ps live w0 = Some h" and "floor_shared (slot (beacon h)) (ps_store ps) rely live"
    and "(service_step rt ps rely)\<^sup>*\<^sup>* w0 w"
  shows "\<exists>h'. header_of ps live w = Some h' \<and> slot (beacon h) \<le> slot (beacon h')"
proof -
  have "header_floor (slot (beacon h)) (ps_store ps) (live (srv w0))"
    using assms(1) by (auto simp: header_floor_def)
  with assms(3) have "header_floor (slot (beacon h)) (ps_store ps) (live (srv w))"
    by (induction rule: rtranclp_induct) (auto intro: service_step_floor [OF assms(2)])
  then show ?thesis by (simp add: header_floor_def)
qed

theorem stored_header_never_goes_back_witness:
  "\<exists>w h. (service_step sample_runtime sample_service (=))\<^sup>*\<^sup>*
      (sample_world [(sample_header_key, ''32''), (sample_key, ''w'')]) w \<and>
     header_of sample_service map_of w = Some h \<and> 32 \<le> slot (beacon h)"
proof -
  let ?w = "sample_world [(sample_header_key, ''32''), (sample_key, ''w'')]"
  have h: "header_of sample_service map_of ?w = Some (sample_header 32)"
    by (simp add: header_view_def sample_keys sample_json_simps)
  have sh: "floor_shared (slot (beacon (sample_header 32))) (ps_store sample_service) (=) map_of"
    using sample_laws sample_plain by (simp add: floor_shared_def)
  from step_header [OF sample_process_header]
  have steps: "(service_step sample_runtime sample_service (=))\<^sup>*\<^sup>* ?w
      \<lparr>srv = [(sample_header_key, ''64''), (sample_key, ''g''), (sample_lock_key, ''locked'')],
        spawned = [(sample_request, sample_pid)]\<rparr>" by (rule r_into_rtranclp)
  from stored_header_never_goes_back [OF h sh steps] steps show ?thesis by auto
qed

end
