(* ===== verification/Task_Facts.thy ===== *)
theory Task_Facts
  imports Header_Facts
begin

text \<open>
  Generation tasks: how often the inputs are tried, what a task stores, that it stores it as soon as
  the server accepts a write, how its lock lives and dies, and which tasks are restarted.
\<close>

section \<open>Building the inputs\<close>

lemma get_proof_inputs_unfold:
  "get_proof_inputs rt ps rq attempts =
     (case get_proof_inputs_once rt rq (attempts 0) of
        Err _ \<Rightarrow>
          (case get_proof_inputs_once rt rq (attempts 1) of
             Err _ \<Rightarrow>
               (case get_proof_inputs_once rt rq (attempts 2) of
                  Err e \<Rightarrow> Err (Attempts_exhausted (new_id rt ps rq) e)
                | r \<Rightarrow> r)
           | r \<Rightarrow> r)
      | r \<Rightarrow> r)"
  unfolding get_proof_inputs_def
  by (subst get_proof_inputs_loop.simps, subst get_proof_inputs_loop.simps,
      subst get_proof_inputs_loop.simps)
     (simp add: MAX_GET_PROOF_INPUTS_ATTEMPTS_def numeral_2_eq_2 split: res.split)

lemma less_3_cases: "(\<exists>k < (3 :: nat). P k) \<longleftrightarrow> P 0 \<or> P 1 \<or> P 2"
  by (auto simp: less_Suc_eq numeral_3_eq_3 numeral_2_eq_2)

lemma get_proof_inputs_Ok:
  "get_proof_inputs rt ps rq attempts = Ok inp \<longleftrightarrow>
     (\<exists>k < 3. get_proof_inputs_once rt rq (attempts k) = Ok inp \<and>
        (\<forall>j < k. is_err (get_proof_inputs_once rt rq (attempts j))))"
  unfolding less_3_cases get_proof_inputs_unfold
  by (auto simp: less_Suc_eq numeral_2_eq_2 split: res.splits)

lemma get_proof_inputs_Err:
  "get_proof_inputs rt ps rq attempts = Err e \<longleftrightarrow>
     (\<forall>k < 3. is_err (get_proof_inputs_once rt rq (attempts k))) \<and>
     (\<exists>e'. get_proof_inputs_once rt rq (attempts 2) = Err e' \<and> e = Attempts_exhausted (new_id rt ps rq) e')"
  unfolding get_proof_inputs_unfold
  by (auto simp: less_Suc_eq numeral_2_eq_2 numeral_3_eq_3 split: res.splits)

section \<open>What a task stores\<close>

lemma store_state_loop_alone:
  assumes L: "laws S (=) live"
  shows "store_state_loop S pid st fuel r = (Ok u, r') \<Longrightarrow>
    state_view S (live r') = (state_view S (live r))(pid \<mapsto> st) \<and> header_view S (live r') = header_view S (live r)"
proof (induction fuel arbitrary: r)
  case 0
  then show ?case by (simp add: alift_def)
next
  case (Suc fuel)
  obtain s r1 where step: "set_proof_state S pid st r = (s, r1)" by (cases "set_proof_state S pid st r")
  from set_proof_state_alone [OF L step] lawsD(2) [OF L] state_view_upd [OF L]
  have eff: "state_view S (live r1) = state_view S (live r) \<and> s \<noteq> Ok () \<or>
      state_view S (live r1) = (state_view S (live r))(pid \<mapsto> st)"
    and hdr: "header_view S (live r1) = header_view S (live r)" by auto
  show ?case
  proof (cases s)
    case (Ok v)
    with Suc.prems step have "r' = r1" by (auto simp: amatch_def aret_def)
    with eff hdr Ok show ?thesis by auto
  next
    case (Err e)
    with Suc.prems step have "store_state_loop S pid st fuel r1 = (Ok u, r')" by (auto simp: amatch_def)
    from Suc.IH [OF this] eff hdr show ?thesis by auto
  qed (use Suc.prems step in \<open>auto simp: amatch_def\<close>)
qed

text \<open>\<open>task_outcome\<close>: the result the task decides on, with the reason for it.\<close>

definition task_outcome ::
  "('r, 'x, 'o) proof_service \<Rightarrow> (task_error, 'x proof_inputs) res \<Rightarrow> task_error + 'o \<Rightarrow> bool" where
  "task_outcome ps inputs out \<longleftrightarrow>
     (case out of
        Inr d \<Rightarrow> \<exists>inp. inputs = Ok inp \<and> slot (beacon (fin_header (finality_upd inp))) mod 32 = 0 \<and>
          generate_proof (ps_backend ps) inp = Inr d
      | Inl e \<Rightarrow> inputs = Err e \<or>
          (\<exists>inp s. inputs = Ok inp \<and> s = slot (beacon (fin_header (finality_upd inp))) \<and>
            (if s mod 32 = 0 then (\<exists>msg. generate_proof (ps_backend ps) inp = Inl msg \<and> e = Backend_failed msg)
             else e = Slot_not_checkpoint s)))"

lemma proof_output_result_outcome:
  assumes "proof_output_result ps inputs = r"
  shows "(\<forall>d. r = Ok d \<longrightarrow> task_outcome ps inputs (Inr d)) \<and> (\<forall>e. r = Err e \<longrightarrow> task_outcome ps inputs (Inl e))"
proof (cases inputs)
  case (Ok inp)
  define s where "s = slot (beacon (fin_header (finality_upd inp)))"
  show ?thesis
  proof (cases "s mod 32 = 0")
    case True
    with Ok assms show ?thesis
      by (cases "generate_proof (ps_backend ps) inp")
         (auto simp: proof_output_result_def task_outcome_def s_def)
  next
    case False
    with Ok assms show ?thesis
      by (auto simp: proof_output_result_def task_outcome_def s_def Let_def)
  qed
qed (use assms in \<open>auto simp: proof_output_result_def task_outcome_def\<close>)

lemma generate_alone:
  assumes L: "laws (ps_store ps) (=) live"
    and run: "generate_and_store_proof rt ps attempts rq pid w = (Ok u, w')"
  shows "\<exists>out. task_outcome ps (get_proof_inputs rt ps rq attempts) out \<and>
    states_of ps live w' = (states_of ps live w)(pid \<mapsto> updated_proof_state rt rq out) \<and>
    header_of ps live w' = header_of ps live w"
proof -
  obtain out where out: "task_outcome ps (get_proof_inputs rt ps rq attempts) out"
    and st: "on_srv (store_state_loop (ps_store ps) pid (updated_proof_state rt rq out) (rt_fuel rt)) w = (Ok u, w')"
    using run proof_output_result_outcome [of ps "get_proof_inputs rt ps rq attempts", OF refl]
    by (auto simp: generate_and_store_proof_def alift_def split: res.splits)
  from st obtain r where "store_state_loop (ps_store ps) pid (updated_proof_state rt rq out) (rt_fuel rt)
      (srv w) = (Ok u, r)" "w' = w\<lparr>srv := r\<rparr>" by (rule on_srv_cases)
  with store_state_loop_alone [OF L this(1)] out show ?thesis by auto
qed

text \<open>The server after a number of attempts to store the state.\<close>

definition after_attempts ::
  "('r, 'x, 'o) redis_store \<Rightarrow> proof_id \<Rightarrow> 'o proof_request_state \<Rightarrow> nat \<Rightarrow> 'r \<Rightarrow> 'r" where
  "after_attempts S pid st k = ((\<lambda>r. snd (set_proof_state S pid st r)) ^^ k)"

lemma store_state_loop_retries:
  assumes "\<And>j. j < k \<Longrightarrow> is_err (fst (set_proof_state S pid st (after_attempts S pid st j r)))"
    and "fst (set_proof_state S pid st (after_attempts S pid st k r)) = Ok ()"
    and "k < fuel"
  shows "store_state_loop S pid st fuel r = (Ok (), after_attempts S pid st (Suc k) r)"
  using assms
proof (induction k arbitrary: r fuel)
  case 0
  then obtain f where "fuel = Suc f" by (cases fuel) auto
  with 0 show ?case
    by (cases "set_proof_state S pid st r") (simp add: after_attempts_def amatch_def aret_def)
next
  case (Suc k)
  then obtain f where f: "fuel = Suc f" "k < f" by (cases fuel) auto
  obtain s r1 where step: "set_proof_state S pid st r = (s, r1)" by (cases "set_proof_state S pid st r")
  have shift: "after_attempts S pid st (Suc j) r = after_attempts S pid st j r1" for j
    by (simp add: after_attempts_def funpow_swap1 step)
      (metis (no_types, lifting) funpow_swap1 snd_conv step)
  from Suc.prems(1) [of 0] step obtain e where "s = Err e"
    by (auto simp: after_attempts_def is_err_iff)
  moreover have "store_state_loop S pid st f r1 = (Ok (), after_attempts S pid st (Suc k) r1)"
    using Suc.prems f by (intro Suc.IH) (auto simp: shift [symmetric])
  ultimately show ?case by (simp add: f amatch_def step shift)
qed

section \<open>The lock of a task\<close>

definition answers :: "'r redis \<Rightarrow> bool" where
  "answers R \<longleftrightarrow> reliable R \<and> (\<forall>k t r e r'. rd_pexpire R k t r \<noteq> (Inl e, r'))"

lemma extend_reliable:
  assumes L: "laws S (=) live" and "answers (conn_manager S)"
  shows "\<exists>r'. extend_proof_generation_lock S pid t r = (Ok (generation_held S (live r) pid), r') \<and> live r' = live r"
proof -
  obtain s r' where px: "rd_pexpire (conn_manager S) (proof_generation_lock_key S pid) t r = (s, r')"
    by (cases "rd_pexpire (conn_manager S) (proof_generation_lock_key S pid) t r")
  with assms(2) obtain n where "s = Inr n" by (cases s) (auto simp: answers_def)
  with px have "extend_proof_generation_lock S pid t r = (Ok (n = 1), r')"
    by (simp add: extend_proof_generation_lock_def abind_def redis_call_def aret_def)
  with extend_lock_alone [OF L this] show ?thesis by auto
qed

lemma answers_reliable: "answers R \<Longrightarrow> reliable R"
  by (simp add: answers_def)

lemma release_generation_reliable:
  assumes L: "laws S (=) live" and "reliable (conn_manager S)"
  shows "\<exists>r'. release_proof_generation_lock S pid r = (Ok (), r') \<and>
    live r' = (live r)(proof_generation_lock_key S pid := None)"
proof -
  obtain s r1 where del: "rd_del (conn_manager S) (proof_generation_lock_key S pid) r = (s, r1)"
    by (cases "rd_del (conn_manager S) (proof_generation_lock_key S pid) r")
  with assms(2) obtain u where "s = Inr u" by (cases s) (auto simp: reliable_def)
  with del have call: "redis_call (rd_del (conn_manager S) (proof_generation_lock_key S pid)) r = (Ok (), r1)"
    by (simp add: redis_call_def)
  then have "release_proof_generation_lock S pid r = (Ok (), r1)"
    by (simp add: release_proof_generation_lock_def ignore_result_def amatch_def aret_def)
  with write_alone [OF redis_lawsD(8) [OF lawsD(1) [OF L]] call] show ?thesis by simp
qed

lemma extension_stops:
  assumes L: "laws S (=) live" and ans: "answers (conn_manager S)" and "\<not> generation_held S (live r) pid"
  shows "\<exists>r'. lock_extension_task S pid (Tick # es) r = (Ok False, r') \<and> live r' = live r"
proof -
  from extend_reliable [OF L ans, of pid _ r] assms(3) obtain r1 where
    "extend_proof_generation_lock S pid
      ((LOCK_EXTENSION_INTERVAL_SECS + LOCK_EXTENSION_BUFFER_SECS) * 1000) r = (Ok False, r1)" "live r1 = live r"
    by force
  then show ?thesis by (simp add: amatch_def aret_def)
qed

lemma apply_state_cmds_locks:
  "rmapM (state_cmd S) us = Ok cmds \<Longrightarrow> generation_held S (apply_cmds cmds m) = generation_held S m"
proof (induction us arbitrary: cmds m)
  case (Cons u us)
  obtain pid st where u: "u = (pid, st)" by (cases u)
  with Cons.prems obtain j cs where
    "cmds = Cmd_set_ex (proof_state_key S pid) j PROOF_STATE_TTL_SECS # cs" "rmapM (state_cmd S) us = Ok cs"
    by (auto simp: rbind_Ok_iff state_cmd_def)
  with Cons.IH [of cs "m(proof_state_key S pid \<mapsto> j)"] show ?case by (simp del: fun_upd_apply)
qed simp

section \<open>Restarting\<close>

text \<open>A task is spawned only under a lock that was free and is held from then on.\<close>

lemma acquire_generation_any:
  assumes L: "laws S (=) live" and run: "acquire_proof_generation_lock S pid t r = (res, r')"
  shows "live r' = live r \<or> live r' = (live r)(proof_generation_lock_key S pid \<mapsto> ''locked'')"
  using lock_alone_any [OF redis_lawsD(10) [OF lawsD(1) [OF L]]
      run [unfolded acquire_proof_generation_lock_def try_acquire_lock_def]] .

lemma try_spawn_lock:
  assumes L: "laws (ps_store ps) (=) live" and run: "try_spawn rt ps rq w = (res, w')"
  shows "(\<forall>pid. generation_held (ps_store ps) (live (srv w)) pid \<longrightarrow>
      generation_held (ps_store ps) (live (srv w')) pid) \<and>
    (spawned w' \<noteq> spawned w \<longrightarrow> generation_held (ps_store ps) (live (srv w')) (new_id rt ps rq))"
proof -
  obtain s r where r: "acquire_proof_generation_lock (ps_store ps) (new_id rt ps rq)
      INITIAL_PROOF_GENERATION_LOCK_DURATION_MS (srv w) = (s, r)"
    by (cases "acquire_proof_generation_lock (ps_store ps) (new_id rt ps rq)
      INITIAL_PROOF_GENERATION_LOCK_DURATION_MS (srv w)")
  have w': "srv w' = r \<and> (spawned w' \<noteq> spawned w \<longrightarrow> s = Ok True)"
    using run r by (cases s) (auto simp: try_spawn_def Let_def amatch_def on_srv_def spawn_def aret_def
        split: if_splits)
  have "generation_held (ps_store ps) (live r) (new_id rt ps rq)" if "s = Ok True"
    using generation_lock.acquire_holds [OF L, of "new_id rt ps rq"] r that by simp
  with w' acquire_generation_any [OF L r] lawsD(2) [OF L] show ?thesis by (auto split: if_splits)
qed

lemma spawn_loop_locks:
  assumes L: "laws (ps_store ps) (=) live"
  shows "afor rqs (try_spawn rt ps) w = (res, w') \<Longrightarrow>
    \<exists>new. spawned w' = spawned w @ new \<and> distinct (map snd new) \<and>
      (\<forall>(rq, pid) \<in> set new. rq \<in> set rqs \<and> pid = new_id rt ps rq \<and>
         \<not> generation_held (ps_store ps) (live (srv w)) pid)"
proof (induction rqs arbitrary: w)
  case Nil
  then show ?case by (auto simp: aret_def)
next
  case (Cons rq rqs)
  obtain s w1 where step: "try_spawn rt ps rq w = (s, w1)" by (cases "try_spawn rt ps rq w")
  note one = try_spawn_alone [OF L step] and lck = try_spawn_lock [OF L step]
  with Cons.prems step have "afor rqs (try_spawn rt ps) w1 = (res, w')" by (auto simp: abind_def)
  from Cons.IH [OF this] obtain new where new: "spawned w' = spawned w1 @ new" "distinct (map snd new)"
    "\<forall>(rq, pid) \<in> set new. rq \<in> set rqs \<and> pid = new_id rt ps rq \<and>
       \<not> generation_held (ps_store ps) (live (srv w1)) pid" by blast
  show ?case
  proof (cases "spawned w1 = spawned w")
    case True
    with new lck show ?thesis by (intro exI [of _ new]) auto
  next
    case False
    with one have sp: "spawned w1 = spawned w @ [(rq, new_id rt ps rq)]"
      "\<not> generation_held (ps_store ps) (live (srv w)) (new_id rt ps rq)" by auto
    from lck False have "generation_held (ps_store ps) (live (srv w1)) (new_id rt ps rq)" by simp
    with new have "new_id rt ps rq \<notin> snd ` set new" by auto
    with new lck sp show ?thesis by (intro exI [of _ "(rq, new_id rt ps rq) # new"]) auto
  qed
qed

lemma restart_alone:
  assumes L: "laws (ps_store ps) (=) live" and plain: "plain_prefix (ps_store ps)"
    and complete: "scan_complete live (conn_manager (ps_store ps))"
    and inv: "store_inv (rt_crypto rt) (ps_store ps) (live (srv w))"
    and run: "restart_orphaned_proofs rt ps w = (Ok u, w')"
  shows "same_views ps live w w' \<and> (\<exists>new. spawned w' = spawned w @ new \<and> distinct (map snd new) \<and>
    (\<forall>(rq, pid) \<in> set new. (\<exists>st. states_of ps live w pid = Some st \<and> status st = Generating \<and> request st = rq) \<and>
       \<not> generation_held (ps_store ps) (live (srv w)) pid))"
proof -
  from run obtain gs w1 where find: "on_srv (find_requests_by_status (ps_store ps) (rt_fuel rt) Generating) w
      = (Ok gs, w1)"
    and loop: "afor (map request gs) (try_spawn rt ps) w1 = (Ok u, w')"
    unfolding restart_orphaned_proofs_def restart_each_loop by (auto elim: abind_Ok_cases)
  from find obtain r where r: "find_requests_by_status (ps_store ps) (rt_fuel rt) Generating (srv w) = (Ok gs, r)"
    and w1: "w1 = w\<lparr>srv := r\<rparr>" by (rule on_srv_cases)
  from find_requests_alone [OF L plain complete inv r] have r': "live r = live (srv w)"
    and gs: "\<And>s. s \<in> set gs \<longleftrightarrow> status s = Generating \<and> (\<exists>pid. states_of ps live w pid = Some s)" by auto
  have ids: "new_id rt ps (request st) = pid" if "states_of ps live w pid = Some st" for pid st
    using store_inv_state_key [OF inv lawsD(2) [OF L]] that
    by (auto simp: state_view_def state_at_def new_id_def)
  from spawn_loop_locks [OF L loop] obtain new where new: "spawned w' = spawned w1 @ new"
    "distinct (map snd new)" "\<forall>(rq, pid) \<in> set new. rq \<in> request ` set gs \<and> pid = new_id rt ps rq \<and>
       \<not> generation_held (ps_store ps) (live (srv w1)) pid" by auto
  have "\<forall>(rq, pid) \<in> set new. (\<exists>st. states_of ps live w pid = Some st \<and> status st = Generating \<and>
      request st = rq) \<and> \<not> generation_held (ps_store ps) (live (srv w)) pid"
  proof (clarify, intro conjI)
    fix rq pid assume mem: "(rq, pid) \<in> set new"
    with new(3) obtain st where st: "st \<in> set gs" "rq = request st" "pid = new_id rt ps rq" by auto
    with gs ids show "\<exists>st. states_of ps live w pid = Some st \<and> status st = Generating \<and> request st = rq"
      by metis
    from mem new(3) w1 r' show "\<not> generation_held (ps_store ps) (live (srv w)) pid" by auto
  qed
  with new(1,2) w1 r' spawn_loop_alone [OF L loop] show ?thesis
    by (auto simp: same_views_def)
qed

section \<open>Properties\<close>

text \<open>
  C35: the inputs of a proof are tried at most three times: the first success is returned and nothing
  is tried after it, and only when all three attempts fail is the last one's error reported, with the
  identifier of the request.
\<close>

theorem inputs_within_three_attempts:
  "(get_proof_inputs rt ps rq attempts = Ok inp \<longleftrightarrow>
      (\<exists>k < 3. get_proof_inputs_once rt rq (attempts k) = Ok inp \<and>
         (\<forall>j < k. is_err (get_proof_inputs_once rt rq (attempts j))))) \<and>
   (get_proof_inputs rt ps rq attempts = Err e \<longleftrightarrow>
      (\<forall>k < 3. is_err (get_proof_inputs_once rt rq (attempts k))) \<and>
      (\<exists>e'. get_proof_inputs_once rt rq (attempts 2) = Err e' \<and>
         e = Attempts_exhausted (new_id rt ps rq) e'))"
  by (simp add: get_proof_inputs_Ok get_proof_inputs_Err)

theorem inputs_within_three_attempts_witness:
  "\<forall>attempts. get_proof_inputs (sample_runtime\<lparr>rt_env := Map.empty\<rparr>) sample_service sample_request attempts =
     Err (Attempts_exhausted sample_pid (Consensus_failed (Env_missing ''SOURCE_CHAIN_ID'')))"
proof -
  have once: "get_proof_inputs_once (sample_runtime\<lparr>rt_env := Map.empty\<rparr>) sample_request at =
      Err (Consensus_failed (Env_missing ''SOURCE_CHAIN_ID''))" for at
    by (simp add: get_proof_inputs_once_def consensus_get_proof_inputs_def client_from_env_def)
  have "new_id (sample_runtime\<lparr>rt_env := Map.empty\<rparr>) sample_service sample_request = sample_pid"
    by (simp add: new_id_def sample_pid_def)
  with inputs_within_three_attempts [of "sample_runtime\<lparr>rt_env := Map.empty\<rparr>" sample_service] once
  show ?thesis by simp
qed

lemma inputs_exhausted_sample:
  "get_proof_inputs (sample_runtime\<lparr>rt_env := Map.empty\<rparr>) sample_service sample_request attempts =
     Err (Attempts_exhausted sample_pid (Consensus_failed (Env_missing ''SOURCE_CHAIN_ID'')))"
proof -
  have once: "get_proof_inputs_once (sample_runtime\<lparr>rt_env := Map.empty\<rparr>) sample_request at =
      Err (Consensus_failed (Env_missing ''SOURCE_CHAIN_ID''))" for at
    by (simp add: get_proof_inputs_once_def consensus_get_proof_inputs_def client_from_env_def)
  then show ?thesis
    by (simp add: get_proof_inputs_unfold new_id_def sample_pid_def)
qed

text \<open>
  C25: a generation task that finishes, on a server nobody else uses, leaves for its request either a
  success with the prover's output, and then the inputs were built, their finalized slot is the first
  of an epoch (divisible by 32) and the prover accepted them; or an error with the text of what
  failed: the inputs, the slot or the prover. No other request and not the header are touched.
\<close>

theorem task_stores_outcome:
  assumes "laws (ps_store ps) (=) live"
    and "generate_and_store_proof rt ps attempts rq pid w = (Ok u, w')"
  shows "\<exists>out. task_outcome ps (get_proof_inputs rt ps rq attempts) out \<and>
    states_of ps live w' = (states_of ps live w)(pid \<mapsto> updated_proof_state rt rq out) \<and>
    header_of ps live w' = header_of ps live w"
  using assms by (rule generate_alone)

lemma sample_failed_task:
  "generate_and_store_proof (sample_runtime\<lparr>rt_env := Map.empty\<rparr>) sample_service attempts sample_request
     sample_pid (sample_world []) = (Ok (), sample_world [(sample_key, ''e'')])"
proof -
  have "(new_request_state sample_request)\<lparr>status := Errored, error_message := Some ''failed''\<rparr> =
      sample_state Errored"
    by (simp add: sample_state_def new_request_state_def)
  then show ?thesis
    unfolding generate_and_store_proof_def inputs_exhausted_sample proof_output_result_def
    by (simp add: updated_proof_state_def sample_runtime_def numeral_3_eq_3 set_proof_state_def
        sample_run_simps sample_world_def)
qed

theorem task_stores_outcome_witness:
  "\<exists>attempts w'. generate_and_store_proof (sample_runtime\<lparr>rt_env := Map.empty\<rparr>) sample_service attempts
      sample_request sample_pid (sample_world []) = (Ok (), w') \<and>
    (\<exists>st. states_of sample_service map_of w' sample_pid = Some st)"
  using task_stores_outcome [of sample_service map_of, OF _ sample_failed_task] sample_laws
    sample_failed_task by fastforce

text \<open>
  The task's state is stored as soon as the server accepts a write: after any number \<open>k\<close> of
  failed attempts the loop has not given up, and it returns after the first success.
\<close>

theorem store_retries_until_accepted:
  assumes "\<And>j. j < k \<Longrightarrow> is_err (fst (set_proof_state S pid st (after_attempts S pid st j r)))"
    and "fst (set_proof_state S pid st (after_attempts S pid st k r)) = Ok ()"
    and "k < fuel"
  shows "store_state_loop S pid st fuel r = (Ok (), after_attempts S pid st (Suc k) r)"
  using assms by (rule store_state_loop_retries)

text \<open>A server that refuses its first writes: its state also counts the refusals left.\<close>

definition flaky_redis :: "(nat \<times> (string \<times> string) list) redis" where
  "flaky_redis = \<lparr>
     rd_get = (\<lambda>k (n, r). (Inr (map_of r k), (n, r))),
     rd_mget = (\<lambda>ks (n, r). (Inr (map (map_of r) ks), (n, r))),
     rd_set = (\<lambda>k v (n, r). (Inr (), (n, al_set k v r))),
     rd_set_ex = (\<lambda>k v t (n, r). if n = 0 then (Inr (), (0, al_set k v r)) else (Inl ''busy'', (n - 1, r))),
     rd_atomic = (\<lambda>cs (n, r). (Inr (), (n, al_cmds cs r))),
     rd_scan = (\<lambda>c p m (n, r). (Inr (0, []), (n, r))),
     rd_set_nx_px = (\<lambda>k v t (n, r). (Inr False, (n, r))),
     rd_pexpire = (\<lambda>k t (n, r). (Inr 0, (n, r))),
     rd_del = (\<lambda>k (n, r). (Inr (), (n, r))) \<rparr>"

definition flaky_store :: "(nat \<times> (string \<times> string) list, nat, string) redis_store" where
  "flaky_store = \<lparr>conn_manager = flaky_redis, key_prefix = ''p'', global_lock_duration_secs = 5,
     rs_text = sample_text, rs_json = sample_json\<rparr>"

theorem store_retries_until_accepted_witness:
  "store_state_loop flaky_store sample_pid (sample_state Success) 9 (2, []) =
     (Ok (), (0, [(proof_state_key flaky_store sample_pid, ''s'')]))"
proof -
  have step: "set_proof_state flaky_store sample_pid (sample_state Success) (n, r) =
      (if n = 0 then (Ok (), (0, al_set (proof_state_key flaky_store sample_pid) ''s'' r))
       else (Err (Redis_error ''busy''), (n - 1, r)))" for n r
    by (simp add: set_proof_state_def flaky_store_def flaky_redis_def abind_def alift_def json_res_def
        sample_json_simps redis_call_def)
  have "store_state_loop flaky_store sample_pid (sample_state Success) 9 (2, []) =
      (Ok (), after_attempts flaky_store sample_pid (sample_state Success) (Suc 2) (2, []))"
    by (rule store_retries_until_accepted)
       (auto simp: after_attempts_def step less_Suc_eq numeral_2_eq_2)
  then show ?thesis by (simp add: after_attempts_def step numeral_2_eq_2)
qed

text \<open>
  Restarting orphaned tasks, on a server nobody else uses, spawns tasks only for requests stored
  as generating whose lock nobody held, at most one for each, and changes no stored value.
\<close>

theorem restart_only_orphans:
  assumes "laws (ps_store ps) (=) live" and "plain_prefix (ps_store ps)"
    and "scan_complete live (conn_manager (ps_store ps))"
    and "store_inv (rt_crypto rt) (ps_store ps) (live (srv w))"
    and "restart_orphaned_proofs rt ps w = (Ok u, w')"
  shows "same_views ps live w w' \<and> (\<exists>new. spawned w' = spawned w @ new \<and> distinct (map snd new) \<and>
    (\<forall>(rq, pid) \<in> set new. (\<exists>st. states_of ps live w pid = Some st \<and> status st = Generating \<and> request st = rq) \<and>
       \<not> generation_held (ps_store ps) (live (srv w)) pid))"
  using assms by (rule restart_alone)

lemma sample_restart:
  "restart_orphaned_proofs sample_runtime sample_service (sample_world (sample_server Generating)) =
     (Ok (), \<lparr>srv = sample_server Generating @ [(sample_lock_key, ''locked'')],
        spawned = [(sample_request, sample_pid)]\<rparr>)"
  by (simp add: restart_orphaned_proofs_def restart_each_def find_requests_by_status_def numeral_3_eq_3 scan_batch_def
      try_spawn_def acquire_proof_generation_lock_def try_acquire_lock_def spawn_def sample_server_def
      sample_world_def sample_run_simps)

theorem restart_only_orphans_witness:
  "\<exists>w'. restart_orphaned_proofs sample_runtime sample_service (sample_world (sample_server Generating)) = (Ok (), w') \<and>
     same_views sample_service map_of (sample_world (sample_server Generating)) w' \<and>
     spawned w' = [(sample_request, sample_pid)]"
proof -
  have base: "laws (ps_store sample_service) (=) map_of" "plain_prefix (ps_store sample_service)"
      "scan_complete map_of (conn_manager (ps_store sample_service))"
    using sample_laws sample_plain sample_scan_complete by simp_all
  have inv: "store_inv (rt_crypto sample_runtime) (ps_store sample_service)
      (map_of (srv (sample_world (sample_server Generating))))"
    using sample_server_state [of Generating] by simp
  from restart_only_orphans [OF base inv sample_restart] sample_restart show ?thesis by simp
qed

end
