(* ===== verification/End_To_End.thy ===== *)
theory End_To_End
  imports Task_Facts
begin

text \<open>
  Across the components: the inputs that the service builds from consensus and execution endpoints
  are inputs that the guest program accepts, under conditions on the clock and on the library that
  are spelled out, and what goes wrong when the clock enters a new slot during an attempt. And the
  health check of the stored header.
\<close>

section \<open>Building inputs that the guest accepts\<close>



text \<open>
  And one of its verification: an update whose signatures are of a slot after the expected current one
  is not valid; \<open>sig\<close> is an update's signature slot.
\<close>

definition helios_rejects_future :: "'x helios \<Rightarrow> ('x finality_update \<Rightarrow> u64) \<Rightarrow> bool" where
  "helios_rejects_future H sig \<longleftrightarrow>
     (\<forall>f e s root fks. e < sig f \<longrightarrow> h_verify_finality H f e s root fks \<noteq> Inr ())"



lemma sample_rejects_future: "helios_rejects_future sample_helios (\<lambda>f. slot (beacon (fin_header f)))"
  by (auto simp: helios_rejects_future_def sample_helios_def)




section \<open>The stored header's age\<close>

lemma age_exact:
  assumes "slot_fits cfg s" and "unat s * 12 + unat (genesis_time cfg) = start"
    and "start * 10 ^ 9 \<le> now" and "now \<le> start * 10 ^ 9 + (2 ^ 63 - 1) * 10 ^ 6"
  shows "age chk cfg now s = Ok (now - start * 10 ^ 9)"
  using assms unat_slot_start [OF assms(1)]
  by (simp add: age_def slot_timestamp_ok Let_def chrono_max_millis_def)

section \<open>Concrete attempts\<close>

text \<open>
  Two attempts that differ in the finality update and in the clock after the first reading: in the
  second one the clock enters the next slot while the endpoint answers, with an update of that slot.
\<close>

definition sample_sync_rpc :: "u64 \<Rightarrow> system_time \<Rightarrow> nat rpc" where
  "sample_sync_rpc s later = (sample_rpc s)\<lparr>rpc_get_updates := (\<lambda>p c. Inr []),
     rpc_clock := (\<lambda>i. if i = 0 then 2000000000000000 else later)\<rparr>"

definition sample_attempt :: "u64 \<Rightarrow> system_time \<Rightarrow> nat attempt" where
  "sample_attempt s later = \<lparr>at_bootstrap = (\<lambda>_. sample_rpc 96), at_sync = (\<lambda>_. sample_sync_rpc s later),
     at_nows = (2000012000000000, 2000012000000000), at_providers = [sample_provider 3]\<rparr>"

definition sample_booted :: "nat store" where
  "sample_booted = (sample_store 0)\<lparr>finalized_header := sample_header 64, optimistic_header := sample_header 64\<rparr>"

lemma sample_boot:
  "client_bootstrap True sample_helios in_order (\<lambda>_. sample_rpc 96) 64
     \<lparr>cl_config = sample_config, cl_store = sample_store 0, cl_rpcs = [''a'', ''b''], cl_last_checkpoint = None\<rparr> =
   (Ok (), \<lparr>cl_config = sample_config, cl_store = sample_booted, cl_rpcs = [''a'', ''b''],
      cl_last_checkpoint = Some 64\<rparr>)"
proof -
  have "bootstrap_single_rpc True sample_helios (sample_store 0) sample_config 64 (sample_rpc 96) = Ok sample_booted"
    by (simp add: bootstrap_single_rpc_def rpc_res_def verify_res_def is_valid_checkpoint_def Let_def
        slot_timestamp_def u64_mul_def u64_add_def expected_current_slot_def sample_booted_def sample_rpc_def
        sample_config_def sample_simps)
  then show ?thesis
    by (simp add: client_bootstrap_def all_rpcs_def endpoints_def upt_rec with_timeout_def)
qed

lemma sample_single_sync:
  assumes "(s, later) \<in> {(96, 2000000000000000), (166584, 2000012000000000)}"
  shows "sync_to_chain_single_rpc True sample_helios sample_booted sample_config (sample_sync_rpc s later) =
    Ok \<lparr>tr_updates = [], tr_finality = sample_finality s,
      tr_final_store = sample_booted\<lparr>finalized_header := sample_header s\<rparr>,
      tr_last_checkpoint = Some (ucast s), tr_expected_slot = 166583\<rparr>"
  using assms
  by (elim insertE; simp add: sync_to_chain_single_rpc_def get_updates_single_rpc_def Let_def
      expected_current_slot_def sample_simps sample_config_def sample_rpc_def sample_sync_rpc_def u64_sub_def
      rpc_res_def verify_res_def client_apply_finality_def sample_booted_def)

lemma sample_sync_elapsed [simp]: "\<not> rpc_elapsed (sample_sync_rpc s later)"
  by (simp add: sample_sync_rpc_def)

lemma sample_synced:
  assumes "(s, later) \<in> {(96, 2000000000000000), (166584, 2000012000000000)}"
  shows "sync_to_chain True sample_helios (\<lambda>_. sample_sync_rpc s later) (2000012000000000, 2000012000000000)
      \<lparr>cl_config = sample_config, cl_store = sample_booted, cl_rpcs = [''a'', ''b''], cl_last_checkpoint = Some 64\<rparr> =
    (Ok \<lparr>tr_updates = [], tr_finality = sample_finality s,
        tr_final_store = sample_booted\<lparr>finalized_header := sample_header s\<rparr>,
        tr_last_checkpoint = Some (ucast s), tr_expected_slot = 166583\<rparr>,
     \<lparr>cl_config = sample_config, cl_store = sample_booted\<lparr>finalized_header := sample_header s\<rparr>,
        cl_rpcs = [''a'', ''b''], cl_last_checkpoint = Some (ucast s)\<rparr>)"
proof -
  have "slot_timestamp True sample_config s = (Ok (s * 12 + 1000) :: (client_error, u64) res)"
    and "unat (s * 12 + 1000) \<le> 2000012"
    using assms by (auto simp: slot_timestamp_def u64_mul_def u64_add_def sample_config_def)
  then have "\<exists>d. age True sample_config 2000012000000000 s = (Ok d :: (client_error, nat) res)"
    by (auto simp: age_def Let_def chrono_max_millis_def)
  then obtain d where "age True sample_config 2000012000000000 s = (Ok d :: (client_error, nat) res)" ..
  then show ?thesis
    by (simp add: sync_to_chain_def sample_single_sync [OF assms] endpoints_def all_rpcs_def with_timeout_def
        upt_rec alift_def abind_def compare_store_refl apply_store_update_def Let_def log_update_def aret_def)
qed

definition sample_built :: "u64 \<Rightarrow> nat proof_inputs" where
  "sample_built s = \<lparr>sync_committee_updates = [], finality_upd = sample_finality s, expected_slot = 166583,
     light_store = sample_booted, genesis_root = 0, forks = 0,
     contract_storage_slots = \<lparr>cs_address = 3, cs_expected_value =
         \<lparr>acc_nonce = 7, acc_balance = 5, acc_storage_root = 8, acc_code_hash = 6\<rparr>,
       cs_mpt_proof = [[1]],
       cs_storage_slots = [\<lparr>ss_key = 10, ss_expected_value = 9, ss_mpt_proof = [[2]]\<rparr>,
         \<lparr>ss_key = 11, ss_expected_value = 9, ss_mpt_proof = [[2]]\<rparr>]\<rparr>\<rparr>"

lemma sample_once:
  assumes "(s, later) \<in> {(96, 2000000000000000), (166584, 2000012000000000)}"
  shows "get_proof_inputs_once sample_runtime sample_request (sample_attempt s later) = Ok (sample_built s)"
proof -
  have ahead: "\<not> s \<le> 64" using assms by auto
  have "consensus_get_proof_inputs True sample_helios in_order sample_env sample_networks (\<lambda>_. sample_rpc 96)
      (\<lambda>_. sample_sync_rpc s later) (2000012000000000, 2000012000000000) 64 =
    Ok \<lparr>cpi_initial_store = sample_booted, cpi_expected_slot = 166583, cpi_genesis_root = 0, cpi_forks = 0,
      cpi_updates = [], cpi_finality = sample_finality s, cpi_execution_block = s, cpi_config = sample_config\<rparr>"
    using ahead
    by (simp add: consensus_get_proof_inputs_def sample_from_env sample_boot sample_synced [OF assms] Let_def)
       (simp add: sample_booted_def sample_header_def sample_exec_def sample_config_def ensure_def)
  moreover have "proxy_get_proof sample_crypto in_order [sample_provider 3] 3 [10, 11] s (ucast s)
      = Ok (sample_response 3 2)"
    using sample_provider_run by blast
  ultimately show ?thesis
    by (simp add: get_proof_inputs_once_def sample_runtime_def sample_attempt_def sample_built_def
        sample_finality_def sample_header_def sample_exec_def build_contract_storage_def sample_response_def
        sample_config_def numeral_2_eq_2)
qed

section \<open>A clock that enters a new slot\<close>

lemma inputs_after_tick:
  assumes future: "helios_rejects_future (rt_helios rt) sig" and run: "get_proof_inputs_once rt rq at = Ok inp"
    and late: "expected_slot inp < sig (finality_upd inp)"
  shows "\<exists>e. run_program (rt_helios rt) (rt_crypto rt) inp = Inl e"
    and "\<exists>i cfg. expected_slot inp = expected_current_slot (rt_helios rt) cfg (rpc_clock (at_sync at i) 0) \<and>
      expected_slot inp < expected_current_slot (rt_helios rt) cfg
        (rpc_clock (at_sync at i) (length (sync_committee_updates inp) + 1))"
proof -
  let ?H = "rt_helios rt" and ?P = "rt_crypto rt"
  have "run_program ?H ?P inp \<noteq> Inr out" for out
    using future late by (auto simp: run_program_accepts guest_accepts_def helios_rejects_future_def)
  then show "\<exists>e. run_program ?H ?P inp = Inl e" by (cases "run_program ?H ?P inp") auto
  from run obtain cpi where
    cpi: "consensus_get_proof_inputs (rt_chk rt) ?H (rt_select_store rt) (rt_env rt) (rt_networks rt)
      (at_bootstrap at) (at_sync at) (at_nows at) (dst_chain_contract_from_header rq) = Ok cpi"
    and inp: "sync_committee_updates inp = cpi_updates cpi" "finality_upd inp = cpi_finality cpi"
      "expected_slot inp = cpi_expected_slot cpi"
    by (auto simp: get_proof_inputs_once_def rbind_Ok_iff split: option.splits)
  from inputs_finality_checked [OF cpi] obtain i updated where
    rec: "cpi_expected_slot cpi = expected_current_slot ?H (cpi_config cpi) (rpc_clock (at_sync at i) 0)"
    and ver: "h_verify_finality ?H (cpi_finality cpi)
      (finality_reading ?H (cpi_config cpi) (at_sync at i) (cpi_updates cpi)) updated
      (cfg_genesis_root (cpi_config cpi)) (cfg_forks (cpi_config cpi)) = Inr ()" by blast
  from future ver have "\<not> finality_reading ?H (cpi_config cpi) (at_sync at i) (cpi_updates cpi) < sig (cpi_finality cpi)"
    by (auto simp: helios_rejects_future_def)
  with late rec show "\<exists>i cfg. expected_slot inp = expected_current_slot ?H cfg (rpc_clock (at_sync at i) 0) \<and>
      expected_slot inp < expected_current_slot ?H cfg
        (rpc_clock (at_sync at i) (length (sync_committee_updates inp) + 1))"
    unfolding inp finality_reading_def
    by (intro exI [of _ i] exI [of _ "cpi_config cpi"]) auto
qed

lemma sample_late_inputs:
  "helios_rejects_future (rt_helios sample_runtime) (\<lambda>f. slot (beacon (fin_header f)))"
  "get_proof_inputs_once sample_runtime sample_request (sample_attempt 166584 2000012000000000) =
     Ok (sample_built 166584)"
  "expected_slot (sample_built 166584) < slot (beacon (fin_header (finality_upd (sample_built 166584))))"
proof -
  show "helios_rejects_future (rt_helios sample_runtime) (\<lambda>f. slot (beacon (fin_header f)))"
    using sample_rejects_future by (simp add: sample_runtime_def)
  show "get_proof_inputs_once sample_runtime sample_request (sample_attempt 166584 2000012000000000) =
     Ok (sample_built 166584)" by (rule sample_once) simp
  show "expected_slot (sample_built 166584) < slot (beacon (fin_header (finality_upd (sample_built 166584))))"
    by (simp add: sample_built_def sample_finality_def)
qed

section \<open>Properties\<close>



text \<open>
  C34: the service reads the clock again for each verification but records the first reading as the
  inputs' expected slot. Whenever it builds inputs whose finality update is signed in a slot after the
  recorded one, the guest rejects them, and the clock has entered a later slot while the endpoint
  answered: between the recorded reading and the one the update was verified against. And this does
  happen: there is an attempt that ends with such inputs.
\<close>

theorem clock_tick_inputs_rejected:
  "(\<forall>(rt :: 'x runtime) rq at inp sig. helios_rejects_future (rt_helios rt) sig \<longrightarrow>
      get_proof_inputs_once rt rq at = Ok inp \<longrightarrow> expected_slot inp < sig (finality_upd inp) \<longrightarrow>
      (\<exists>e. run_program (rt_helios rt) (rt_crypto rt) inp = Inl e) \<and>
      (\<exists>i cfg. expected_slot inp = expected_current_slot (rt_helios rt) cfg (rpc_clock (at_sync at i) 0) \<and>
         expected_slot inp < expected_current_slot (rt_helios rt) cfg
           (rpc_clock (at_sync at i) (length (sync_committee_updates inp) + 1)))) \<and>
   (\<exists>(rt :: nat runtime) rq at inp sig. helios_rejects_future (rt_helios rt) sig \<and>
      get_proof_inputs_once rt rq at = Ok inp \<and> expected_slot inp < sig (finality_upd inp))"
proof (intro conjI allI impI)
  fix rt :: "'x runtime" and rq at inp sig
  assume "helios_rejects_future (rt_helios rt) sig" "get_proof_inputs_once rt rq at = Ok inp"
    "expected_slot inp < sig (finality_upd inp)"
  note tick = inputs_after_tick [OF this]
  from tick(1) show "\<exists>e. run_program (rt_helios rt) (rt_crypto rt) inp = Inl e" .
  from tick(2) show "\<exists>i cfg. expected_slot inp = expected_current_slot (rt_helios rt) cfg (rpc_clock (at_sync at i) 0) \<and>
      expected_slot inp < expected_current_slot (rt_helios rt) cfg
        (rpc_clock (at_sync at i) (length (sync_committee_updates inp) + 1))" .
next
  show "\<exists>(rt :: nat runtime) rq at inp sig. helios_rejects_future (rt_helios rt) sig \<and>
      get_proof_inputs_once rt rq at = Ok inp \<and> expected_slot inp < sig (finality_upd inp)"
    using sample_late_inputs by blast
qed

theorem clock_tick_inputs_rejected_witness:
  "get_proof_inputs_once sample_runtime sample_request (sample_attempt 166584 2000012000000000) =
      Ok (sample_built 166584) \<and>
   (\<exists>e. run_program sample_helios sample_crypto (sample_built 166584) = Inl e) \<and>
   (\<exists>i cfg. expected_current_slot sample_helios cfg
        (rpc_clock (at_sync (sample_attempt 166584 2000012000000000) i) 0) = 166583 \<and>
      166583 < expected_current_slot sample_helios cfg
        (rpc_clock (at_sync (sample_attempt 166584 2000012000000000) i) 1))"
proof -
  have rt: "rt_helios sample_runtime = sample_helios" by (simp add: sample_runtime_def)
  note late = sample_late_inputs
  from clock_tick_inputs_rejected [THEN conjunct1, rule_format, OF late] late(2)
  show ?thesis by (simp add: rt sample_built_def)
qed

text \<open>
  C37: the health check stops the service exactly when the stored header's slot began more than 1332
  seconds ago (three epochs of 32 twelve-second slots, and three minutes), to the nanosecond, or when
  no header is stored; a failed read does not stop it. A stored slot that begins after the clock's
  reading panics, by the subtraction of two times.
\<close>

theorem header_health_exact:
  assumes fits: "slot_fits cfg (slot (beacon h))"
    and start: "start = unat (slot (beacon h)) * 12 + unat (genesis_time cfg)"
    and small: "now \<le> start * 10 ^ 9 + (2 ^ 63 - 1) * 10 ^ 6"
  shows
    "(read_finalized_header S r = (Err e, r') \<longrightarrow> check_header_health chk S cfg now r = (Ok (), r')) \<and>
     (read_finalized_header S r = (Ok None, r') \<longrightarrow>
        check_header_health chk S cfg now r = (Err Header_missing, r')) \<and>
     (read_finalized_header S r = (Ok (Some h), r') \<longrightarrow>
        check_header_health chk S cfg now r =
          (if now < start * 10 ^ 9 then Panic Time_subtraction
           else if (start + 1332) * 10 ^ 9 < now then Err (Header_too_old (now - start * 10 ^ 9))
           else Ok (), r'))"
proof (intro conjI impI)
  assume "read_finalized_header S r = (Err e, r')"
  then show "check_header_health chk S cfg now r = (Ok (), r')"
    by (simp add: check_header_health_def get_stored_header_age_def amatch_def abind_def aret_def)
next
  assume "read_finalized_header S r = (Ok None, r')"
  then show "check_header_health chk S cfg now r = (Err Header_missing, r')"
    by (simp add: check_header_health_def get_stored_header_age_def amatch_def abind_def aret_def afail_def)
next
  assume rd: "read_finalized_header S r = (Ok (Some h), r')"
  show "check_header_health chk S cfg now r =
      (if now < start * 10 ^ 9 then Panic Time_subtraction
       else if (start + 1332) * 10 ^ 9 < now then Err (Header_too_old (now - start * 10 ^ 9))
       else Ok (), r')"
  proof (cases "now < start * 10 ^ 9")
    case True
    then have "age chk cfg now (slot (beacon h)) = (Panic Time_subtraction :: (proof_service_error, nat) res)"
      using unat_slot_start [OF fits] by (simp add: age_def slot_timestamp_ok [OF fits] start)
    with rd True show ?thesis
      by (simp add: check_header_health_def get_stored_header_age_def amatch_def abind_def alift_def)
  next
    case False
    from False small have "age chk cfg now (slot (beacon h)) =
        (Ok (now - start * 10 ^ 9) :: (proof_service_error, nat) res)"
      by (intro age_exact [OF fits]) (simp_all add: start)
    moreover have "MAX_FINALIZED_HEADER_AGE_SECS * 10 ^ 9 < now - start * 10 ^ 9 \<longleftrightarrow>
        (start + 1332) * 10 ^ 9 < now"
      using False by (auto simp: MAX_FINALIZED_HEADER_AGE_SECS_def)
    ultimately show ?thesis
      using rd False
      by (simp add: check_header_health_def get_stored_header_age_def amatch_def abind_def alift_def
          aret_def afail_def)
  qed
qed

theorem header_health_exact_witness:
  "check_header_health True sample_store_conn sample_config (2716 * 10 ^ 9) [(sample_header_key, ''32'')] =
     (Ok (), [(sample_header_key, ''32'')]) \<and>
   check_header_health True sample_store_conn sample_config (2716 * 10 ^ 9 + 1) [(sample_header_key, ''32'')] =
     (Err (Header_too_old (1332 * 10 ^ 9 + 1)), [(sample_header_key, ''32'')])"
proof -
  have rd: "read_finalized_header sample_store_conn [(sample_header_key, ''32'')] =
      (Ok (Some (sample_header 32)), [(sample_header_key, ''32'')])"
    by (simp add: read_finalized_header_def read_json_value_def sample_run_simps)
  have fits: "slot_fits sample_config (slot (beacon (sample_header 32)))"
    by (simp add: slot_fits_def sample_config_def)
  have start: "1384 = unat (slot (beacon (sample_header 32))) * 12 + unat (genesis_time sample_config)"
    by (simp add: sample_config_def)
  have small: "2716 * 10 ^ 9 \<le> (1384 * 10 ^ 9 + (2 ^ 63 - 1) * 10 ^ 6 :: nat)"
    "2716 * 10 ^ 9 + 1 \<le> (1384 * 10 ^ 9 + (2 ^ 63 - 1) * 10 ^ 6 :: nat)"
    by simp_all
  from header_health_exact [OF fits start small(1)] header_health_exact [OF fits start small(2)] rd
  show ?thesis by fastforce
qed

text \<open>
  C38: on a server nobody else uses, and with a key prefix that has no pattern character, the main loop
  stops offering the light client's header to the server only when the server holds one at least as new.
\<close>

theorem flag_cleared_when_stored:
  assumes "laws (ps_store ps) (=) live" and "plain_prefix (ps_store ps)"
    and "scan_complete live (conn_manager (ps_store ps))"
    and "store_inv (rt_crypto rt) (ps_store ps) (live (srv w))"
    and "update_redis_state rt ps hdr True w = (Ok False, w')"
  shows "\<exists>h. header_of ps live w' = Some h \<and> slot (beacon hdr) \<le> slot (beacon h)"
proof -
  from assms(5) have "process_new_finalized_header rt ps hdr w = (Ok True, w')"
    by (auto simp: update_redis_state_def amatch_def aret_def split: prod.splits res.splits if_splits)
  from process_header_result [OF assms(1-4) this] show ?thesis
    by (auto simp: newer_than_def same_views_def not_less split: if_splits option.splits)
qed

theorem flag_cleared_when_stored_witness:
  "\<exists>w'. update_redis_state sample_runtime sample_service (sample_header 64) True
      (sample_world [(sample_header_key, ''32''), (sample_key, ''w'')]) = (Ok False, w') \<and>
    (\<exists>h. header_of sample_service map_of w' = Some h \<and> 64 \<le> slot (beacon h))"
proof -
  have base: "laws (ps_store sample_service) (=) map_of" "plain_prefix (ps_store sample_service)"
      "scan_complete map_of (conn_manager (ps_store sample_service))"
    using sample_laws sample_plain sample_scan_complete by simp_all
  have inv: "store_inv (rt_crypto sample_runtime) (ps_store sample_service)
      (map_of (srv (sample_world [(sample_header_key, ''32''), (sample_key, ''w'')])))"
    using sample_waiting_inv by (simp add: service_inv_def)
  obtain w' where run: "update_redis_state sample_runtime sample_service (sample_header 64) True
      (sample_world [(sample_header_key, ''32''), (sample_key, ''w'')]) = (Ok False, w')"
    by (simp add: update_redis_state_def amatch_def sample_process_header aret_def)
  from flag_cleared_when_stored [OF base inv run] run show ?thesis by auto
qed

end
