(* ===== verification/Sp1_Backend.thy ===== *)
theory Sp1_Backend
  imports End_To_End
begin

text \<open>
  The SP1 backend of \<open>zk-api/src/proof_backends/sp1.rs\<close>: encoding the inputs, running the prover and
  formatting its output. The CBOR encoder and the prover are the parameters \<open>sp1_lib\<close>; an error is
  its text, of which only the outermost context is shown.
\<close>

section \<open>The backend\<close>

record sp1_proof =
  sp1_bytes :: bytes
  sp1_public_values :: bytes

record helios_proof_data =
  pd_proof :: string
  pd_public_values :: string

record 'x sp1_lib =
  sp1_encode :: "'x proof_inputs \<Rightarrow> bytes option"
  sp1_prove :: "bytes \<Rightarrow> string + sp1_proof"
  sp1_vkey_raw :: bytes

definition stdin_from_inputs :: "'x sp1_lib \<Rightarrow> 'x proof_inputs \<Rightarrow> string + bytes" where
  "stdin_from_inputs B inputs =
     (case sp1_encode B inputs of
        Some encoded \<Rightarrow> Inr encoded
      | None \<Rightarrow> Inl ''Failed to serialize ProofInputs to CBOR'')"

definition run_sp1_prover :: "'x sp1_lib \<Rightarrow> bytes \<Rightarrow> string + sp1_proof" where
  "run_sp1_prover B stdin =
     (case sp1_prove B stdin of
        Inr p \<Rightarrow> Inr p
      | Inl e \<Rightarrow> Inl (''SP1 prover run failed: '' @ e))"

definition format_output :: "text_lib \<Rightarrow> sp1_proof \<Rightarrow> helios_proof_data" where
  "format_output T p = \<lparr>pd_proof = t_hex_bytes T (sp1_bytes p),
     pd_public_values = t_hex_bytes T (sp1_public_values p)\<rparr>"

definition sp1_generate_proof ::
  "text_lib \<Rightarrow> 'x sp1_lib \<Rightarrow> 'x proof_inputs \<Rightarrow> string + helios_proof_data" where
  "sp1_generate_proof T B inputs =
     (case stdin_from_inputs B inputs of
        Inl e \<Rightarrow> Inl e
      | Inr stdin \<Rightarrow>
          (case run_sp1_prover B stdin of
             Inl _ \<Rightarrow> Inl ''Failed to run SP1 prover''
           | Inr p \<Rightarrow> Inr (format_output T p)))"

definition sp1_vkey_digest :: "'x sp1_lib \<Rightarrow> bytes" where
  "sp1_vkey_digest B = sp1_vkey_raw B"

definition sp1_backend :: "text_lib \<Rightarrow> 'x sp1_lib \<Rightarrow> ('x, helios_proof_data) proof_backend" where
  "sp1_backend T B = \<lparr>generate_proof = sp1_generate_proof T B, vkey_digest = sp1_vkey_digest B\<rparr>"

section \<open>What a proof attests\<close>

text \<open>
  What the proof system promises: a proof exists only for a run of the guest that committed, and its
  public values are what the guest committed; and CBOR decodes what it encoded.
\<close>

definition prover_law ::
  "'x helios \<Rightarrow> crypto \<Rightarrow> (bytes \<Rightarrow> 'x proof_inputs option) \<Rightarrow> (proof_outputs \<Rightarrow> bytes) \<Rightarrow> 'x sp1_lib \<Rightarrow> bool"
  where
  "prover_law H P decode abi B \<longleftrightarrow>
     (\<forall>stdin p. sp1_prove B stdin = Inr p \<longrightarrow> guest_main H P decode abi stdin = Inr (sp1_public_values p)) \<and>
     (\<forall>inp bs. sp1_encode B inp = Some bs \<longrightarrow> decode bs = Some inp)"

lemma generated_is_committed:
  assumes "prover_law H P decode abi B" and "sp1_generate_proof T B inp = Inr d"
  shows "\<exists>out. run_program H P inp = Inr out \<and> pd_public_values d = t_hex_bytes T (abi out)"
proof -
  from assms(2) obtain bs p where "sp1_encode B inp = Some bs" "sp1_prove B bs = Inr p"
      "d = format_output T p"
    by (auto simp: sp1_generate_proof_def stdin_from_inputs_def run_sp1_prover_def
        split: option.splits sum.splits)
  with assms(1) have "guest_main H P decode abi bs = Inr (sp1_public_values p)" "decode bs = Some inp"
    by (auto simp: prover_law_def)
  with \<open>d = format_output T p\<close> show ?thesis
    by (auto simp: guest_main_def format_output_def split: sum.splits)
qed

section \<open>Properties\<close>

text \<open>
  C2: a success that a generation task stores attests an accepted run of the guest program: its
  public values are the encoding of outputs the program committed for the inputs the service built,
  whose head is strictly above the previous one, and the finalized slot of those inputs is the first
  of an epoch.
\<close>

theorem stored_success_attested:
  assumes L: "laws (ps_store ps) (=) live" and B: "ps_backend ps = sp1_backend T B"
    and P: "prover_law (rt_helios rt) (rt_crypto rt) decode abi B"
    and run: "generate_and_store_proof rt ps attempts rq pid w = (Ok u, w')"
    and st: "states_of ps live w' pid = Some st" and ok: "status st = Success"
  shows "\<exists>inp out d. get_proof_inputs rt ps rq attempts = Ok inp \<and>
    slot (beacon (fin_header (finality_upd inp))) mod 32 = 0 \<and>
    run_program (rt_helios rt) (rt_crypto rt) inp = Inr out \<and> out_prevHead out < out_newHead out \<and>
    proof_data st = Some d \<and> pd_public_values d = t_hex_bytes T (abi out)"
proof -
  from generate_alone [OF L run] obtain outcome where
    outcome: "task_outcome ps (get_proof_inputs rt ps rq attempts) outcome"
    and "st = updated_proof_state rt rq outcome"
    using st by auto
  with ok obtain d where d: "outcome = Inr d" "proof_data st = Some d"
    by (cases outcome) (auto simp: updated_proof_state_def)
  with outcome have "\<exists>inp. get_proof_inputs rt ps rq attempts = Ok inp \<and>
      slot (beacon (fin_header (finality_upd inp))) mod 32 = 0 \<and> sp1_generate_proof T B inp = Inr d"
    by (simp add: task_outcome_def B sp1_backend_def)
  then obtain inp where inp: "get_proof_inputs rt ps rq attempts = Ok inp"
    "slot (beacon (fin_header (finality_upd inp))) mod 32 = 0" "sp1_generate_proof T B inp = Inr d"
    by (elim exE conjE) (rule that)
  from generated_is_committed [OF P inp(3)] obtain out where
    out: "run_program (rt_helios rt) (rt_crypto rt) inp = Inr out" "pd_public_values d = t_hex_bytes T (abi out)"
    by (elim exE conjE) (rule that)
  from program_head_advances [OF out(1)] have "out_prevHead out < out_newHead out" .
  with inp(1,2) d(2) out show ?thesis by (intro exI conjI)
qed

subsection \<open>A concrete run\<close>

definition sample_sp1 :: "nat sp1_lib" where
  "sample_sp1 = \<lparr>sp1_encode = (\<lambda>inp. if inp = sample_built 96 then Some [1] else None),
     sp1_prove = (\<lambda>bs. if bs = [1] then Inr \<lparr>sp1_bytes = [5], sp1_public_values = [6]\<rparr> else Inl ''unknown''),
     sp1_vkey_raw = be_bytes 32 (7 :: b256)\<rparr>"

definition sample_attested :: "helios_proof_data proof_request_state" where
  "sample_attested = (new_request_state sample_request)\<lparr>status := Success,
     proof_data := Some (format_output sample_text \<lparr>sp1_bytes = [5], sp1_public_values = [6]\<rparr>)\<rparr>"

definition sp1_json :: "(nat, helios_proof_data) json_lib" where
  "sp1_json = \<lparr>ser_state = (\<lambda>st. if st = sample_attested then Inr ''a'' else Inl ''unsupported''),
     de_state = (\<lambda>j. if j = ''a'' then Inr sample_attested else Inl ''state''),
     ser_header = (\<lambda>_. Inl ''unsupported''), de_header = (\<lambda>_. Inl ''header'')\<rparr>"

definition sp1_service :: "((string \<times> string) list, nat, helios_proof_data) proof_service" where
  "sp1_service = \<lparr>ps_backend = sp1_backend sample_text sample_sp1,
     ps_store = \<lparr>conn_manager = sample_redis, key_prefix = ''p'', global_lock_duration_secs = 5,
       rs_text = sample_text, rs_json = sp1_json\<rparr>\<rparr>"

lemma sp1_laws: "laws (ps_store sp1_service) (=) map_of"
  using sample_redis_laws sample_hex_law
  by (auto simp: laws_def text_ok_def json_law_def sp1_service_def sp1_json_def split: if_splits)

lemma sp1_prover_law:
  "prover_law (rt_helios sample_runtime) (rt_crypto sample_runtime)
     (\<lambda>bs. if bs = [1] then Some (sample_built 96) else None) (\<lambda>_. [6]) sample_sp1"
proof -
  have "\<exists>out. run_program sample_helios sample_crypto (sample_built 96) = Inr out"
    by (simp add: run_program_def sample_built_def sample_booted_def sample_simps guest_verify_storage_def)
  then obtain out where "run_program sample_helios sample_crypto (sample_built 96) = Inr out" ..
  then show ?thesis
    by (auto simp: prover_law_def sample_sp1_def guest_main_def sample_runtime_def split: if_splits)
qed

lemma sp1_inputs:
  "get_proof_inputs sample_runtime sp1_service sample_request (\<lambda>_. sample_attempt 96 2000000000000000)
     = Ok (sample_built 96)"
  using sample_once [of 96 2000000000000000] by (simp add: get_proof_inputs_unfold)

lemma sp1_generated:
  "sp1_generate_proof sample_text sample_sp1 (sample_built 96) =
     Inr (format_output sample_text \<lparr>sp1_bytes = [5], sp1_public_values = [6]\<rparr>)"
  by (simp add: sp1_generate_proof_def stdin_from_inputs_def run_sp1_prover_def sample_sp1_def)

lemma sp1_run:
  "generate_and_store_proof sample_runtime sp1_service (\<lambda>_. sample_attempt 96 2000000000000000)
     sample_request sample_pid (sample_world []) =
   (Ok (), sample_world [(proof_state_key (ps_store sp1_service) sample_pid, ''a'')])"
proof -
  have "slot (beacon (fin_header (finality_upd (sample_built 96)))) = 96"
    by (simp add: sample_built_def sample_finality_def)
  then have out: "proof_output_result sp1_service (Ok (sample_built 96)) =
      Ok (format_output sample_text \<lparr>sp1_bytes = [5], sp1_public_values = [6]\<rparr>)"
    by (simp add: proof_output_result_def sp1_generated sp1_service_def sp1_backend_def)
  have st: "updated_proof_state sample_runtime sample_request
      (Inr (format_output sample_text \<lparr>sp1_bytes = [5], sp1_public_values = [6]\<rparr>)) = sample_attested"
    by (simp add: updated_proof_state_def sample_attested_def)
  show ?thesis
    unfolding generate_and_store_proof_def sp1_inputs out
    by (simp add: st numeral_3_eq_3 set_proof_state_def)
       (simp add: sp1_service_def sp1_json_def sample_run_simps sample_world_def)
qed

theorem stored_success_attested_witness:
  "\<exists>w' out d. generate_and_store_proof sample_runtime sp1_service (\<lambda>_. sample_attempt 96 2000000000000000)
      sample_request sample_pid (sample_world []) = (Ok (), w') \<and>
    run_program sample_helios sample_crypto (sample_built 96) = Inr out \<and>
    proof_data sample_attested = Some d \<and> pd_public_values d = t_hex_bytes sample_text [6]"
proof -
  have backend: "ps_backend sp1_service = sp1_backend sample_text sample_sp1" by (simp add: sp1_service_def)
  have view: "states_of sp1_service map_of (sample_world [(proof_state_key (ps_store sp1_service) sample_pid, ''a'')])
      sample_pid = Some sample_attested"
    by (simp add: state_view_def) (simp add: sp1_service_def sp1_json_def decoded_def)
  have "status sample_attested = Success" by (simp add: sample_attested_def)
  from stored_success_attested [OF sp1_laws backend sp1_prover_law sp1_run view this] sp1_inputs sp1_run
  show ?thesis by (auto simp: sample_runtime_def)
qed

end
