(* ===== verification/Api.thy ===== *)
theory Api
  imports Service_Facts
begin

text \<open>
  The HTTP API of \<open>zk-api/src/api.rs\<close>: the parsing of a request's strings into a \<open>ProofRequest\<close>, the
  five handlers, the mapping of a service error to a response, the routes and the port.

  A handler is a call over the world of the service that returns a status code and a body; axum turns
  an error it returns into a response by \<open>into_response\<close>. The extraction of the JSON body and of the
  path parameter is axum's: a handler gets the extracted value.
\<close>

section \<open>Requests\<close>

record api_proof_request =
  ar_contract_address :: string
  ar_storage_slots :: "string list"
  ar_block_number :: u64
  ar_from_head :: u64
  ar_from_header :: string
  ar_vkey :: string

text \<open>\<open>parse(s).map_err(|_| BadRequest(msg))\<close>\<close>

definition parsed :: "string \<Rightarrow> 'a option \<Rightarrow> (proof_service_error, 'a) res" where
  "parsed msg v = (case v of Some x \<Rightarrow> Ok x | None \<Rightarrow> Err (Bad_request msg))"

definition proof_request_try_from ::
  "text_lib \<Rightarrow> api_proof_request \<Rightarrow> (proof_service_error, proof_request) res" where
  "proof_request_try_from T req =
     rbind (parsed ''Invalid contract address format'' (t_parse_address T (ar_contract_address req)))
       (\<lambda>address.
     rbind (rmapM (\<lambda>s. parsed ''Invalid storage slot format'' (t_parse_b256 T s)) (ar_storage_slots req))
       (\<lambda>slots.
     rbind (parsed ''Invalid header format'' (t_parse_b256 T (ar_from_header req))) (\<lambda>header.
     rbind (parsed ''Invalid vkey format'' (t_parse_b256 T (ar_vkey req))) (\<lambda>vkey.
       Ok \<lparr>src_chain_contract_address = address, src_chain_storage_slots = slots,
           src_chain_block_number = ar_block_number req,
           dst_chain_contract_from_head = ar_from_head req,
           dst_chain_contract_from_header = header, rq_vkey = vkey\<rparr>))))"

section \<open>Responses\<close>

datatype proof_status_response = Resp_pending | Resp_success | Resp_errored

fun status_response :: "proof_request_status \<Rightarrow> proof_status_response" where
  "status_response Initiated = Resp_pending"
| "status_response Waiting_for_finality = Resp_pending"
| "status_response Generating = Resp_pending"
| "status_response Success = Resp_success"
| "status_response Errored = Resp_errored"

record proof_request_response =
  prr_proof_id :: string
  prr_status :: proof_status_response

record 'o proof_state_response =
  psr_proof_id :: string
  psr_status :: proof_status_response
  psr_update_calldata :: "'o option"
  psr_error_message :: "string option"

datatype 'o body =
    Body_text string
  | Body_accepted proof_request_response
  | Body_state "'o proof_state_response"
  | Body_header finalized_header_response
  | Body_vkey string
  | Body_error string

text \<open>A response is its status code and its body.\<close>

type_synonym 'o response = "nat \<times> 'o body"

fun into_response :: "text_lib \<Rightarrow> proof_service_error \<Rightarrow> 'o response" where
  "into_response T (Redis_error e) = (500, Body_error (''Redis error: '' @ e))"
| "into_response T (Lock_contention pid) =
     (409, Body_error (''Proof request '' @ to_hex_string T pid @ '' is already being processed''))"
| "into_response T (Not_found pid) =
     (404, Body_error (''Proof request '' @ to_hex_string T pid @ '' not found''))"
| "into_response T (Serialization_error e) = (500, Body_error (''Serialization error: '' @ e))"
| "into_response T (Proof_generation_failed pid msg) =
     (500, Body_error (''Proof generation failed: '' @ msg))"
| "into_response T (Bad_request msg) = (400, Body_error (''Bad request: '' @ msg))"
| "into_response T (Vkey_mismatch msg) = (422, Body_error (''Vkey mismatch: '' @ msg))"
| "into_response T (Internal msg) = (500, Body_error (''Internal error: '' @ msg))"

section \<open>Handlers\<close>

definition ps_text :: "('r, 'x, 'o) proof_service \<Rightarrow> text_lib" where
  "ps_text ps = rs_text (ps_store ps)"

definition health_handler :: "('r world, proof_service_error, 'o response) act" where
  "health_handler = aret (200, Body_text ''OK'')"

text \<open>\<open>B256::from_slice\<close> panics on a slice that does not have 32 bytes.\<close>

definition b256_from_slice :: "bytes \<Rightarrow> ('e, b256) res" where
  "b256_from_slice bs = (if length bs = 32 then Ok (word_rcat bs) else Panic Slice_length)"

definition request_proof_handler ::
  "'x runtime \<Rightarrow> ('r, 'x, 'o) proof_service \<Rightarrow> api_proof_request
    \<Rightarrow> ('r world, proof_service_error, 'o response) act" where
  "request_proof_handler rt ps api_request =
     abind (alift (proof_request_try_from (ps_text ps) api_request)) (\<lambda>request.
     abind (alift (b256_from_slice (vkey_digest_bytes ps))) (\<lambda>service_vkey.
     if rq_vkey request \<noteq> service_vkey then
       afail (Vkey_mismatch (''Requested vkey '' @ t_display (ps_text ps) (rq_vkey request) @
         '' does not match service vkey '' @ t_display (ps_text ps) service_vkey))
     else
       abind (request_proof rt ps request) (\<lambda>(pid, s).
         aret (202, Body_accepted \<lparr>prr_proof_id = to_hex_string (ps_text ps) pid,
                                  prr_status = status_response s\<rparr>))))"

definition get_proof_handler ::
  "('r, 'x, 'o) proof_service \<Rightarrow> string \<Rightarrow> ('r world, proof_service_error, 'o response) act" where
  "get_proof_handler ps proof_id_hex =
     abind (alift (parsed (''Invalid proof ID format: '' @ proof_id_hex)
              (t_parse_b256 (ps_text ps) proof_id_hex))) (\<lambda>hash.
     let pid = Proof_id hash in
     abind (get_proof ps pid) (\<lambda>stored.
       case stored of
         Some state \<Rightarrow>
           aret (200, Body_state \<lparr>psr_proof_id = to_hex_string (ps_text ps) pid,
             psr_status = status_response (status state),
             psr_update_calldata = proof_data state,
             psr_error_message = error_message state\<rparr>)
       | None \<Rightarrow> afail (Not_found pid)))"

definition get_finalized_header_handler ::
  "'x runtime \<Rightarrow> ('r, 'x, 'o) proof_service \<Rightarrow> ('r world, proof_service_error, 'o response) act" where
  "get_finalized_header_handler rt ps =
     abind (get_finalized_header_details rt ps) (\<lambda>details.
       case details of
         Some header_details \<Rightarrow> aret (200, Body_header header_details)
       | None \<Rightarrow> afail (Internal ''Finalized header not found in Redis.''))"

definition get_vkey_handler ::
  "('r, 'x, 'o) proof_service \<Rightarrow> ('r world, proof_service_error, 'o response) act" where
  "get_vkey_handler ps =
     aret (200, Body_vkey (''0x'' @ t_hex_bytes (ps_text ps) (vkey_digest_bytes ps)))"

section \<open>Routes\<close>

text \<open>
  A request that axum has matched to a route of \<open>create_api_router\<close>, with what it has extracted; the
  route's method and path below the prefix \<open>/v1\<close> are \<open>route_of\<close>.
\<close>

datatype api_call =
    Get_health
  | Post_proofs api_proof_request
  | Get_proofs string
  | Get_finalized_header
  | Get_vkey

datatype http_method = Http_get | Http_post

fun route_of :: "api_call \<Rightarrow> http_method \<times> string" where
  "route_of Get_health = (Http_get, ''/v1/health'')"
| "route_of (Post_proofs _) = (Http_post, ''/v1/api/proofs'')"
| "route_of (Get_proofs _) = (Http_get, ''/v1/api/proofs/{id}'')"
| "route_of Get_finalized_header = (Http_get, ''/v1/api/finalized-header'')"
| "route_of Get_vkey = (Http_get, ''/v1/api/vkey'')"

fun route_handler ::
  "'x runtime \<Rightarrow> ('r, 'x, 'o) proof_service \<Rightarrow> api_call \<Rightarrow> ('r world, proof_service_error, 'o response) act"
  where
  "route_handler rt ps Get_health = health_handler"
| "route_handler rt ps (Post_proofs req) = request_proof_handler rt ps req"
| "route_handler rt ps (Get_proofs hex) = get_proof_handler ps hex"
| "route_handler rt ps Get_finalized_header = get_finalized_header_handler rt ps"
| "route_handler rt ps Get_vkey = get_vkey_handler ps"

text \<open>What the client receives: the handler's response, or that of the error it returned.\<close>

definition serve_call ::
  "'x runtime \<Rightarrow> ('r, 'x, 'o) proof_service \<Rightarrow> api_call \<Rightarrow> ('r world, proof_service_error, 'o response) act"
  where
  "serve_call rt ps c = amatch (route_handler rt ps c) aret (\<lambda>e. aret (into_response (ps_text ps) e))"

section \<open>The port\<close>

type_synonym u16 = "16 word"

definition api_port :: "(string \<Rightarrow> string option) \<Rightarrow> ('e, u16) res" where
  "api_port env =
     (case env ''PORT'' of
        None \<Rightarrow> Panic Unwrap_failed
      | Some s \<Rightarrow>
          (case parse_below (2 ^ 16) s of
             None \<Rightarrow> Panic Unwrap_failed
           | Some n \<Rightarrow> Ok (of_nat n)))"

text \<open>\<open>bind\<close> is the listener on \<open>0.0.0.0\<close> at a port; the server then runs as a task of its own.\<close>

definition start_api_server ::
  "(string \<Rightarrow> string option) \<Rightarrow> (u16 \<Rightarrow> string + 'l) \<Rightarrow> ('e, 'l) res" where
  "start_api_server env bind =
     rbind (api_port env) (\<lambda>port.
       case bind port of Inr listener \<Rightarrow> Ok listener | Inl _ \<Rightarrow> Panic Unwrap_failed)"

end
