(* ===== verification/Byte_Words.thy ===== *)
theory Byte_Words
  imports External
begin

text \<open>
  Words and their big-endian bytes: \<open>be_bytes\<close> and \<open>word_rcat\<close>, which is what \<open>B256::from_slice\<close>
  computes on 32 bytes, are inverse to each other.
\<close>

lemma bit_b256_bytes:
  fixes bs :: bytes
  assumes "length bs = 32" and "i < 32" and "j < 8"
  shows "bit (word_rcat bs :: b256) (8 * (31 - i) + j) \<longleftrightarrow> bit (bs ! i) j"
proof -
  have "8 * (31 - i) + j < 256" and "(8 * (31 - i) + j) div 8 = 31 - i" and "(8 * (31 - i) + j) mod 8 = j"
    using assms by auto
  moreover have "rev bs ! (31 - i) = bs ! i" using assms by (simp add: rev_nth)
  ultimately show ?thesis
    using assms bit_horner_sum_uint_exp_iff [of "rev bs" "8 * (31 - i) + j"]
    by (simp add: word_rcat_def bit_word_of_int_iff)
qed

lemma nth_be_bytes:
  "i < 32 \<Longrightarrow> j < 8 \<Longrightarrow> bit (be_bytes 32 (w :: b256) ! i) j \<longleftrightarrow> bit w (8 * (31 - i) + j)"
  by (simp add: be_bytes_def bit_ucast_iff bit_drop_bit_eq)

lemma byte_eqI: "(\<And>j. j < 8 \<Longrightarrow> bit a j = bit b j) \<Longrightarrow> a = (b :: 8 word)"
  by (rule bit_word_eqI) simp

lemma be_bytes_word_rcat:
  fixes bs :: bytes
  assumes "length bs = 32"
  shows "be_bytes 32 (word_rcat bs :: b256) = bs"
proof (rule nth_equalityI)
  show "length (be_bytes 32 (word_rcat bs :: b256)) = length bs" by (simp add: assms)
  fix i assume "i < length (be_bytes 32 (word_rcat bs :: b256))"
  then have "i < 32" by simp
  then show "be_bytes 32 (word_rcat bs :: b256) ! i = bs ! i"
    by (intro byte_eqI) (simp add: nth_be_bytes bit_b256_bytes [OF assms])
qed

lemma word_rcat_be_bytes: "word_rcat (be_bytes 32 w) = (w :: b256)"
proof (rule bit_word_eqI)
  fix n assume "n < LENGTH(256)"
  then have n: "31 - (31 - n div 8) = n div 8" "31 - n div 8 < 32" "n mod 8 < 8" "n = 8 * (n div 8) + n mod 8"
    by auto
  show "bit (word_rcat (be_bytes 32 w) :: b256) n = bit w n"
    using bit_b256_bytes [of "be_bytes 32 w" "31 - n div 8" "n mod 8"] nth_be_bytes [of "31 - n div 8" "n mod 8" w] n
    by simp
qed

end
