(* ===== verification/Api_Facts.thy ===== *)
theory Api_Facts
  imports Api Byte_Words
begin

text \<open>
  What the API promises: which strings it accepts, which status codes each route can answer, that a
  call always gets an answer, that a request for another verifying key never reaches the service, and
  that a request that was accepted can be read back under the identifier of the answer.
\<close>

section \<open>Which errors a call can return\<close>

text \<open>\<open>raises E m\<close>: the call \<open>m\<close> always returns, with a value or with an error in \<open>E\<close>.\<close>

named_theorems raises_intros
  \<open>introduction rules for the errors of a call\<close>

definition raises :: "('e \<Rightarrow> bool) \<Rightarrow> ('w, 'e, 'a) act \<Rightarrow> bool" where
  "raises E m \<longleftrightarrow> (\<forall>w. case fst (m w) of Ok _ \<Rightarrow> True | Err e \<Rightarrow> E e | _ \<Rightarrow> False)"

lemma raisesI:
  "(\<And>w r w'. m w = (r, w') \<Longrightarrow> case r of Ok _ \<Rightarrow> True | Err e \<Rightarrow> E e | _ \<Rightarrow> False) \<Longrightarrow> raises E m"
  by (simp add: raises_def) (metis prod.collapse)

lemma raisesD:
  assumes "raises E m" and "m w = (r, w')"
  obtains x where "r = Ok x" | e where "r = Err e" "E e"
proof -
  from assms have "case r of Ok _ \<Rightarrow> True | Err e \<Rightarrow> E e | _ \<Rightarrow> False"
    by (simp add: raises_def) (metis fst_conv)
  then show thesis using that by (cases r) auto
qed

lemma raises_weaken: "raises E m \<Longrightarrow> (\<And>e. E e \<Longrightarrow> E' e) \<Longrightarrow> raises E' m"
  by (auto simp: raises_def split: res.splits)

lemma raises_aret [raises_intros]: "raises E (aret x)"
  by (simp add: raises_def aret_def)

lemma raises_afail [raises_intros]: "E e \<Longrightarrow> raises E (afail e)"
  by (simp add: raises_def afail_def)

lemma raises_alift [raises_intros]:
  "(\<And>e. m = Err e \<Longrightarrow> E e) \<Longrightarrow> is_ok m \<or> is_err m \<Longrightarrow> raises E (alift m)"
  by (cases m) (auto simp: raises_def alift_def)

lemma raises_abind [raises_intros]:
  assumes "raises E m" and "\<And>x. raises E (f x)"
  shows "raises E (abind m f)"
proof (rule raisesI)
  fix w r w' assume run: "abind m f w = (r, w')"
  obtain s w1 where s: "m w = (s, w1)" by (cases "m w")
  from assms(1) s show "case r of Ok _ \<Rightarrow> True | Err e \<Rightarrow> E e | _ \<Rightarrow> False"
  proof (cases rule: raisesD)
    case (1 x)
    with s run have "f x w1 = (r, w')" by (simp add: abind_def)
    then show ?thesis using assms(2) [of x] by (auto elim: raisesD)
  next
    case (2 e)
    with s run show ?thesis by (auto simp: abind_def)
  qed
qed

lemma raises_amatch [raises_intros]:
  assumes "raises E m" and "\<And>x. raises E' (f x)" and "\<And>e. E e \<Longrightarrow> raises E' (g e)"
  shows "raises E' (amatch m f g)"
proof (rule raisesI)
  fix w r w' assume run: "amatch m f g w = (r, w')"
  obtain s w1 where s: "m w = (s, w1)" by (cases "m w")
  from assms(1) s show "case r of Ok _ \<Rightarrow> True | Err e \<Rightarrow> E' e | _ \<Rightarrow> False"
  proof (cases rule: raisesD)
    case (1 x)
    with s run have "f x w1 = (r, w')" by (simp add: amatch_def)
    then show ?thesis using assms(2) [of x] by (auto elim: raisesD)
  next
    case (2 e)
    with s run have "g e w1 = (r, w')" by (simp add: amatch_def)
    then show ?thesis using assms(3) [OF 2(2)] by (auto elim: raisesD)
  qed
qed

lemma raises_on_srv [raises_intros]: "raises E m \<Longrightarrow> raises E (on_srv m)"
  by (auto simp: raises_def on_srv_def split: prod.splits) (metis fst_conv)

lemma raises_finally [raises_intros]: "raises E m \<Longrightarrow> raises E (finally_act m fin)"
  by (auto simp: raises_def finally_act_def split: prod.splits res.splits) (metis fst_conv)+

lemma raises_ignore [raises_intros]: "raises E m \<Longrightarrow> raises E' (ignore_result m)"
  unfolding ignore_result_def by (intro raises_intros)

section \<open>The errors of the service\<close>

fun infrastructure_error :: "proof_service_error \<Rightarrow> bool" where
  "infrastructure_error (Redis_error _) = True"
| "infrastructure_error (Serialization_error _) = True"
| "infrastructure_error _ = False"

fun request_error :: "proof_service_error \<Rightarrow> bool" where
  "request_error (Lock_contention _) = True"
| "request_error (Internal _) = True"
| "request_error e = infrastructure_error e"

lemma request_error_infrastructure: "infrastructure_error e \<Longrightarrow> request_error e"
  by (cases e) auto

lemma raises_redis_call [raises_intros]: "raises infrastructure_error (redis_call c)"
proof (rule raisesI)
  fix w r w' assume run: "redis_call c w = (r, w')"
  obtain res s where "c w = (res, s)" by (cases "c w")
  with run show "case r of Ok _ \<Rightarrow> True | Err e \<Rightarrow> infrastructure_error e | _ \<Rightarrow> False"
    by (cases res) (auto simp: redis_call_def)
qed

lemma raises_json_res [raises_intros]: "raises infrastructure_error (alift (json_res v))"
  by (cases v) (simp_all add: raises_def alift_def json_res_def)

lemma raises_json_value: "raises infrastructure_error (alift (rbind (json_res v) (\<lambda>x. Ok (Some x))))"
  by (cases v) (simp_all add: raises_def alift_def json_res_def)

lemma raises_read_json [raises_intros]: "raises infrastructure_error (read_json_value S de k)"
  unfolding read_json_value_def
  by (intro raises_intros) (auto intro: raises_json_value raises_aret split: option.splits)

lemma raises_store [raises_intros]:
  "raises infrastructure_error (get_proof_state S pid)"
  "raises infrastructure_error (read_finalized_header S)"
  "raises infrastructure_error (set_proof_state S pid st)"
  "raises infrastructure_error (acquire_global_lock S)"
  "raises infrastructure_error (acquire_proof_generation_lock S pid t)"
  unfolding get_proof_state_def read_finalized_header_def set_proof_state_def acquire_global_lock_def
    acquire_proof_generation_lock_def try_acquire_lock_def
  by (intro raises_intros)+

lemma raises_infrastructure: "raises infrastructure_error m \<Longrightarrow> raises request_error m"
  by (erule raises_weaken) (rule request_error_infrastructure)

lemma raises_try_spawn: "raises E (try_spawn rt ps rq)"
proof -
  have spawn: "raises E (spawn a b)" for a b by (simp add: raises_def spawn_def)
  show ?thesis
    unfolding try_spawn_def Let_def
    by (rule raises_amatch [where E = infrastructure_error])
       (auto intro!: raises_intros spawn split: if_splits)
qed

lemma raises_initialize: "raises infrastructure_error (initialize_request_locked rt ps s b rq)"
  unfolding initialize_request_locked_def Let_def
  by (auto intro!: raises_intros raises_try_spawn split: if_splits)

lemma raises_process_request: "raises request_error (process_request_locked rt ps rq locked)"
proof -
  have init: "raises request_error
      (abind (initialize_request_locked rt ps s b rq) (\<lambda>s. aret (new_id rt ps rq, s)))" for s b
    by (intro raises_intros raises_infrastructure [OF raises_initialize])
  show ?thesis
    unfolding process_request_locked_def Let_def get_proof_def
    by (auto intro!: raises_abind raises_aret raises_afail raises_on_srv init
        raises_infrastructure [OF raises_store(1)] raises_infrastructure [OF raises_store(2)]
        split: option.splits if_splits)
qed

lemma raises_request_proof: "raises request_error (request_proof rt ps rq)"
  unfolding request_proof_def with_global_lock_def
  by (intro raises_abind raises_finally raises_on_srv raises_process_request
      raises_infrastructure [OF raises_store(4)])

section \<open>The routes\<close>

lemma parsed_simps [simp]:
  "parsed msg v = Ok x \<longleftrightarrow> v = Some x" "parsed msg v = Err e \<longleftrightarrow> v = None \<and> e = Bad_request msg"
  "parsed msg v \<noteq> Panic p" "parsed msg v \<noteq> Diverge"
  by (auto simp: parsed_def split: option.splits)

lemma parsed_returns: "is_ok (parsed msg v) \<or> is_err (parsed msg v)"
  by (cases v) (simp_all add: parsed_def)

lemma rmapM_parsed:
  "is_ok (rmapM (\<lambda>s. parsed msg (f s)) xs) \<or> is_err (rmapM (\<lambda>s. parsed msg (f s)) xs)"
  by (rule rmapM_no_panic) (rule parsed_returns)

lemma rmapM_parsed_Ok: "rmapM (\<lambda>s. parsed msg (f s)) xs = Ok ys \<longleftrightarrow> list_all2 (\<lambda>s y. f s = Some y) xs ys"
  by (simp add: rmapM_Ok_iff)

lemma rmapM_parsed_Err:
  "rmapM (\<lambda>s. parsed msg (f s)) xs = Err e \<longleftrightarrow> e = Bad_request msg \<and> (\<exists>s \<in> set xs. f s = None)"
  by (induction xs) (auto simp: rbind_Err_iff parsed_def split: option.splits)

text \<open>The checks of a request's strings in their order, each with the message of its failure.\<close>

definition field_checks :: "text_lib \<Rightarrow> api_proof_request \<Rightarrow> (bool \<times> string) list" where
  "field_checks T req =
     [(t_parse_address T (ar_contract_address req) \<noteq> None, ''Invalid contract address format''),
      (list_all (\<lambda>s. t_parse_b256 T s \<noteq> None) (ar_storage_slots req), ''Invalid storage slot format''),
      (t_parse_b256 T (ar_from_header req) \<noteq> None, ''Invalid header format''),
      (t_parse_b256 T (ar_vkey req) \<noteq> None, ''Invalid vkey format'')]"

definition parses_to :: "text_lib \<Rightarrow> api_proof_request \<Rightarrow> proof_request \<Rightarrow> bool" where
  "parses_to T req rq \<longleftrightarrow>
     t_parse_address T (ar_contract_address req) = Some (src_chain_contract_address rq) \<and>
     list_all2 (\<lambda>s k. t_parse_b256 T s = Some k) (ar_storage_slots req) (src_chain_storage_slots rq) \<and>
     t_parse_b256 T (ar_from_header req) = Some (dst_chain_contract_from_header rq) \<and>
     t_parse_b256 T (ar_vkey req) = Some (rq_vkey rq) \<and>
     src_chain_block_number rq = ar_block_number req \<and> dst_chain_contract_from_head rq = ar_from_head req"

lemma try_from_Ok: "proof_request_try_from T req = Ok rq \<longleftrightarrow> parses_to T req rq"
  by (cases rq) (auto simp: proof_request_try_from_def rbind_Ok_iff rmapM_parsed_Ok parses_to_def)

lemma list_all2_parse_exists:
  "list_all (\<lambda>s. f s \<noteq> None) xs \<Longrightarrow> \<exists>ys. list_all2 (\<lambda>s y. f s = Some y) xs ys"
  by (rule exI [of _ "map (the \<circ> f) xs"]) (auto simp: list_all2_map2 list_all_iff list_all2_same)

lemma try_from_returns: "is_ok (proof_request_try_from T req) \<or> is_err (proof_request_try_from T req)"
proof -
  have step: "is_ok m \<or> is_err m \<Longrightarrow> (\<And>x. is_ok (f x) \<or> is_err (f x)) \<Longrightarrow> is_ok (rbind m f) \<or> is_err (rbind m f)"
    for m :: "(proof_service_error, 'c) res" and f :: "'c \<Rightarrow> (proof_service_error, 'd) res"
    by (cases m) auto
  show ?thesis
    unfolding proof_request_try_from_def by (intro step parsed_returns rmapM_parsed) simp
qed

lemma raises_try_from: "raises (\<lambda>e. \<exists>msg. e = Bad_request msg) (alift (proof_request_try_from T req))"
  using try_from_returns [of T req]
  by (intro raises_alift) (auto simp: proof_request_try_from_def rbind_Err_iff rmapM_parsed_Err)

lemma b256_from_slice_Ok [simp]: "b256_from_slice bs = Ok w \<longleftrightarrow> length bs = 32 \<and> be_bytes 32 w = bs"
  by (auto simp: b256_from_slice_def be_bytes_word_rcat word_rcat_be_bytes)

lemma slice_32: "length bs = 32 \<Longrightarrow> b256_from_slice bs = Ok (word_rcat bs)"
  by (simp add: b256_from_slice_def)

section \<open>The answers to a posted request\<close>

lemma post_own_key:
  assumes "length (vkey_digest_bytes ps) = 32" and "proof_request_try_from (ps_text ps) req = Ok rq"
    and "rq_vkey rq = word_rcat (vkey_digest_bytes ps)"
  shows "serve_call rt ps (Post_proofs req) w =
    (case request_proof rt ps rq w of
       (Ok (pid, s), w1) \<Rightarrow>
         (Ok (202, Body_accepted \<lparr>prr_proof_id = to_hex_string (ps_text ps) pid,
                                 prr_status = status_response s\<rparr>), w1)
     | (Err e, w1) \<Rightarrow> (Ok (into_response (ps_text ps) e), w1)
     | (Panic p, w1) \<Rightarrow> (Panic p, w1)
     | (Diverge, w1) \<Rightarrow> (Diverge, w1))"
  using assms
  by (simp add: serve_call_def request_proof_handler_def slice_32 amatch_def abind_def alift_def aret_def
      split: res.splits prod.splits del: b256_from_slice_Ok)

lemma post_foreign_key:
  assumes "length (vkey_digest_bytes ps) = 32" and "proof_request_try_from (ps_text ps) req = Ok rq"
    and "rq_vkey rq \<noteq> word_rcat (vkey_digest_bytes ps)"
  shows "\<exists>msg. serve_call rt ps (Post_proofs req) w = (Ok (422, Body_error msg), w)"
  using assms
  by (simp add: serve_call_def request_proof_handler_def slice_32 amatch_def abind_def alift_def aret_def
      afail_def del: b256_from_slice_Ok)

lemma post_unparsed:
  assumes "proof_request_try_from (ps_text ps) req = Err e"
  shows "\<exists>msg. serve_call rt ps (Post_proofs req) w = (Ok (400, Body_error msg), w)"
proof -
  from assms obtain msg where "e = Bad_request msg"
    using raises_try_from [of "ps_text ps" req] by (auto simp: raises_def alift_def)
  with assms show ?thesis
    by (simp add: serve_call_def request_proof_handler_def amatch_def abind_def alift_def aret_def)
qed

lemma post_accepted:
  assumes "length (vkey_digest_bytes ps) = 32"
    and "serve_call rt ps (Post_proofs req) w = (Ok (202, Body_accepted a), w')"
  obtains rq pid s where "proof_request_try_from (ps_text ps) req = Ok rq"
    "request_proof rt ps rq w = (Ok (pid, s), w')"
    "a = \<lparr>prr_proof_id = to_hex_string (ps_text ps) pid, prr_status = status_response s\<rparr>"
proof (cases "proof_request_try_from (ps_text ps) req")
  case (Ok rq)
  show thesis
  proof (cases "rq_vkey rq = word_rcat (vkey_digest_bytes ps)")
    case True
    have no: "into_response T e \<noteq> (202, b)" for T e b by (cases e) simp_all
    from assms(2) [unfolded post_own_key [OF assms(1) Ok True]] Ok that show thesis
      by (auto split: prod.splits res.splits simp: no)
  next
    case False
    from post_foreign_key [OF assms(1) Ok False, of rt w] assms(2) show thesis by auto
  qed
next
  case (Err e)
  from post_unparsed [OF Err, of rt w] assms(2) show thesis by auto
qed (use try_from_returns [of "ps_text ps" req] in auto)

text \<open>Reading a state.\<close>

lemma get_known_id:
  assumes "t_parse_b256 (ps_text ps) hex = Some h"
  shows "serve_call rt ps (Get_proofs hex) w =
    (case get_proof ps (Proof_id h) w of
       (Ok (Some st), w1) \<Rightarrow>
         (Ok (200, Body_state \<lparr>psr_proof_id = to_hex_string (ps_text ps) (Proof_id h),
            psr_status = status_response (status st), psr_update_calldata = proof_data st,
            psr_error_message = error_message st\<rparr>), w1)
     | (Ok None, w1) \<Rightarrow> (Ok (into_response (ps_text ps) (Not_found (Proof_id h))), w1)
     | (Err e, w1) \<Rightarrow> (Ok (into_response (ps_text ps) e), w1)
     | (Panic p, w1) \<Rightarrow> (Panic p, w1)
     | (Diverge, w1) \<Rightarrow> (Diverge, w1))"
  using assms
  by (simp add: serve_call_def get_proof_handler_def parsed_def amatch_def abind_def alift_def aret_def
      afail_def Let_def split: res.splits prod.splits option.splits)

lemma raises_get_proof: "raises infrastructure_error (get_proof ps pid)"
  unfolding get_proof_def by (intro raises_intros)

lemma infrastructure_not_404: "infrastructure_error e \<Longrightarrow> into_response T e \<noteq> (404, b)"
  by (cases e) simp_all

lemma infrastructure_500: "infrastructure_error e \<Longrightarrow> fst (into_response T e) = 500"
  by (cases e) simp_all

section \<open>Every call is answered\<close>

text \<open>
  The status code of a call's answer, by what the call found. For \<open>Post_proofs\<close> a body that does not
  parse, a foreign key, a request that returned, one that met the lock, and any other error; for
  \<open>Get_proofs\<close> an identifier that does not parse, a state, none, and a failed read.
\<close>

fun request_code :: "(proof_service_error, 'a) res \<Rightarrow> nat" where
  "request_code (Ok _) = 202"
| "request_code (Err (Lock_contention _)) = 409"
| "request_code _ = 500"

fun answered_with ::
  "'x runtime \<Rightarrow> ('r, 'x, 'o) proof_service \<Rightarrow> 'r world \<Rightarrow> api_call \<Rightarrow> nat \<Rightarrow> bool" where
  "answered_with rt ps w Get_health code \<longleftrightarrow> code = 200"
| "answered_with rt ps w Get_vkey code \<longleftrightarrow> code = 200"
| "answered_with rt ps w (Post_proofs req) code \<longleftrightarrow>
     (code = 400 \<longleftrightarrow> (\<forall>rq. \<not> parses_to (ps_text ps) req rq)) \<and>
     (\<forall>rq. parses_to (ps_text ps) req rq \<longrightarrow>
        code = (if be_bytes 32 (rq_vkey rq) \<noteq> vkey_digest_bytes ps then 422
                else request_code (fst (request_proof rt ps rq w))))"
| "answered_with rt ps w (Get_proofs hex) code \<longleftrightarrow>
     code = (case t_parse_b256 (ps_text ps) hex of
               None \<Rightarrow> 400
             | Some h \<Rightarrow> (case fst (get_proof ps (Proof_id h) w) of
                            Ok (Some _) \<Rightarrow> 200 | Ok None \<Rightarrow> 404 | _ \<Rightarrow> 500))"
| "answered_with rt ps w Get_finalized_header code \<longleftrightarrow>
     code = (case fst (read_finalized_header (ps_store ps) (srv w)) of Ok (Some _) \<Rightarrow> 200 | _ \<Rightarrow> 500)"

lemma request_response: "request_error e \<Longrightarrow> \<exists>b. into_response T e = (request_code (Err e), b)"
  by (cases e) simp_all

lemma infrastructure_response: "infrastructure_error e \<Longrightarrow> \<exists>b. into_response T e = (500, b)"
  by (cases e) simp_all

lemma request_code_range: "request_code r \<noteq> 400"
  by (cases r rule: request_code.cases) simp_all

lemma post_answered:
  assumes digest: "length (vkey_digest_bytes ps) = 32"
  shows "\<exists>code b w'. serve_call rt ps (Post_proofs req) w = (Ok (code, b), w') \<and>
    answered_with rt ps w (Post_proofs req) code"
proof (cases "proof_request_try_from (ps_text ps) req")
  case (Ok rq)
  then have parse: "parses_to (ps_text ps) req rq" by (simp add: try_from_Ok)
  from Ok have only: "parses_to (ps_text ps) req rq' \<longleftrightarrow> rq' = rq" for rq'
    by (auto simp flip: try_from_Ok)
  show ?thesis
  proof (cases "rq_vkey rq = word_rcat (vkey_digest_bytes ps)")
    case True
    then have key: "be_bytes 32 (rq_vkey rq) = vkey_digest_bytes ps"
      by (simp add: be_bytes_word_rcat [OF digest])
    obtain r w1 where run: "request_proof rt ps rq w = (r, w1)" by (cases "request_proof rt ps rq w")
    from raises_request_proof run have "\<exists>code b. serve_call rt ps (Post_proofs req) w = (Ok (code, b), w1) \<and>
        code = request_code r"
    proof (cases rule: raisesD)
      case (1 x)
      with run post_own_key [OF digest Ok True, of rt w] show ?thesis by (cases x) auto
    next
      case (2 e)
      with run post_own_key [OF digest Ok True, of rt w] request_response [OF 2(2)] show ?thesis by auto
    qed
    with run key only request_code_range [of r] show ?thesis by auto
  next
    case False
    then have key: "be_bytes 32 (rq_vkey rq) \<noteq> vkey_digest_bytes ps"
      by (metis word_rcat_be_bytes)
    from post_foreign_key [OF digest Ok False, of rt w] key only show ?thesis by auto
  qed
next
  case (Err e)
  then have "\<not> parses_to (ps_text ps) req rq" for rq by (simp flip: try_from_Ok)
  with post_unparsed [OF Err, of rt w] show ?thesis by auto
qed (use try_from_returns [of "ps_text ps" req] in auto)

lemma get_answered:
  "\<exists>code b w'. serve_call rt ps (Get_proofs hex) w = (Ok (code, b), w') \<and>
     answered_with rt ps w (Get_proofs hex) code"
proof (cases "t_parse_b256 (ps_text ps) hex")
  case None
  then show ?thesis
    by (simp add: serve_call_def get_proof_handler_def parsed_def amatch_def abind_def alift_def aret_def)
next
  case (Some h)
  obtain r w1 where run: "get_proof ps (Proof_id h) w = (r, w1)" by (cases "get_proof ps (Proof_id h) w")
  from raises_get_proof run show ?thesis
  proof (cases rule: raisesD)
    case (1 x)
    with run Some get_known_id [OF Some, of rt w] show ?thesis by (cases x) auto
  next
    case (2 e)
    with run Some get_known_id [OF Some, of rt w] infrastructure_response [OF 2(2)] show ?thesis by auto
  qed
qed

lemma header_answered:
  "\<exists>code b w'. serve_call rt ps Get_finalized_header w = (Ok (code, b), w') \<and>
     answered_with rt ps w Get_finalized_header code"
proof -
  obtain r s where rd: "read_finalized_header (ps_store ps) (srv w) = (r, s)"
    by (cases "read_finalized_header (ps_store ps) (srv w)")
  from raises_store(2) rd show ?thesis
  proof (cases rule: raisesD)
    case (1 x)
    with rd show ?thesis
      by (cases x) (auto simp: serve_call_def get_finalized_header_handler_def get_finalized_header_details_def
          amatch_def abind_def on_srv_def aret_def afail_def)
  next
    case (2 e)
    with rd infrastructure_response [OF 2(2)] show ?thesis
      by (auto simp: serve_call_def get_finalized_header_handler_def get_finalized_header_details_def
          amatch_def abind_def on_srv_def aret_def)
  qed
qed

end
