(* ===== verification/Api_Properties.thy ===== *)
theory Api_Properties
  imports Api_Facts Service_Invariant
begin

text \<open>
  The properties of the HTTP API, with runs on the sample service for their witnesses.
\<close>

section \<open>A concrete call\<close>

definition sample_api_request :: api_proof_request where
  "sample_api_request = \<lparr>ar_contract_address = ''abc'', ar_storage_slots = [sample_hex 10, sample_hex 11],
     ar_block_number = 50, ar_from_head = 40, ar_from_header = sample_hex 64, ar_vkey = sample_hex 7\<rparr>"

lemma sample_ps_text [simp]: "ps_text sample_service = sample_text"
  by (simp add: ps_text_def sample_store_conn_def)

lemma sample_parse_hex: "t_parse_b256 sample_text (sample_hex h) = Some h"
  using sample_parse_law by (simp add: parse_law_def sample_text_def)

lemma sample_try_from: "proof_request_try_from sample_text sample_api_request = Ok sample_request"
  unfolding try_from_Ok
  by (simp add: parses_to_def sample_api_request_def sample_parse_hex) (simp add: sample_text_def)

lemma sample_digest:
  "vkey_digest_bytes sample_service = be_bytes 32 (7 :: b256)" "length (vkey_digest_bytes sample_service) = 32"
  by (simp_all add: vkey_digest_bytes_def sample_service_def)

abbreviation sample_stored :: "(string \<times> string) list world" where
  "sample_stored \<equiv> sample_world [(sample_header_key, ''64'')]"

abbreviation sample_generating :: "(string \<times> string) list world" where
  "sample_generating \<equiv> \<lparr>srv = [(sample_header_key, ''64''), (sample_key, ''g''), (sample_lock_key, ''locked'')],
      spawned = [(sample_request, sample_pid)]\<rparr>"

abbreviation sample_accepted :: proof_request_response where
  "sample_accepted \<equiv> \<lparr>prr_proof_id = to_hex_string sample_text sample_pid, prr_status = Resp_pending\<rparr>"

lemma sample_post:
  "serve_call sample_runtime sample_service (Post_proofs sample_api_request) sample_stored =
     (Ok (202, Body_accepted sample_accepted), sample_generating)"
proof -
  have "rq_vkey sample_request = word_rcat (vkey_digest_bytes sample_service)"
    by (simp add: sample_digest word_rcat_be_bytes)
  from post_own_key [OF sample_digest(2) _ this, of sample_api_request sample_runtime sample_stored]
  show ?thesis by (simp add: sample_try_from sample_request_run)
qed

lemma sample_get:
  "serve_call sample_runtime sample_service (Get_proofs (to_hex_string sample_text sample_pid)) sample_generating =
     (Ok (200, Body_state \<lparr>psr_proof_id = to_hex_string sample_text sample_pid, psr_status = Resp_pending,
        psr_update_calldata = None, psr_error_message = None\<rparr>), sample_generating)"
proof -
  have parse: "t_parse_b256 (ps_text sample_service) (to_hex_string sample_text sample_pid) = Some (id_hash sample_pid)"
    using sample_parse_law by (simp add: parse_law_def to_hex_string_def)
  have "get_proof sample_service (Proof_id (id_hash sample_pid)) sample_generating =
      (Ok (Some (sample_state Generating)), sample_generating)"
    by (simp add: get_proof_def get_proof_state_def read_json_value_def sample_run_simps)
  then show ?thesis
    unfolding get_known_id [OF parse] by (simp add: sample_state_def new_request_state_def)
qed

section \<open>Validation\<close>

text \<open>
  C14: the strings of a request are accepted exactly when the address, every storage slot, the header
  and the key parse, and then each field of the internal request is the parsed string or the copied
  number, the slots in their order; otherwise the answer is a bad request that names the first of
  these four checks that fails.
\<close>

theorem request_validation_exact:
  "(proof_request_try_from T req = Ok rq \<longleftrightarrow> parses_to T req rq) \<and>
   (proof_request_try_from T req = Err e \<longleftrightarrow>
      (\<exists>msg rest. filter (\<lambda>(ok, _). \<not> ok) (field_checks T req) = (False, msg) # rest \<and> e = Bad_request msg))"
proof (rule conjI)
  show "proof_request_try_from T req = Ok rq \<longleftrightarrow> parses_to T req rq" by (rule try_from_Ok)
  let ?slots = "rmapM (\<lambda>s. parsed ''Invalid storage slot format'' (t_parse_b256 T s)) (ar_storage_slots req)"
  have slots: "list_all (\<lambda>s. t_parse_b256 T s \<noteq> None) (ar_storage_slots req) \<longleftrightarrow> is_ok ?slots"
    using rmapM_parsed_Err [of "''Invalid storage slot format''" "t_parse_b256 T" "ar_storage_slots req"]
      rmapM_parsed [of "''Invalid storage slot format''" "t_parse_b256 T" "ar_storage_slots req"]
    by (cases ?slots) (auto simp: list_all_iff)
  show "proof_request_try_from T req = Err e \<longleftrightarrow>
      (\<exists>msg rest. filter (\<lambda>(ok, _). \<not> ok) (field_checks T req) = (False, msg) # rest \<and> e = Bad_request msg)"
  proof (cases ?slots)
    case (Ok ks)
    then show ?thesis
      unfolding field_checks_def slots by (auto simp: proof_request_try_from_def parsed_def split: option.splits)
  next
    case (Err e')
    then have "e' = Bad_request ''Invalid storage slot format''" by (simp add: rmapM_parsed_Err)
    with Err show ?thesis
      unfolding field_checks_def slots by (auto simp: proof_request_try_from_def parsed_def split: option.splits)
  qed (use rmapM_parsed [of "''Invalid storage slot format''" "t_parse_b256 T" "ar_storage_slots req"] in auto)
qed

section \<open>Answers\<close>

text \<open>
  C10: every call is answered, whatever the server does, as long as the backend's digest has its 32
  bytes; no call panics. A posted request is answered with 400 exactly when its strings do not parse,
  else with 422 exactly when its key is not the service's, else with 202 exactly when the service
  accepts it, with 409 when it meets the lock and with 500 on any other error. A call for a state is
  answered with 400 when the identifier does not parse, with 200 for a stored state, with 404 for none
  and with 500 when the read fails; one for the finalized header with 200 when it is stored and with
  500 otherwise, a missing header included; the other two with 200.
\<close>

theorem every_call_answered:
  assumes "length (vkey_digest_bytes ps) = 32"
  shows "\<exists>code b w'. serve_call rt ps c w = (Ok (code, b), w') \<and> answered_with rt ps w c code"
proof (cases c)
  case Get_health
  then show ?thesis by (simp add: serve_call_def health_handler_def amatch_def aret_def)
next
  case Get_vkey
  then show ?thesis by (simp add: serve_call_def get_vkey_handler_def amatch_def aret_def)
qed (use post_answered [OF assms] get_answered header_answered in blast)+

theorem every_call_answered_witness:
  "\<exists>b w'. serve_call sample_runtime sample_service (Get_proofs (to_hex_string sample_text sample_pid))
      (sample_world []) = (Ok (404, b), w')"
proof -
  have parse: "t_parse_b256 (ps_text sample_service) (to_hex_string sample_text sample_pid) = Some (id_hash sample_pid)"
    using sample_parse_law by (simp add: parse_law_def to_hex_string_def)
  have "get_proof sample_service (Proof_id (id_hash sample_pid)) (sample_world []) = (Ok None, sample_world [])"
    by (simp add: get_proof_def get_proof_state_def read_json_value_def sample_run_simps sample_world_def)
  with every_call_answered [OF sample_digest(2), of sample_runtime
      "Get_proofs (to_hex_string sample_text sample_pid)" "sample_world []"] parse
  show ?thesis by auto
qed

text \<open>
  C12: a request whose key is not the service's, or whose strings do not parse, is answered with 422 or
  400 and never reaches the service; only one with the service's own key does.
\<close>

theorem foreign_vkey_stays_outside:
  assumes digest: "length (vkey_digest_bytes ps) = 32" and run: "serve_call rt ps (Post_proofs req) w = (res, w')"
  shows "(\<exists>rq r. parses_to (ps_text ps) req rq \<and> be_bytes 32 (rq_vkey rq) = vkey_digest_bytes ps \<and>
      request_proof rt ps rq w = (r, w')) \<or>
    (\<exists>code msg. res = Ok (code, Body_error msg) \<and> w' = w \<and>
      (code = 400 \<longleftrightarrow> (\<forall>rq. \<not> parses_to (ps_text ps) req rq)) \<and> code \<in> {400, 422})"
proof (cases "proof_request_try_from (ps_text ps) req")
  case (Ok rq)
  then have rq: "parses_to (ps_text ps) req rq" by (simp add: try_from_Ok)
  show ?thesis
  proof (cases "rq_vkey rq = word_rcat (vkey_digest_bytes ps)")
    case True
    have "\<exists>r. request_proof rt ps rq w = (r, w')"
      using run post_own_key [OF digest Ok True, of rt w] by (auto split: prod.splits res.splits)
    with rq True show ?thesis using be_bytes_word_rcat [OF digest] by metis
  next
    case False
    with post_foreign_key [OF digest Ok False, of rt w] run rq show ?thesis by auto
  qed
next
  case (Err e)
  then have "\<not> parses_to (ps_text ps) req rq" for rq by (simp flip: try_from_Ok)
  with post_unparsed [OF Err, of rt w] run show ?thesis by auto
qed (use try_from_returns [of "ps_text ps" req] in auto)

theorem foreign_vkey_stays_outside_witness:
  "\<exists>rq r. parses_to sample_text sample_api_request rq \<and> be_bytes 32 (rq_vkey rq) = be_bytes 32 (7 :: b256) \<and>
    request_proof sample_runtime sample_service rq sample_stored = (r, sample_generating)"
  using foreign_vkey_stays_outside [OF sample_digest(2) sample_post] by (simp add: sample_digest)

section \<open>Reading back\<close>

text \<open>
  C11: on a server nobody else uses, a request that was answered with 202 can be read at once under the
  identifier of that answer: the call is answered with 200, the same identifier and the same status,
  or with 500 when the server fails; never with 400 or 404.
\<close>

theorem accepted_request_readable:
  assumes L: "laws (ps_store ps) (=) live" and T: "parse_law (ps_text ps)"
    and digest: "length (vkey_digest_bytes ps) = 32"
    and post: "serve_call rt ps (Post_proofs req) w = (Ok (202, Body_accepted a), w1)"
    and get: "serve_call rt ps (Get_proofs (prr_proof_id a)) w1 = (Ok (code, b), w2)"
  shows "code = 500 \<or>
    code = 200 \<and> (\<exists>s. b = Body_state s \<and> psr_proof_id s = prr_proof_id a \<and> psr_status s = prr_status a)"
proof -
  from post_accepted [OF digest post] obtain rq pid s where
    run: "request_proof rt ps rq w = (Ok (pid, s), w1)"
    and a: "a = \<lparr>prr_proof_id = to_hex_string (ps_text ps) pid, prr_status = status_response s\<rparr>"
    by blast
  from request_proof_alone [OF L run] obtain st where
    st: "states_of ps live w1 pid = Some st" "status st = s"
    by (auto simp: request_effect_def split: if_splits)
  have parse: "t_parse_b256 (ps_text ps) (prr_proof_id a) = Some (id_hash pid)"
    using T by (simp add: a parse_law_def to_hex_string_def)
  obtain r w3 where got: "get_proof ps (Proof_id (id_hash pid)) w1 = (r, w3)"
    by (cases "get_proof ps (Proof_id (id_hash pid)) w1")
  from raises_get_proof got show ?thesis
  proof (cases rule: raisesD)
    case (1 x)
    with get_proof_alone [OF L] got st have x: "x = Some st" by fastforce
    from get got 1 x st show ?thesis
      unfolding get_known_id [OF parse] by (auto simp: a)
  next
    case (2 e)
    with infrastructure_500 [OF 2(2)] get got show ?thesis
      unfolding get_known_id [OF parse] by (metis (no_types, lifting) fst_conv prod.case res.case(2) res.inject(1) prod.inject)
  qed
qed

theorem accepted_request_readable_witness:
  "\<exists>s. serve_call sample_runtime sample_service (Get_proofs (prr_proof_id sample_accepted)) sample_generating =
      (Ok (200, Body_state s), sample_generating) \<and> psr_status s = prr_status sample_accepted"
proof -
  have laws: "laws (ps_store sample_service) (=) map_of" using sample_laws by simp
  have parse: "parse_law (ps_text sample_service)" using sample_parse_law by simp
  have get: "serve_call sample_runtime sample_service (Get_proofs (prr_proof_id sample_accepted)) sample_generating =
     (Ok (200, Body_state \<lparr>psr_proof_id = to_hex_string sample_text sample_pid, psr_status = Resp_pending,
        psr_update_calldata = None, psr_error_message = None\<rparr>), sample_generating)"
    using sample_get by simp
  from accepted_request_readable [OF laws parse sample_digest(2) sample_post get] get show ?thesis by auto
qed

text \<open>
  C13: on a server shared with other workers, a state that the API reports carries the calldata exactly
  when its status is success and an error message exactly when it is errored, and its identifier is
  the one asked for.
\<close>

theorem reported_state_consistent:
  assumes sh: "service_shared rt ps rely live" and inv: "service_inv rt ps live w"
    and get: "serve_call rt ps (Get_proofs hex) w = (Ok (200, Body_state s), w')"
  shows "(psr_update_calldata s \<noteq> None \<longleftrightarrow> psr_status s = Resp_success) \<and>
    (psr_error_message s \<noteq> None \<longleftrightarrow> psr_status s = Resp_errored) \<and>
    (\<exists>h. t_parse_b256 (ps_text ps) hex = Some h \<and> psr_proof_id s = t_lower_hex (ps_text ps) h)"
proof (cases "t_parse_b256 (ps_text ps) hex")
  case None
  with get show ?thesis
    by (simp add: serve_call_def get_proof_handler_def parsed_def amatch_def abind_def alift_def aret_def)
next
  case (Some h)
  have no: "into_response T e \<noteq> (200, b)" for T e b by (cases e) simp_all
  from get [unfolded get_known_id [OF Some]] obtain st w1 where
    got: "get_proof ps (Proof_id h) w = (Ok (Some st), w1)"
    and s: "s = \<lparr>psr_proof_id = to_hex_string (ps_text ps) (Proof_id h),
            psr_status = status_response (status st), psr_update_calldata = proof_data st,
            psr_error_message = error_message st\<rparr>"
    by (auto split: prod.splits res.splits option.splits simp: no)
  have "ensures (service_inv rt ps live) (get_proof ps (Proof_id h))
      (\<lambda>x. \<forall>st. x = Some st \<longrightarrow> state_at (rt_crypto rt) (ps_store ps) (Proof_id h) st)"
    unfolding get_proof_def by (rule ensures_on_srv [OF ensures_get_proof_state [OF service_sharedD [OF sh]]])
  from ensuresD(2) [OF this inv got] have "wf_state st" by (simp add: state_at_def)
  with s Some show ?thesis
    by (cases "status st") (auto simp: wf_state_def to_hex_string_def)
qed

theorem reported_state_consistent_witness:
  "\<exists>s w'. serve_call sample_runtime sample_service (Get_proofs (to_hex_string sample_text sample_pid))
      (sample_world [(sample_header_key, ''32''), (sample_key, ''w'')]) = (Ok (200, Body_state s), w') \<and>
    (psr_update_calldata s \<noteq> None \<longleftrightarrow> psr_status s = Resp_success) \<and>
    (psr_error_message s \<noteq> None \<longleftrightarrow> psr_status s = Resp_errored)"
proof -
  let ?w = "sample_world [(sample_header_key, ''32''), (sample_key, ''w'')]"
  have parse: "t_parse_b256 (ps_text sample_service) (to_hex_string sample_text sample_pid) = Some (id_hash sample_pid)"
    using sample_parse_law by (simp add: parse_law_def to_hex_string_def)
  have "get_proof sample_service (Proof_id (id_hash sample_pid)) ?w = (Ok (Some (sample_state Waiting_for_finality)), ?w)"
    by (simp add: get_proof_def get_proof_state_def read_json_value_def sample_run_simps sample_world_def)
  then obtain s w' where get: "serve_call sample_runtime sample_service
      (Get_proofs (to_hex_string sample_text sample_pid)) ?w = (Ok (200, Body_state s), w')"
    unfolding get_known_id [OF parse] by simp
  from reported_state_consistent [OF sample_shared sample_waiting_inv get] get show ?thesis by blast
qed

text \<open>
  When no finalized header is stored the call for it is answered with 500, and no call for it is
  ever answered with the 404 that its attribute documents.
\<close>

theorem missing_header_answers_500:
  assumes run: "serve_call rt ps Get_finalized_header w = (Ok (code, b), w')"
  shows "code \<noteq> 404 \<and>
    (fst (read_finalized_header (ps_store ps) (srv w)) = Ok None \<longrightarrow>
       code = 500 \<and> b = Body_error ''Internal error: Finalized header not found in Redis.'')"
proof -
  obtain r s where rd: "read_finalized_header (ps_store ps) (srv w) = (r, s)"
    by (cases "read_finalized_header (ps_store ps) (srv w)")
  from raises_store(2) rd show ?thesis
  proof (cases rule: raisesD)
    case (1 x)
    with run rd show ?thesis
      by (cases x) (auto simp: serve_call_def get_finalized_header_handler_def get_finalized_header_details_def
          amatch_def abind_def on_srv_def aret_def afail_def)
  next
    case (2 e)
    with run rd show ?thesis
      by (auto simp: serve_call_def get_finalized_header_handler_def get_finalized_header_details_def
          amatch_def abind_def on_srv_def aret_def infrastructure_not_404)
  qed
qed

theorem missing_header_answers_500_witness:
  "serve_call sample_runtime sample_service Get_finalized_header (sample_world []) =
     (Ok (500, Body_error ''Internal error: Finalized header not found in Redis.''), sample_world [])"
proof -
  obtain code b w' where run:
    "serve_call sample_runtime sample_service Get_finalized_header (sample_world []) = (Ok (code, b), w')"
    and same: "w' = sample_world []"
    by (simp add: serve_call_def get_finalized_header_handler_def get_finalized_header_details_def
        read_finalized_header_def read_json_value_def amatch_def sample_run_simps sample_world_def)
  have "fst (read_finalized_header (ps_store sample_service) (srv (sample_world []))) = Ok None"
    by (simp add: read_finalized_header_def read_json_value_def sample_run_simps)
  with missing_header_answers_500 [OF run] run same show ?thesis by simp
qed

end
