(* ===== verification/Tracing.thy ===== *)
theory Tracing
  imports Rust_Strings
begin

text \<open>
  Logging, \<open>zk-api/src/tracing/mod.rs\<close> and \<open>slack.rs\<close>: the fields of an event, the JSON entry written
  for Cloud Run, which events are posted to Slack and with what text, the list of running posts, and
  the choice of layers at start-up.

  The layers are driven by the \<open>tracing\<close> crate. An event is its metadata and the values it records,
  in order; \<open>dbg\<close> is the text of \<open>{:?}\<close>, and a time stamp is an argument.
\<close>

section \<open>Levels\<close>

text \<open>\<open>tracing::Level\<close>; the crate documents that a more verbose level is the greater one.\<close>

datatype level = ERROR | WARN | INFO | DEBUG | TRACE

fun verbosity :: "level \<Rightarrow> nat" where
  "verbosity ERROR = 0"
| "verbosity WARN = 1"
| "verbosity INFO = 2"
| "verbosity DEBUG = 3"
| "verbosity TRACE = 4"

lemma verbosity_inject [simp]: "verbosity a = verbosity b \<longleftrightarrow> a = b"
  by (cases a; cases b) simp_all

instantiation level :: linorder
begin

definition less_eq_level :: "level \<Rightarrow> level \<Rightarrow> bool" where
  "a \<le> b \<longleftrightarrow> verbosity a \<le> verbosity b"

definition less_level :: "level \<Rightarrow> level \<Rightarrow> bool" where
  "a < b \<longleftrightarrow> verbosity a < verbosity b"

instance
  by standard (auto simp: less_eq_level_def less_level_def)

end

lemma ERROR_least [simp]: "ERROR \<le> l"
  by (simp add: less_eq_level_def)

lemma TRACE_greatest [simp]: "l \<le> TRACE"
  by (cases l) (simp_all add: less_eq_level_def)

lemma WARN_below: "l \<le> WARN \<longleftrightarrow> l = ERROR \<or> l = WARN"
  by (cases l) (simp_all add: less_eq_level_def)

section \<open>Events\<close>

text \<open>A recorded value, by the method of the visitor it is recorded with.\<close>

datatype 'f field_value =
    Rec_i64 int
  | Rec_u64 u64
  | Rec_bool bool
  | Rec_f64 'f
  | Rec_error string
  | Rec_str string
  | Rec_debug string

record 'f event =
  ev_level :: level
  ev_target :: string
  ev_file :: "string option"
  ev_line :: "u64 option"
  ev_module_path :: "string option"
  ev_fields :: "(string \<times> 'f field_value) list"

text \<open>
  The visitor \<open>OnlyMessage\<close> implements \<open>record_str\<close> and \<open>record_debug\<close>; the other methods' defaults
  go through \<open>record_debug\<close> (an error by its display text). Both take a field named \<open>message\<close> while nothing has been taken.
\<close>

fun debug_text :: "('f field_value \<Rightarrow> string) \<Rightarrow> 'f field_value \<Rightarrow> string" where
  "debug_text dbg (Rec_debug s) = s"
| "debug_text dbg (Rec_error s) = s"
| "debug_text dbg v = dbg v"

fun take_message ::
  "('f field_value \<Rightarrow> string) \<Rightarrow> (string \<times> 'f field_value) list \<Rightarrow> string \<Rightarrow> string" where
  "take_message dbg [] msg = msg"
| "take_message dbg ((name, v) # fs) msg =
     take_message dbg fs
       (if name = ''message'' \<and> msg = []
        then msg @ (case v of Rec_str s \<Rightarrow> s | _ \<Rightarrow> debug_text dbg v)
        else msg)"

definition extract_message :: "('f field_value \<Rightarrow> string) \<Rightarrow> 'f event \<Rightarrow> string" where
  "extract_message dbg ev = take_message dbg (ev_fields ev) []"

section \<open>The JSON entry\<close>

datatype 'f json =
    J_string string
  | J_int int
  | J_bool bool
  | J_float 'f
  | J_strings "string list"

text \<open>
  \<open>JsonFieldsVisitor\<close>: a later field replaces an earlier one of the same name. \<open>record_str\<close> has its
  default, so a string is recorded by its \<open>{:?}\<close> text.
\<close>

fun field_json :: "('f field_value \<Rightarrow> string) \<Rightarrow> 'f field_value \<Rightarrow> 'f json" where
  "field_json dbg (Rec_i64 i) = J_int i"
| "field_json dbg (Rec_u64 n) = J_int (uint n)"
| "field_json dbg (Rec_bool b) = J_bool b"
| "field_json dbg (Rec_f64 x) = J_float x"
| "field_json dbg (Rec_error s) = J_string s"
| "field_json dbg v = J_string (debug_text dbg v)"

fun record_fields ::
  "('f field_value \<Rightarrow> string) \<Rightarrow> (string \<times> 'f field_value) list \<Rightarrow> (string \<Rightarrow> 'f json option)
    \<Rightarrow> (string \<Rightarrow> 'f json option)" where
  "record_fields dbg [] m = m"
| "record_fields dbg ((name, v) # fs) m = record_fields dbg fs (m(name \<mapsto> field_json dbg v))"

fun severity :: "level \<Rightarrow> string" where
  "severity ERROR = ''ERROR''"
| "severity WARN = ''WARNING''"
| "severity INFO = ''INFO''"
| "severity DEBUG = ''DEBUG''"
| "severity TRACE = ''DEBUG''"

fun level_name :: "level \<Rightarrow> string" where
  "level_name ERROR = ''ERROR''"
| "level_name WARN = ''WARN''"
| "level_name INFO = ''INFO''"
| "level_name DEBUG = ''DEBUG''"
| "level_name TRACE = ''TRACE''"

definition insert_opt :: "string \<Rightarrow> 'v option \<Rightarrow> (string \<Rightarrow> 'v option) \<Rightarrow> (string \<Rightarrow> 'v option)" where
  "insert_opt k v m = (case v of Some x \<Rightarrow> m(k \<mapsto> x) | None \<Rightarrow> m)"

text \<open>
  The entry of \<open>GcpJson::format_event\<close>, as a map from keys to values; \<open>ts\<close> is the time, \<open>run\<close> the
  run identifier, \<open>spans\<close> the names of the current spans from the root.
\<close>

definition gcp_entry ::
  "('f field_value \<Rightarrow> string) \<Rightarrow> string \<Rightarrow> string \<Rightarrow> string list \<Rightarrow> 'f event \<Rightarrow> (string \<Rightarrow> 'f json option)"
  where
  "gcp_entry dbg ts run spans ev =
     (let fields = record_fields dbg (ev_fields ev) Map.empty;
          message = (case fields ''message'' of
                       Some v \<Rightarrow> (case v of J_string s \<Rightarrow> s | _ \<Rightarrow> [])
                     | None \<Rightarrow> extract_message dbg ev);
          rest = fields(''message'' := None);
          top = [''time'' \<mapsto> J_string ts, ''severity'' \<mapsto> J_string (severity (ev_level ev)),
                 ''level'' \<mapsto> J_string (level_name (ev_level ev)), ''target'' \<mapsto> J_string (ev_target ev),
                 ''run_id'' \<mapsto> J_string run, ''message'' \<mapsto> J_string message];
          top = insert_opt ''file'' (map_option J_string (ev_file ev)) top;
          top = insert_opt ''line'' (map_option (J_int \<circ> uint) (ev_line ev)) top;
          top = insert_opt ''module_path'' (map_option J_string (ev_module_path ev)) top;
          top = (if spans \<noteq> [] then top(''spans'' \<mapsto> J_strings spans) else top)
      in top ++ rest)"

section \<open>Posting to Slack\<close>

record slack_layer =
  sl_webhook :: string
  sl_threshold :: level

definition should_send :: "level \<Rightarrow> level \<Rightarrow> string \<Rightarrow> string \<Rightarrow> bool" where
  "should_send threshold l target message =
     (let meets_level_threshold = l \<le> threshold;
          is_relevant_generate_event = target = ''proof_service::generate'' \<and> l \<le> DEBUG;
          is_useful_sp1_event = l = INFO \<and>
            (starts_with message ''Created request'' \<or> starts_with message ''View request status at:'' \<or>
             starts_with message ''Proof request assigned'');
          is_main_loop_start_event = l = INFO \<and> target = ''proof_service::run'' \<and>
            starts_with message ''Starting main loop''
      in meets_level_threshold \<or> is_relevant_generate_event \<or> is_useful_sp1_event \<or> is_main_loop_start_event)"

definition filtered_out :: "level \<Rightarrow> string \<Rightarrow> string \<Rightarrow> bool" where
  "filtered_out l target message \<longleftrightarrow>
     l = WARN \<and> target = ''helios_consensus_core::consensus_core'' \<and>
     starts_with message ''skipping block with low vote count''"

fun level_emoji :: "level \<Rightarrow> string" where
  "level_emoji ERROR = '':x:''"
| "level_emoji WARN = '':warning:''"
| "level_emoji INFO = '':white_check_mark:''"
| "level_emoji DEBUG = '':mag:''"
| "level_emoji TRACE = '':mag:''"

text \<open>\<open>{:<5}\<close>\<close>

definition pad_right :: "nat \<Rightarrow> string \<Rightarrow> string" where
  "pad_right n s = s @ replicate (n - length s) CHR '' ''"

text \<open>The text that \<open>on_event\<close> posts, if it posts one; \<open>ts\<close> is the local time.\<close>

definition slack_text ::
  "('f field_value \<Rightarrow> string) \<Rightarrow> level \<Rightarrow> string \<Rightarrow> string \<Rightarrow> 'f event \<Rightarrow> string option" where
  "slack_text dbg threshold run ts ev =
     (let l = ev_level ev;
          target = ev_target ev;
          message = extract_message dbg ev
      in if \<not> should_send threshold l target message then None
         else if filtered_out l target message then None
         else let message = (if message = [] then ''Event occurred'' else message)
              in Some (''`['' @ ts @ ''] ['' @ pad_right 5 (level_name l) @ '']` '' @ level_emoji l @ '' `['' @ run @
                   ''::'' @ target @ '']` '' @ message))"

section \<open>The running posts\<close>

text \<open>
  \<open>SLACK_TASK_HANDLES\<close>: the posts spawned, in order, numbered by \<open>posted\<close>; \<open>completed\<close> holds the ones
  that have ended. \<open>poisoned\<close> says that the mutex cannot be locked any more.
\<close>

record slack_tasks =
  handles :: "nat list"
  posted :: nat
  completed :: "nat set"
  poisoned :: bool

definition SLACK_PRUNE_THRESHOLD :: nat where
  "SLACK_PRUNE_THRESHOLD = 16"

definition push_handle :: "(nat \<Rightarrow> bool) \<Rightarrow> nat \<Rightarrow> nat list \<Rightarrow> nat list" where
  "push_handle finished h v =
     (let v = v @ [h]
      in if SLACK_PRUNE_THRESHOLD \<le> length v then filter (\<lambda>h. \<not> finished h) v else v)"

definition spawn_post :: "slack_tasks \<Rightarrow> slack_tasks" where
  "spawn_post s =
     (let h = posted s; s = s\<lparr>posted := h + 1\<rparr>
      in if poisoned s then s
         else s\<lparr>handles := push_handle (\<lambda>h. h \<in> completed s) h (handles s)\<rparr>)"

text \<open>The handles that \<open>flush\<close> waits for; \<open>None\<close> when it only sleeps.\<close>

definition flush :: "slack_tasks \<Rightarrow> nat list option \<times> slack_tasks" where
  "flush s = (if poisoned s then (None, s) else (Some (handles s), s\<lparr>handles := []\<rparr>))"

definition on_event ::
  "('f field_value \<Rightarrow> string) \<Rightarrow> slack_layer \<Rightarrow> string \<Rightarrow> string \<Rightarrow> 'f event \<Rightarrow> slack_tasks
    \<Rightarrow> (string \<times> string) option \<times> slack_tasks" where
  "on_event dbg layer run ts ev s =
     (case slack_text dbg (sl_threshold layer) run ts ev of
        None \<Rightarrow> (None, s)
      | Some text \<Rightarrow> (Some (sl_webhook layer, text), spawn_post s))"

section \<open>Setting up\<close>

text \<open>
  \<open>run_id\<close> is the first six characters of a fresh UUID. The environment's filter, when it is set and
  valid, is \<open>env_filter\<close>; \<open>parse_filter\<close> and \<open>parse_level\<close> are the parsers of the crates.
\<close>

definition run_id :: "string \<Rightarrow> string" where
  "run_id uuid = take 6 uuid"

record 'd tracing_setup =
  ts_filter :: 'd
  ts_json :: bool
  ts_slack :: "slack_layer option"

definition to_uppercase :: "string \<Rightarrow> string" where
  "to_uppercase s =
     map (\<lambda>c. if 97 \<le> (of_char c :: nat) \<and> (of_char c :: nat) \<le> 122 then char_of (of_char c - 32 :: nat) else c) s"

definition slack_layer_from_env ::
  "(string \<Rightarrow> string option) \<Rightarrow> (string \<Rightarrow> level option) \<Rightarrow> slack_layer option" where
  "slack_layer_from_env env parse_level =
     (case env ''SLACK_WEBHOOK_URL'' of
        Some webhook_url \<Rightarrow>
          if webhook_url \<noteq> [] then
            let slack_level_str = (case env ''SLACK_LOG_LEVEL'' of Some s \<Rightarrow> s | None \<Rightarrow> ''WARN'');
                slack_threshold =
                  (case parse_level (to_uppercase slack_level_str) of Some l \<Rightarrow> l | None \<Rightarrow> WARN)
            in Some \<lparr>sl_webhook = webhook_url, sl_threshold = slack_threshold\<rparr>
          else None
      | None \<Rightarrow> None)"

definition init_tracing ::
  "(string \<Rightarrow> string option) \<Rightarrow> 'd option \<Rightarrow> (string \<Rightarrow> string + 'd) \<Rightarrow> (string \<Rightarrow> level option)
    \<Rightarrow> (string, 'd tracing_setup) res" where
  "init_tracing env env_filter parse_filter parse_level =
     rbind (case env_filter of Some f \<Rightarrow> Ok f | None \<Rightarrow> of_sum (parse_filter ''info'')) (\<lambda>default_filter.
     let is_cloud_run = env ''K_SERVICE'' \<noteq> None
     in Ok \<lparr>ts_filter = default_filter, ts_json = is_cloud_run,
            ts_slack = slack_layer_from_env env parse_level\<rparr>)"

end
