(* ===== verification/Tracing_Facts.thy ===== *)
theory Tracing_Facts
  imports Tracing
begin

text \<open>
  What logging promises: an event that one Slack threshold posts, a more verbose one posts too, and
  errors are always posted; no post is forgotten by the list that the shutdown waits for; and the JSON
  entry holds every field of the event.
\<close>

section \<open>The list of posts\<close>

text \<open>The process between its start and its shutdown: events are logged, and posts end.\<close>

inductive slack_step ::
  "('f field_value \<Rightarrow> string) \<Rightarrow> slack_layer \<Rightarrow> string \<Rightarrow> slack_tasks \<Rightarrow> slack_tasks \<Rightarrow> bool"
  for dbg :: "'f field_value \<Rightarrow> string" and layer :: slack_layer and run :: string where
  log: "on_event dbg layer run ts ev s = (post, s') \<Longrightarrow> slack_step dbg layer run s s'"
| finish: "h < posted s \<Longrightarrow> slack_step dbg layer run s (s\<lparr>completed := insert h (completed s)\<rparr>)"

definition slack_start :: slack_tasks where
  "slack_start = \<lparr>handles = [], posted = 0, completed = {}, poisoned = False\<rparr>"

definition posts_tracked :: "slack_tasks \<Rightarrow> bool" where
  "posts_tracked s \<longleftrightarrow>
     \<not> poisoned s \<and> distinct (handles s) \<and> set (handles s) \<subseteq> {..<posted s} \<and>
     {..<posted s} \<subseteq> set (handles s) \<union> completed s"

lemma set_push_handle:
  "set (push_handle f h v) \<subseteq> insert h (set v)" "insert h (set v) \<subseteq> set (push_handle f h v) \<union> {x. f x}"
  by (auto simp: push_handle_def Let_def)

lemma distinct_push_handle: "distinct v \<Longrightarrow> h \<notin> set v \<Longrightarrow> distinct (push_handle f h v)"
  by (simp add: push_handle_def Let_def)

lemma push_handle_short: "length (push_handle f h v) < SLACK_PRUNE_THRESHOLD \<or> list_all (\<lambda>x. \<not> f x) (push_handle f h v)"
  by (auto simp: push_handle_def Let_def list_all_iff)

lemma spawn_post_simps [simp]:
  "completed (spawn_post s) = completed s" "posted (spawn_post s) = Suc (posted s)"
  by (simp_all add: spawn_post_def Let_def)

lemma spawn_post_tracked:
  assumes "posts_tracked s"
  shows "posts_tracked (spawn_post s)"
proof -
  let ?v = "push_handle (\<lambda>h. h \<in> completed s) (posted s) (handles s)"
  from assms have "posted s \<notin> set (handles s)" by (auto simp: posts_tracked_def)
  with assms have "distinct ?v" by (simp add: distinct_push_handle posts_tracked_def)
  moreover have "set ?v \<subseteq> {..<Suc (posted s)}"
    using set_push_handle(1) [of "\<lambda>h. h \<in> completed s" "posted s" "handles s"] assms
    by (auto simp: posts_tracked_def less_Suc_eq)
  moreover have "{..<Suc (posted s)} \<subseteq> set ?v \<union> completed s"
    using set_push_handle(2) [of "posted s" "handles s" "\<lambda>h. h \<in> completed s"] assms
    by (auto simp: posts_tracked_def less_Suc_eq)
  ultimately show ?thesis using assms by (simp add: spawn_post_def Let_def posts_tracked_def)
qed

lemma slack_step_tracked: "slack_step dbg layer run s s' \<Longrightarrow> posts_tracked s \<Longrightarrow> posts_tracked s'"
proof (induction rule: slack_step.induct)
  case (log ts ev s post s')
  then show ?case by (auto simp: on_event_def spawn_post_tracked split: option.splits)
qed (auto simp: posts_tracked_def)

lemma slack_reachable_tracked:
  "(slack_step dbg layer run)\<^sup>*\<^sup>* slack_start s \<Longrightarrow> posts_tracked s"
proof (induction rule: rtranclp_induct)
  case base
  show ?case by (simp add: slack_start_def posts_tracked_def)
qed (rule slack_step_tracked)

text \<open>Only posts that were spawned end, so the next one is new.\<close>

lemma slack_completed_posted:
  "(slack_step dbg layer run)\<^sup>*\<^sup>* slack_start s \<Longrightarrow> completed s \<subseteq> {..<posted s}"
proof (induction rule: rtranclp_induct)
  case base
  show ?case by (simp add: slack_start_def)
next
  case (step s s')
  from step(2,3) show ?case
    by (cases rule: slack_step.cases)
       (auto simp: on_event_def less_Suc_eq split: option.splits)
qed

section \<open>The fields of an entry\<close>

lemma record_fields_eq:
  "record_fields dbg fs m = m ++ map_of (rev (map (\<lambda>(n, v). (n, field_json dbg v)) fs))"
  by (induction dbg fs m rule: record_fields.induct) (simp_all add: map_add_assoc del: fun_upd_apply)

lemma insert_opt_apply: "insert_opt k v m j = (if j = k \<and> v \<noteq> None then v else m j)"
  by (cases v) (auto simp: insert_opt_def)

section \<open>What is posted\<close>

lemma slack_text_None:
  "slack_text dbg t run ts ev = None \<longleftrightarrow>
     \<not> should_send t (ev_level ev) (ev_target ev) (extract_message dbg ev) \<or>
     filtered_out (ev_level ev) (ev_target ev) (extract_message dbg ev)"
  by (simp add: slack_text_def Let_def)

lemma slack_text_same:
  "slack_text dbg t run ts ev \<noteq> None \<Longrightarrow> slack_text dbg t' run ts ev \<noteq> None \<Longrightarrow>
     slack_text dbg t run ts ev = slack_text dbg t' run ts ev"
  by (simp add: slack_text_None) (simp add: slack_text_def Let_def)

lemma should_send_mono: "t \<le> t' \<Longrightarrow> should_send t l target msg \<Longrightarrow> should_send t' l target msg"
  unfolding should_send_def Let_def using order_trans by blast

lemma should_send_at: "l \<le> t \<Longrightarrow> should_send t l target msg"
  by (simp add: should_send_def)

section \<open>Properties\<close>

text \<open>
  What is posted at one threshold is posted, with the same text, at every more verbose one; an
  event at error level is posted at every threshold, and an event that is not posted at the default
  threshold is below warning or the one warning that is filtered out.
\<close>

theorem slack_posts_monotone:
  "(t \<le> t' \<longrightarrow> slack_text dbg t run ts ev = Some text \<longrightarrow> slack_text dbg t' run ts ev = Some text) \<and>
   (ev_level ev = ERROR \<longrightarrow> slack_text dbg t run ts ev \<noteq> None) \<and>
   (slack_text dbg WARN run ts ev = None \<longrightarrow>
      WARN < ev_level ev \<or> filtered_out (ev_level ev) (ev_target ev) (extract_message dbg ev))"
proof (intro conjI impI)
  assume "t \<le> t'" and post: "slack_text dbg t run ts ev = Some text"
  then have "slack_text dbg t' run ts ev \<noteq> None"
    using should_send_mono by (metis option.distinct(1) slack_text_None)
  with post slack_text_same [of dbg t run ts ev t'] show "slack_text dbg t' run ts ev = Some text" by simp
next
  assume "ev_level ev = ERROR"
  then show "slack_text dbg t run ts ev \<noteq> None"
    by (simp add: slack_text_None should_send_at filtered_out_def)
next
  assume "slack_text dbg WARN run ts ev = None"
  then show "WARN < ev_level ev \<or> filtered_out (ev_level ev) (ev_target ev) (extract_message dbg ev)"
    by (metis linorder_not_le should_send_at slack_text_None)
qed

definition sample_event :: "level \<Rightarrow> string \<Rightarrow> unit event" where
  "sample_event l msg = \<lparr>ev_level = l, ev_target = ''proof_service::run'', ev_file = None, ev_line = Some 7,
     ev_module_path = None, ev_fields = [(''message'', Rec_debug msg), (''severity'', Rec_i64 3)]\<rparr>"

theorem slack_posts_monotone_witness:
  "\<exists>text. slack_text (\<lambda>_. []) ERROR ''abc123'' ''now'' (sample_event ERROR ''stored header too old'') = Some text \<and>
    slack_text (\<lambda>_. []) INFO ''abc123'' ''now'' (sample_event ERROR ''stored header too old'') = Some text"
proof -
  have "ev_level (sample_event ERROR ''stored header too old'') = ERROR" by (simp add: sample_event_def)
  with slack_posts_monotone [of ERROR INFO "\<lambda>_. []" "''abc123''" "''now''" "sample_event ERROR ''stored header too old''"]
  show ?thesis by auto
qed

text \<open>
  C15: whatever is logged and whichever posts end, in any order, the shutdown waits for every post that
  has not ended: it is in the list, once, and nothing else is but posts that were spawned.
\<close>

theorem flush_waits_for_posts:
  assumes "(slack_step dbg layer run)\<^sup>*\<^sup>* slack_start s"
  shows "\<exists>hs. fst (flush s) = Some hs \<and> distinct hs \<and> set hs \<subseteq> {..<posted s} \<and>
    {..<posted s} - completed s \<subseteq> set hs"
  using slack_reachable_tracked [OF assms] by (auto simp: flush_def posts_tracked_def)

theorem flush_waits_for_posts_witness:
  "\<exists>s. (slack_step (\<lambda>_ :: unit field_value. []) \<lparr>sl_webhook = ''https'', sl_threshold = WARN\<rparr> ''abc123'')\<^sup>*\<^sup>* slack_start s \<and>
    fst (flush s) = Some [0]"
proof -
  let ?layer = "\<lparr>sl_webhook = ''https'', sl_threshold = WARN\<rparr>"
  let ?s = "spawn_post slack_start"
  obtain sent where "slack_text (\<lambda>_ :: unit field_value. []) WARN ''abc123'' [] (sample_event ERROR ''a'') = Some sent"
    by (simp add: slack_text_def should_send_def filtered_out_def sample_event_def Let_def)
  then have "on_event (\<lambda>_ :: unit field_value. []) ?layer ''abc123'' [] (sample_event ERROR ''a'') slack_start = (Some (''https'', sent), ?s)"
    by (simp add: on_event_def)
  then have run: "(slack_step (\<lambda>_ :: unit field_value. []) ?layer ''abc123'')\<^sup>*\<^sup>* slack_start ?s"
    by (intro r_into_rtranclp) (rule slack_step.log)
  have "fst (flush ?s) = Some [0]"
    by (simp add: flush_def spawn_post_def slack_start_def push_handle_def SLACK_PRUNE_THRESHOLD_def)
  with run flush_waits_for_posts [OF run] show ?thesis by blast
qed

definition fixed_keys ::
  "string \<Rightarrow> string \<Rightarrow> string list \<Rightarrow> 'f event \<Rightarrow> (string \<times> 'f json option) list" where
  "fixed_keys ts run spans ev =
     [(''time'', Some (J_string ts)), (''severity'', Some (J_string (severity (ev_level ev)))),
      (''level'', Some (J_string (level_name (ev_level ev)))), (''target'', Some (J_string (ev_target ev))),
      (''run_id'', Some (J_string run)), (''file'', map_option J_string (ev_file ev)),
      (''line'', map_option (J_int \<circ> uint) (ev_line ev)),
      (''module_path'', map_option J_string (ev_module_path ev)),
      (''spans'', if spans = [] then None else Some (J_strings spans))]"

definition last_value ::
  "('f field_value \<Rightarrow> string) \<Rightarrow> 'f event \<Rightarrow> string \<Rightarrow> 'f json option" where
  "last_value dbg ev = map_of (rev (map (\<lambda>(n, v). (n, field_json dbg v)) (ev_fields ev)))"

text \<open>
  The JSON entry of an event holds the last value recorded for every field other than the message,
  even when the field has the name of one of the fixed keys, which it then replaces; every other fixed
  key has its own value, and the message is always the event's.
\<close>

theorem log_entry_exact:
  "gcp_entry dbg ts run spans ev k =
    (if k = ''message''
     then Some (J_string (case last_value dbg ev k of
            Some v \<Rightarrow> (case v of J_string s \<Rightarrow> s | _ \<Rightarrow> []) | None \<Rightarrow> extract_message dbg ev))
     else case last_value dbg ev k of
            Some v \<Rightarrow> Some v
          | None \<Rightarrow> (case map_of (fixed_keys ts run spans ev) k of Some v \<Rightarrow> v | None \<Rightarrow> None))"
proof -
  have fields: "record_fields dbg (ev_fields ev) Map.empty = last_value dbg ev"
    by (simp add: record_fields_eq last_value_def)
  show ?thesis
  proof (cases "k = ''message'' \<or> last_value dbg ev k = None")
    case True
    note simps = gcp_entry_def fields map_add_def insert_opt_apply fixed_keys_def Let_def
    show ?thesis
    proof (cases "k \<in> {''message'', ''time'', ''severity'', ''level'', ''target'', ''run_id'', ''file'', ''line'',
               ''module_path'', ''spans''}")
      case keyed: True
      then show ?thesis using True by (elim insertE emptyE) (simp_all add: simps)
    next
      case False
      with True show ?thesis by (simp add: simps)
    qed
  next
    case False
    then show ?thesis by (auto simp: gcp_entry_def fields map_add_def Let_def)
  qed
qed

end
