(* ===== verification/Lock_Timing.thy ===== *)
theory Lock_Timing
  imports Task_Facts
begin

text \<open>
  For how long the lock of a generation task lives (\<open>generate_and_store_proof\<close> in
  \<open>zk-api/src/proof_service.rs\<close>), on a server whose keys expire: the lock is acquired for one second, and
  the extension task sets a new expiry at each of its ticks. Between two commands time passes, as the
  argument \<open>elapse\<close>; times are in milliseconds.
\<close>

section \<open>A server with expiring keys\<close>

text \<open>
  What the Redis manual says of \<open>PX\<close> and \<open>PEXPIRE\<close>. \<open>ttl r k\<close> is the remaining time of a key that has one:
  a command sets it, it runs down as time passes, and when it has run out the key is gone. (Whether the
  key is there in the last millisecond is left open.)
\<close>

definition expiry_laws ::
  "('r \<Rightarrow> keyspace) \<Rightarrow> ('r \<Rightarrow> string \<Rightarrow> nat option) \<Rightarrow> (nat \<Rightarrow> 'r \<Rightarrow> 'r) \<Rightarrow> 'r redis \<Rightarrow> bool" where
  "expiry_laws live ttl elapse R \<longleftrightarrow>
     (\<forall>k v t r r'. rd_set_nx_px R k v t r = (Inr True, r') \<longrightarrow> ttl r' k = Some (unat t)) \<and>
     (\<forall>k t r r'. rd_pexpire R k t r = (Inr 1, r') \<longrightarrow> ttl r' k = Some (unat t)) \<and>
     (\<forall>d k r t. ttl r k = Some t \<longrightarrow> d < t \<longrightarrow> live (elapse d r) k = live r k \<and> ttl (elapse d r) k = Some (t - d)) \<and>
     (\<forall>d k r t. ttl r k = Some t \<longrightarrow> t < d \<longrightarrow> live (elapse d r) k = None)"

lemma expiry_lawsD:
  assumes "expiry_laws live ttl elapse R"
  shows "rd_set_nx_px R k v t r = (Inr True, r') \<Longrightarrow> ttl r' k = Some (unat t)"
    and "rd_pexpire R k t r = (Inr 1, r') \<Longrightarrow> ttl r' k = Some (unat t)"
    and "ttl r k = Some n \<Longrightarrow> d < n \<Longrightarrow> live (elapse d r) k = live r k"
    and "ttl r k = Some n \<Longrightarrow> n < d \<Longrightarrow> live (elapse d r) k = None"
  using assms unfolding expiry_laws_def by blast+

section \<open>The extension task in time\<close>

text \<open>
  The extension task over a list of delays: before each tick's command reaches the server that much
  time has passed since the last command did. It goes on as long as the task does.
\<close>

fun timed_ticks ::
  "(nat \<Rightarrow> 'r \<Rightarrow> 'r) \<Rightarrow> ('r, 'x, 'o) redis_store \<Rightarrow> proof_id \<Rightarrow> nat list \<Rightarrow> ('r, proof_service_error, bool) act" where
  "timed_ticks elapse S pid [] = aret True"
| "timed_ticks elapse S pid (d # ds) =
     (\<lambda>r. case lock_extension_task S pid [Tick] (elapse d r) of
            (Ok True, r') \<Rightarrow> timed_ticks elapse S pid ds r'
          | stopped \<Rightarrow> stopped)"

text \<open>When no time passes this is the task itself.\<close>

lemma timed_ticks_task: "timed_ticks (\<lambda>d r. r) S pid ds = lock_extension_task S pid (map (\<lambda>_. Tick) ds)"
proof (induction ds)
  case (Cons d ds)
  show ?case
  proof
    fix r
    let ?ext = "extend_proof_generation_lock S pid ((LOCK_EXTENSION_INTERVAL_SECS + LOCK_EXTENSION_BUFFER_SECS) * 1000)"
    obtain s r1 where ext: "?ext r = (s, r1)" by (cases "?ext r")
    obtain t r2 where rel: "release_proof_generation_lock S pid r1 = (t, r2)"
      by (cases "release_proof_generation_lock S pid r1")
    show "timed_ticks (\<lambda>d r. r) S pid (d # ds) r = lock_extension_task S pid (map (\<lambda>_. Tick) (d # ds)) r"
      using ext rel Cons.IH
      by (cases s; cases t) (auto simp: amatch_def abind_def aret_def split: bool.split)
  qed
qed simp

text \<open>\<open>lock_for t\<close>: the lock is there, and has \<open>t\<close> milliseconds left.\<close>

definition lock_for ::
  "('r, 'x, 'o) redis_store \<Rightarrow> ('r \<Rightarrow> keyspace) \<Rightarrow> ('r \<Rightarrow> string \<Rightarrow> nat option) \<Rightarrow> proof_id \<Rightarrow> nat \<Rightarrow> 'r \<Rightarrow> bool" where
  "lock_for S live ttl pid t r \<longleftrightarrow>
     generation_held S (live r) pid \<and> ttl r (proof_generation_lock_key S pid) = Some t"

lemma lock_for_elapse:
  assumes "expiry_laws live ttl elapse (conn_manager S)" and "lock_for S live ttl pid t r"
  shows "d < t \<Longrightarrow> generation_held S (live (elapse d r)) pid"
    and "t < d \<Longrightarrow> \<not> generation_held S (live (elapse d r)) pid"
  using assms expiry_lawsD(3,4) [OF assms(1)] by (auto simp: lock_for_def generation_held_def)

lemma acquired_lock_for:
  assumes L: "laws S (=) live" and E: "expiry_laws live ttl elapse (conn_manager S)"
    and run: "acquire_proof_generation_lock S pid t r = (Ok True, r')"
  shows "lock_for S live ttl pid (unat t) r'"
proof -
  from run have "rd_set_nx_px (conn_manager S) (proof_generation_lock_key S pid) ''locked'' t r = (Inr True, r')"
    by (auto simp: acquire_proof_generation_lock_def try_acquire_lock_def redis_call_def split: prod.splits)
  with expiry_lawsD(1) [OF E] generation_lock.acquire_holds [OF L run] show ?thesis
    by (simp add: lock_for_def)
qed

text \<open>A tick that finds the lock gives it twenty-one seconds; one that does not is the last.\<close>

lemma timed_tick_held:
  assumes L: "laws S (=) live" and E: "expiry_laws live ttl elapse (conn_manager S)"
    and ans: "answers (conn_manager S)" and held: "generation_held S (live r) pid"
  shows "\<exists>r'. lock_extension_task S pid [Tick] r = (Ok True, r') \<and> lock_for S live ttl pid 21000 r'"
proof -
  let ?ms = "(LOCK_EXTENSION_INTERVAL_SECS + LOCK_EXTENSION_BUFFER_SECS) * 1000"
  from extend_reliable [OF L ans, of pid ?ms r] held obtain r' where
    ext: "extend_proof_generation_lock S pid ?ms r = (Ok True, r')" and live: "live r' = live r" by auto
  from ext have "rd_pexpire (conn_manager S) (proof_generation_lock_key S pid) ?ms r = (Inr 1, r')"
    unfolding extend_proof_generation_lock_def
    by (auto simp: redis_call_def aret_def elim!: abind_Ok_cases split: prod.splits)
  from expiry_lawsD(2) [OF E this] have "ttl r' (proof_generation_lock_key S pid) = Some 21000"
    by (simp add: LOCK_EXTENSION_INTERVAL_SECS_def LOCK_EXTENSION_BUFFER_SECS_def REDIS_TIMEOUT_SECS_def)
  with ext live held show ?thesis by (simp add: amatch_def aret_def lock_for_def)
qed

lemma timed_ticks_keep:
  assumes L: "laws S (=) live" and E: "expiry_laws live ttl elapse (conn_manager S)"
    and ans: "answers (conn_manager S)"
  shows "lock_for S live ttl pid t r \<Longrightarrow> d < t \<Longrightarrow> \<forall>d \<in> set ds. d \<le> 20000 \<Longrightarrow>
    \<exists>r'. timed_ticks elapse S pid (d # ds) r = (Ok True, r') \<and> lock_for S live ttl pid 21000 r'"
proof (induction ds arbitrary: d t r)
  case Nil
  from timed_tick_held [OF L E ans lock_for_elapse(1) [OF E Nil(1,2)]] show ?case
    by (auto simp: aret_def simp del: lock_extension_task.simps)
next
  case (Cons d' ds)
  from timed_tick_held [OF L E ans lock_for_elapse(1) [OF E Cons.prems(1,2)]] obtain r1 where
    tick: "lock_extension_task S pid [Tick] (elapse d r) = (Ok True, r1)" and r1: "lock_for S live ttl pid 21000 r1"
    by blast
  from Cons.prems(3) have "d' < 21000" "\<forall>d \<in> set ds. d \<le> 20000" by auto
  from Cons.IH [OF r1 this] obtain r' where
    "timed_ticks elapse S pid (d' # ds) r1 = (Ok True, r')" "lock_for S live ttl pid 21000 r'" by blast
  with tick show ?case by (simp del: lock_extension_task.simps timed_ticks.simps add: timed_ticks.simps(2) [of elapse S pid d])
qed

text \<open>
  A tick that the server answers with an error releases the lock and is the last, while the task goes
  on: from then on the request is unprotected.
\<close>

theorem failed_tick_releases:
  assumes L: "laws S (=) live" and rel: "reliable (conn_manager S)"
    and failed: "extend_proof_generation_lock S pid ((LOCK_EXTENSION_INTERVAL_SECS + LOCK_EXTENSION_BUFFER_SECS) * 1000) r =
      (Err e, r1)"
  shows "\<exists>r'. lock_extension_task S pid (Tick # es) r = (Ok False, r') \<and> \<not> generation_held S (live r') pid"
proof -
  from release_generation_reliable [OF L rel, of pid r1] obtain r' where
    "release_proof_generation_lock S pid r1 = (Ok (), r')"
    "live r' = (live r1)(proof_generation_lock_key S pid := None)" by blast
  with failed show ?thesis by (simp add: amatch_def abind_def aret_def generation_held_def)
qed

section \<open>A concrete server\<close>

text \<open>Its keys, with their values, and their remaining times.\<close>

type_synonym timed_server = "keyspace \<times> (string \<Rightarrow> nat option)"

definition timed_elapse :: "nat \<Rightarrow> timed_server \<Rightarrow> timed_server" where
  "timed_elapse d = (\<lambda>(m, ttl).
     (\<lambda>k. case ttl k of Some t \<Rightarrow> if d < t then m k else None | None \<Rightarrow> m k,
      \<lambda>k. case ttl k of Some t \<Rightarrow> if d < t then Some (t - d) else None | None \<Rightarrow> None))"

definition timed_redis :: "timed_server redis" where
  "timed_redis = \<lparr>
     rd_get = (\<lambda>k (m, x). (Inr (m k), (m, x))),
     rd_mget = (\<lambda>ks (m, x). (Inr (map m ks), (m, x))),
     rd_set = (\<lambda>k v (m, x). (Inr (), (m(k \<mapsto> v), x(k := None)))),
     rd_set_ex = (\<lambda>k v t (m, x). (Inr (), (m(k \<mapsto> v), x(k \<mapsto> 1000 * unat t)))),
     rd_atomic = (\<lambda>cs (m, x). (Inr (), (apply_cmds cs m, x))),
     rd_scan = (\<lambda>c p n (m, x). (Inr (0, []), (m, x))),
     rd_set_nx_px = (\<lambda>k v t (m, x). if m k = None then (Inr True, (m(k \<mapsto> v), x(k \<mapsto> unat t))) else (Inr False, (m, x))),
     rd_pexpire = (\<lambda>k t (m, x). if m k = None then (Inr 0, (m, x)) else (Inr 1, (m, x(k \<mapsto> unat t)))),
     rd_del = (\<lambda>k (m, x). (Inr (), (m(k := None), x(k := None)))) \<rparr>"

definition timed_store :: "(timed_server, nat, string) redis_store" where
  "timed_store = \<lparr>conn_manager = timed_redis, key_prefix = ''p'', global_lock_duration_secs = 5,
     rs_text = sample_text, rs_json = sample_json\<rparr>"

lemma timed_redis_laws: "redis_laws (=) fst timed_redis"
  by (auto simp: redis_laws_def timed_redis_def read_law_def write_law_def lock_law_def image_iff) force

lemma timed_laws: "laws timed_store (=) fst"
  using timed_redis_laws sample_laws
  by (simp add: laws_def timed_store_def text_ok_def json_law_def sample_store_conn_def)

lemma timed_expiry: "expiry_laws fst snd timed_elapse timed_redis"
  by (auto simp: expiry_laws_def timed_redis_def timed_elapse_def split: prod.splits if_splits)

lemma timed_answers: "answers timed_redis"
  by (auto simp: answers_def reliable_def timed_redis_def split: prod.splits if_splits)

section \<open>Properties\<close>

text \<open>
  C16: how long a task keeps its lock, on a server that answers. From the acquisition, which gives it one
  second, the extension task keeps it for as long as it runs, whatever the number of ticks, when its
  first tick reaches the server within that second and every later one at most twenty seconds after the
  one before: ten for the interval and ten for an answer that takes as long as the connection allows.
  Each tick leaves the lock twenty-one more seconds, and when the task is cancelled the lock is gone and
  nothing else is changed. When the first tick comes later than a second, which the connection allows
  too, it finds no lock and the extension ends, while the task runs on unprotected.
\<close>

theorem lock_kept_by_extension:
  assumes "laws S (=) live" and "expiry_laws live ttl elapse (conn_manager S)" and "answers (conn_manager S)"
    and "acquire_proof_generation_lock S pid INITIAL_PROOF_GENERATION_LOCK_DURATION_MS r = (Ok True, r1)"
    and "\<forall>d \<in> set later. d \<le> 20000"
  shows "(\<forall>d < 1000. generation_held S (live (elapse d r1)) pid) \<and>
    (if first < 1000
     then \<exists>r2. timed_ticks elapse S pid (first # later) r1 = (Ok True, r2) \<and>
       (\<forall>d < 21000. generation_held S (live (elapse d r2)) pid) \<and>
       (\<forall>d > 21000. \<not> generation_held S (live (elapse d r2)) pid) \<and>
       (\<forall>d. \<exists>r3. lock_extension_task S pid [Cancelled] (elapse d r2) = (Ok False, r3) \<and>
          live r3 = (live (elapse d r2))(proof_generation_lock_key S pid := None))
     else 1000 < first \<longrightarrow> (\<exists>r2. timed_ticks elapse S pid (first # later) r1 = (Ok False, r2) \<and>
       live r2 = live (elapse first r1) \<and> \<not> generation_held S (live r2) pid))"
proof -
  note L = assms(1) and E = assms(2) and ans = assms(3)
  have "unat INITIAL_PROOF_GENERATION_LOCK_DURATION_MS = 1000"
    by (simp add: INITIAL_PROOF_GENERATION_LOCK_DURATION_MS_def)
  with acquired_lock_for [OF L E assms(4)] have lock: "lock_for S live ttl pid 1000 r1" by simp
  note first_second = lock_for_elapse [OF E lock]
  show ?thesis
  proof (cases "first < 1000")
    case True
    from timed_ticks_keep [OF L E ans lock True assms(5)] obtain r2 where
      run: "timed_ticks elapse S pid (first # later) r1 = (Ok True, r2)" and r2: "lock_for S live ttl pid 21000 r2"
      by blast
    have "\<exists>r3. lock_extension_task S pid [Cancelled] (elapse d r2) = (Ok False, r3) \<and>
        live r3 = (live (elapse d r2))(proof_generation_lock_key S pid := None)" for d
      using release_generation_reliable [OF L answers_reliable [OF ans], of pid "elapse d r2"]
      by (auto simp: abind_def aret_def simp del: fun_upd_apply)
    with run lock_for_elapse [OF E r2] first_second True show ?thesis
      by (intro conjI allI impI) (simp_all del: timed_ticks.simps lock_extension_task.simps)
  next
    case False
    have "\<exists>r2. timed_ticks elapse S pid (first # later) r1 = (Ok False, r2) \<and>
        live r2 = live (elapse first r1) \<and> \<not> generation_held S (live r2) pid" if "1000 < first"
    proof -
      from extension_stops [OF L ans first_second(2) [OF that], of "[]"] obtain r2 where
        "lock_extension_task S pid [Tick] (elapse first r1) = (Ok False, r2)" "live r2 = live (elapse first r1)"
        by blast
      with first_second(2) [OF that] show ?thesis by (simp del: lock_extension_task.simps)
    qed
    with first_second False show ?thesis by (simp del: timed_ticks.simps)
  qed
qed

theorem lock_kept_by_extension_witness:
  "\<exists>r1 r2 r3. acquire_proof_generation_lock timed_store sample_pid INITIAL_PROOF_GENERATION_LOCK_DURATION_MS
      (Map.empty, Map.empty) = (Ok True, r1) \<and>
    timed_ticks timed_elapse timed_store sample_pid [10, 20000, 9000] r1 = (Ok True, r2) \<and>
    generation_held timed_store (fst (timed_elapse 20999 r2)) sample_pid \<and>
    timed_ticks timed_elapse timed_store sample_pid [1500, 10000] r1 = (Ok False, r3) \<and>
    \<not> generation_held timed_store (fst r3) sample_pid"
proof -
  let ?k = "proof_generation_lock_key timed_store sample_pid"
  define r1 :: timed_server where "r1 = ([?k \<mapsto> ''locked''], [?k \<mapsto> 1000])"
  have acq: "acquire_proof_generation_lock timed_store sample_pid INITIAL_PROOF_GENERATION_LOCK_DURATION_MS
      (Map.empty, Map.empty) = (Ok True, r1)"
    by (simp add: acquire_proof_generation_lock_def try_acquire_lock_def redis_call_def timed_store_def
        timed_redis_def r1_def INITIAL_PROOF_GENERATION_LOCK_DURATION_MS_def)
  have conn: "conn_manager timed_store = timed_redis" by (simp add: timed_store_def)
  note keeps = lock_kept_by_extension [OF timed_laws timed_expiry [folded conn] timed_answers [folded conn] acq]
  have "\<exists>r2. timed_ticks timed_elapse timed_store sample_pid [10, 20000, 9000] r1 = (Ok True, r2) \<and>
      generation_held timed_store (fst (timed_elapse 20999 r2)) sample_pid"
    using keeps [of "[20000, 9000]" 10] by (auto simp del: timed_ticks.simps lock_extension_task.simps)
  moreover have "\<exists>r3. timed_ticks timed_elapse timed_store sample_pid [1500, 10000] r1 = (Ok False, r3) \<and>
      \<not> generation_held timed_store (fst r3) sample_pid"
    using keeps [of "[10000]" 1500] by (auto simp del: timed_ticks.simps lock_extension_task.simps)
  ultimately show ?thesis using acq by blast
qed

end
