(* ===== verification/Lock_Exclusion.thy ===== *)
theory Lock_Exclusion
  imports Task_Facts
begin

text \<open>
  What the lock of a task excludes when the operations of all workers interleave, command by command:
  while the lock is held no operation spawns a second task for its request. And what it does not
  exclude: a worker that has read a request as generating, and tries its lock only after the task has
  stored its success and freed the lock, starts the request again.
\<close>

section \<open>Operations while a lock is held\<close>

text \<open>
  \<open>lock_stable\<close>: what the other workers and the clock do between two commands does not take the lock of
  \<open>pid\<close> away; for how long that is so for the clock is the subject of \<open>Lock_Timing\<close>.
\<close>

definition lock_stable ::
  "('r, 'x, 'o) redis_store \<Rightarrow> ('r \<Rightarrow> 'r \<Rightarrow> bool) \<Rightarrow> ('r \<Rightarrow> keyspace) \<Rightarrow> proof_id \<Rightarrow> bool" where
  "lock_stable S rely live pid \<longleftrightarrow>
     laws S rely live \<and> plain_prefix S \<and> stable rely live (\<lambda>m. generation_held S m pid)"

lemma lock_stableD:
  assumes "lock_stable S rely live pid"
  shows "laws S rely live" "redis_laws rely live (conn_manager S)" "text_ok S" "plain_prefix S"
    "stable rely live (\<lambda>m. generation_held S m pid)"
  using assms by (auto simp: lock_stable_def dest: lawsD)

abbreviation lock_on where
  "lock_on S live pid \<equiv> \<lambda>r. generation_held S (live r) pid"

text \<open>The lock is held and the tasks of \<open>pid\<close> are those of \<open>tasks\<close>.\<close>

definition task_locked ::
  "('r, 'x, 'o) proof_service \<Rightarrow> ('r \<Rightarrow> keyspace) \<Rightarrow> proof_id \<Rightarrow> (proof_request \<times> proof_id) list \<Rightarrow> 'r world \<Rightarrow> bool" where
  "task_locked ps live pid tasks w \<longleftrightarrow>
     generation_held (ps_store ps) (live (srv w)) pid \<and> filter (\<lambda>t. snd t = pid) (spawned w) = tasks"

lemma locked_on_srv:
  assumes "ensures (lock_on (ps_store ps) live pid) m Q"
  shows "ensures (task_locked ps live pid tasks) (on_srv m) Q"
  using assms unfolding ensures_def on_srv_def task_locked_def by (fastforce split: prod.splits)

lemma locked_spawn: "q \<noteq> pid \<Longrightarrow> preserves (task_locked ps live pid tasks) (spawn rq q)"
  by (auto simp: ensures_def spawn_def task_locked_def)

subsection \<open>Commands of the store\<close>

lemma locked_read:
  assumes "lock_stable S rely live pid" and "read_law rely live c ok"
  shows "preserves (lock_on S live pid) (redis_call c)"
  by (rule ensures_read [OF lock_stableD(5) [OF assms(1)] assms(2)]) simp

lemma locked_read_json:
  assumes "lock_stable S rely live pid"
  shows "preserves (lock_on S live pid) (read_json_value S de k)"
  unfolding read_json_value_def
  by (intro preserves_abind locked_read [OF assms redis_lawsD(2) [OF lock_stableD(2) [OF assms]]])
     (simp add: preserves_alift ensures_aret split: option.split)

lemma locked_reads:
  assumes "lock_stable S rely live pid"
  shows "preserves (lock_on S live pid) (get_proof_state S q)"
    and "preserves (lock_on S live pid) (read_finalized_header S)"
    and "preserves (lock_on S live pid) (find_requests_by_status S fuel st)"
  unfolding get_proof_state_def read_finalized_header_def
  by (rule locked_read_json [OF assms], rule locked_read_json [OF assms],
      rule preserves_find [OF lock_stableD(1,4,5) [OF assms]])

lemma locked_set_state:
  assumes sh: "lock_stable S rely live pid"
  shows "preserves (lock_on S live pid) (set_proof_state S q st)"
  unfolding set_proof_state_def
  by (intro preserves_abind preserves_alift
      preserves_write [OF lock_stableD(5) [OF sh] redis_lawsD(6) [OF lock_stableD(2) [OF sh]]]) simp

lemma locked_update:
  assumes sh: "lock_stable S rely live pid"
  shows "preserves (lock_on S live pid) (update_finalized_header_and_proof_states S hdr us)"
  unfolding update_finalized_header_and_proof_states_def
proof (rule preserves_abind [OF preserves_alift])
  fix hj
  show "preserves (lock_on S live pid) (abind (alift (rmapM (state_cmd S) us))
      (\<lambda>cmds. redis_call (rd_atomic (conn_manager S) (Cmd_set (finalized_header_key S) hj # cmds))))"
  proof (rule ensures_abind, rule ensures_alift)
    fix cmds assume "rmapM (state_cmd S) us = Ok cmds"
    then show "rmapM (state_cmd S) us = Ok cmds" .
  next
    fix cmds assume cmds: "rmapM (state_cmd S) us = Ok cmds"
    show "preserves (lock_on S live pid) (redis_call (rd_atomic (conn_manager S)
        (Cmd_set (finalized_header_key S) hj # cmds)))"
      by (rule preserves_write [OF lock_stableD(5) [OF sh] redis_lawsD(7) [OF lock_stableD(2) [OF sh]]])
         (simp add: apply_state_cmds_locks [OF cmds])
  qed
qed

lemma locked_global:
  assumes sh: "lock_stable S rely live pid"
  shows "preserves (lock_on S live pid) (acquire_global_lock S)"
    and "preserves (lock_on S live pid) (release_global_lock S)"
proof -
  note st = lock_stableD(5) [OF sh] and law = lock_stableD(2) [OF sh]
  show "preserves (lock_on S live pid) (acquire_global_lock S)"
    unfolding acquire_global_lock_def try_acquire_lock_def
    by (rule preserves_lock [OF st redis_lawsD(10) [OF law]]) simp
  show "preserves (lock_on S live pid) (release_global_lock S)"
    unfolding release_global_lock_def
    by (intro preserves_ignore preserves_write [OF st redis_lawsD(8) [OF law]]) simp
qed

text \<open>While the lock of \<open>pid\<close> is held, only another identifier's lock can be acquired.\<close>

lemma locked_acquire:
  assumes sh: "lock_stable S rely live pid"
  shows "ensures (lock_on S live pid) (acquire_proof_generation_lock S q t) (\<lambda>acquired. acquired \<longrightarrow> q \<noteq> pid)"
proof (rule ensuresI)
  fix r res r' assume held: "generation_held S (live r) pid"
    and run: "acquire_proof_generation_lock S q t r = (res, r')"
  let ?k = "proof_generation_lock_key S q"
  obtain s where s: "rd_set_nx_px (conn_manager S) ?k ''locked'' t r = (s, r')" "res = rmap_err Redis_error (of_sum s)"
    using run by (auto simp: acquire_proof_generation_lock_def try_acquire_lock_def redis_call_def split: prod.splits)
  with redis_lawsD(10) [OF lock_stableD(2) [OF sh]] obtain r1 r2 where r: "rely r r1" "rely r2 r'"
    and d: "case s of
        Inr acquired \<Rightarrow> if acquired then live r1 ?k = None \<and> live r2 = (live r1)(?k \<mapsto> ''locked'')
          else live r1 ?k \<noteq> None \<and> live r2 = live r1
      | Inl _ \<Rightarrow> live r2 = live r1 \<or> live r1 ?k = None \<and> live r2 = (live r1)(?k \<mapsto> ''locked'')"
    unfolding lock_law_def by blast
  from held r(1) lock_stableD(5) [OF sh] have held1: "generation_held S (live r1) pid"
    unfolding stable_def by blast
  with d lock_stableD(3) [OF sh] have "generation_held S (live r2) pid"
    by (auto split: sum.splits if_splits)
  with r(2) lock_stableD(5) [OF sh] have "generation_held S (live r') pid" unfolding stable_def by blast
  moreover have "q \<noteq> pid" if "res = Ok True"
  proof -
    from that s(2) have "s = Inr True" by (cases s) simp_all
    with d held1 show ?thesis by (auto simp: generation_held_def)
  qed
  ultimately show "generation_held S (live r') pid \<and> (\<forall>x. res = Ok x \<longrightarrow> x \<longrightarrow> q \<noteq> pid)" by auto
qed

lemma locked_extend:
  assumes sh: "lock_stable S rely live pid"
  shows "preserves (lock_on S live pid) (extend_proof_generation_lock S q t)"
  unfolding extend_proof_generation_lock_def
  by (intro preserves_abind ensures_aret TrueI locked_read [OF sh redis_lawsD(9) [OF lock_stableD(2) [OF sh]]])

lemma locked_release_other:
  assumes sh: "lock_stable S rely live pid" and "q \<noteq> pid"
  shows "preserves (lock_on S live pid) (release_proof_generation_lock S q)"
  unfolding release_proof_generation_lock_def
  by (intro preserves_ignore preserves_write [OF lock_stableD(5) [OF sh] redis_lawsD(8) [OF lock_stableD(2) [OF sh]]])
     (use assms(2) lock_stableD(3) [OF sh] in simp)

lemma locked_extension_other:
  assumes sh: "lock_stable S rely live pid" and "q \<noteq> pid"
  shows "preserves (lock_on S live pid) (lock_extension_task S q events)"
proof (induction events)
  case (Cons e es)
  from Cons.IH have "preserves (lock_on S live pid)
      (if b then lock_extension_task S q es else aret False)" for b by (simp add: ensures_aret)
  then show ?case
    by (cases e) (auto intro!: preserves_amatch preserves_abind locked_extend [OF sh]
        locked_release_other [OF sh assms(2)] ensures_aret)
qed (simp add: ensures_aret)

text \<open>A tick of the task itself that succeeds keeps the lock; one that fails releases it.\<close>

lemma locked_tick:
  assumes sh: "lock_stable S rely live pid" and held: "generation_held S (live r) pid"
    and run: "lock_extension_task S pid [Tick] r = (Ok True, r')"
  shows "generation_held S (live r') pid"
proof -
  let ?ms = "(LOCK_EXTENSION_INTERVAL_SECS + LOCK_EXTENSION_BUFFER_SECS) * 1000"
  obtain s r1 where ext: "extend_proof_generation_lock S pid ?ms r = (s, r1)"
    by (cases "extend_proof_generation_lock S pid ?ms r")
  have no: "abind m (\<lambda>_. aret False) r1 \<noteq> (Ok True, r')" for m :: "('a, proof_service_error, unit) act"
    by (auto simp: aret_def elim!: abind_Ok_cases)
  from run ext no have "r' = r1"
    by (cases s; auto simp: amatch_def aret_def split: if_splits)
  with ensuresD(1) [OF locked_extend [OF sh]] held ext show ?thesis by blast
qed

subsection \<open>Operations of the service\<close>

lemma locked_try_spawn:
  assumes sh: "lock_stable (ps_store ps) rely live pid"
  shows "preserves (task_locked ps live pid tasks) (try_spawn rt ps rq)"
  unfolding try_spawn_def Let_def
  by (rule ensures_amatch [OF locked_on_srv [OF locked_acquire [OF sh]]])
     (auto intro: locked_spawn ensures_aret)

lemma locked_with_global_lock:
  assumes sh: "lock_stable (ps_store ps) rely live pid"
    and "\<And>b. preserves (task_locked ps live pid tasks) (f b)"
  shows "preserves (task_locked ps live pid tasks) (with_global_lock ps f)"
  unfolding with_global_lock_def
  by (intro preserves_abind ensures_finally locked_on_srv assms(2) locked_global [OF sh])

lemma locked_request:
  assumes sh: "lock_stable (ps_store ps) rely live pid"
  shows "preserves (task_locked ps live pid tasks) (request_proof rt ps rq)"
proof -
  have init: "preserves (task_locked ps live pid tasks) (initialize_request_locked rt ps fslot block rq)"
    for fslot block
    unfolding initialize_request_locked_def Let_def
    by (auto intro!: preserves_abind locked_on_srv locked_set_state [OF sh] locked_try_spawn [OF sh] ensures_aret)
  have "preserves (task_locked ps live pid tasks) (process_request_locked rt ps rq locked)" for locked
    unfolding process_request_locked_def get_proof_def Let_def
    by (intro preserves_abind locked_on_srv locked_reads [OF sh])
       (auto intro!: preserves_abind locked_on_srv locked_reads [OF sh] init ensures_aret ensures_afail
         split: option.split)
  then show ?thesis
    unfolding request_proof_def by (rule locked_with_global_lock [OF sh])
qed

lemma locked_header:
  assumes sh: "lock_stable (ps_store ps) rely live pid"
  shows "preserves (task_locked ps live pid tasks) (process_new_finalized_header rt ps latest)"
proof -
  have update: "preserves (task_locked ps live pid tasks)
      (case execution latest of
         None \<Rightarrow> afail (Internal ''Failed to get execution header from finality update'')
       | Some ex \<Rightarrow>
           (case collect_promoted rt ps (block_number ex) (slot (beacon latest)) waiting [] [] of
              (updated, further) \<Rightarrow>
                abind (on_srv (update_finalized_header_and_proof_states (ps_store ps) latest updated))
                  (\<lambda>_. afor further (try_spawn rt ps))))" for waiting
    by (auto simp: collect_promoted_spec intro!: preserves_abind preserves_afor locked_try_spawn [OF sh]
        locked_on_srv locked_update [OF sh] ensures_afail split: option.split)
  have "preserves (task_locked ps live pid tasks) (process_new_finalized_header_locked rt ps latest)"
    unfolding process_new_finalized_header_locked_def Let_def
    by (intro preserves_abind locked_on_srv locked_reads [OF sh])
       (auto intro!: preserves_abind locked_on_srv locked_reads [OF sh] update ensures_aret split: option.split)
  then have "preserves (task_locked ps live pid tasks)
      (if b then abind (process_new_finalized_header_locked rt ps latest) (\<lambda>_. aret True) else aret False)" for b
    by (auto intro: preserves_abind ensures_aret)
  then show ?thesis
    unfolding process_new_finalized_header_def by (rule locked_with_global_lock [OF sh])
qed

lemma locked_restart_each:
  assumes sh: "lock_stable (ps_store ps) rely live pid"
  shows "preserves (task_locked ps live pid tasks) (restart_each rt ps gs)"
  unfolding restart_each_loop by (intro preserves_afor locked_try_spawn [OF sh])

lemma locked_restart:
  assumes sh: "lock_stable (ps_store ps) rely live pid"
  shows "preserves (task_locked ps live pid tasks) (restart_orphaned_proofs rt ps)"
  unfolding restart_orphaned_proofs_def
  by (intro preserves_abind locked_on_srv locked_reads [OF sh] locked_restart_each [OF sh])

lemma locked_turn:
  assumes sh: "lock_stable (ps_store ps) rely live pid"
  shows "preserves (task_locked ps live pid tasks) (run_turn rt ps tn v)"
proof -
  have upd: "preserves (task_locked ps live pid tasks) (update_redis_state rt ps hdr flag)" for hdr flag
    unfolding update_redis_state_def
    by (intro preserves_amatch locked_header [OF sh] ensures_aret TrueI)
  have health: "preserves (lock_on (ps_store ps) live pid) (check_header_health chk (ps_store ps) cfg now)"
    for chk cfg now
    unfolding check_header_health_def get_stored_header_age_def
    by (intro preserves_amatch preserves_abind locked_reads [OF sh])
       (simp_all add: preserves_alift ensures_aret ensures_afail split: option.split)
  show ?thesis
    unfolding run_turn_def
    by (intro preserves_abind preserves_amatch locked_restart [OF sh] ensures_aret TrueI
        locked_on_srv [OF health] preserves_alift)
       (simp add: upd ensures_aret)
qed

lemma locked_generate:
  assumes sh: "lock_stable (ps_store ps) rely live pid"
  shows "preserves (task_locked ps live pid tasks) (generate_and_store_proof rt ps attempts rq q)"
proof -
  have "preserves (lock_on (ps_store ps) live pid) (store_state_loop (ps_store ps) q st fuel)" for st fuel
    by (induction fuel) (auto intro!: preserves_amatch locked_set_state [OF sh] ensures_aret preserves_alift)
  then show ?thesis
    unfolding generate_and_store_proof_def
    by (auto intro!: locked_on_srv preserves_alift split: res.split)
qed

text \<open>
  What may happen while a task holds its lock: every operation of every worker, on any answers, the
  storing of results included; the extensions of other tasks' locks, and their release; the successful
  ticks of the task itself; and what \<open>rely\<close> allows. Not included are the end of the task and a tick that
  fails, since both release the lock.
\<close>

inductive while_locked ::
  "'x runtime \<Rightarrow> ('r, 'x, 'o) proof_service \<Rightarrow> ('r \<Rightarrow> 'r \<Rightarrow> bool) \<Rightarrow> proof_id \<Rightarrow> 'r world \<Rightarrow> 'r world \<Rightarrow> bool"
  for rt :: "'x runtime" and ps :: "('r, 'x, 'o) proof_service" and rely :: "'r \<Rightarrow> 'r \<Rightarrow> bool" and pid :: proof_id where
  locked_step_request: "request_proof rt ps rq w = (res, w') \<Longrightarrow> while_locked rt ps rely pid w w'"
| locked_step_header: "process_new_finalized_header rt ps hdr w = (res, w') \<Longrightarrow> while_locked rt ps rely pid w w'"
| locked_step_restart: "restart_orphaned_proofs rt ps w = (res, w') \<Longrightarrow> while_locked rt ps rely pid w w'"
| locked_step_resume: "restart_each rt ps gs w = (res, w') \<Longrightarrow> while_locked rt ps rely pid w w'"
| locked_step_turn: "run_turn rt ps tn v w = (res, w') \<Longrightarrow> while_locked rt ps rely pid w w'"
| locked_step_task: "generate_and_store_proof rt ps attempts rq q w = (res, w') \<Longrightarrow> while_locked rt ps rely pid w w'"
| locked_step_other: "q \<noteq> pid \<Longrightarrow> on_srv (lock_extension_task (ps_store ps) q events) w = (res, w') \<Longrightarrow>
     while_locked rt ps rely pid w w'"
| locked_step_tick: "on_srv (lock_extension_task (ps_store ps) pid [Tick]) w = (Ok True, w') \<Longrightarrow>
     while_locked rt ps rely pid w w'"
| locked_step_rely: "rely (srv w) r \<Longrightarrow> while_locked rt ps rely pid w (w\<lparr>srv := r\<rparr>)"

lemma while_locked_step:
  assumes sh: "lock_stable (ps_store ps) rely live pid" and "while_locked rt ps rely pid w w'"
    and inv: "task_locked ps live pid tasks w"
  shows "task_locked ps live pid tasks w'"
  using assms(2) inv
proof (cases rule: while_locked.cases)
  case locked_step_tick
  then obtain r where tick: "lock_extension_task (ps_store ps) pid [Tick] (srv w) = (Ok True, r)"
    and w': "w' = w\<lparr>srv := r\<rparr>" by (rule on_srv_cases)
  from inv have "generation_held (ps_store ps) (live (srv w)) pid" by (simp add: task_locked_def)
  from locked_tick [OF sh this tick] inv show ?thesis by (simp add: task_locked_def w')
next
  case (locked_step_rely r)
  with inv lock_stableD(5) [OF sh] show ?thesis by (simp add: task_locked_def stable_def)
qed (use inv in \<open>blast dest: ensuresD(1) [OF locked_request [OF sh]] ensuresD(1) [OF locked_header [OF sh]]
       ensuresD(1) [OF locked_restart [OF sh]] ensuresD(1) [OF locked_restart_each [OF sh]]
       ensuresD(1) [OF locked_turn [OF sh]] ensuresD(1) [OF locked_generate [OF sh]]
       ensuresD(1) [OF locked_on_srv [OF locked_extension_other [OF sh]]]\<close>)+

lemma while_locked_steps:
  assumes sh: "lock_stable (ps_store ps) rely live pid" and "(while_locked rt ps rely pid)\<^sup>*\<^sup>* w w'"
    and "task_locked ps live pid tasks w"
  shows "task_locked ps live pid tasks w'"
  using assms(2,3) by (induction rule: rtranclp_induct) (auto intro: while_locked_step [OF sh])

section \<open>A stale restart\<close>

text \<open>The guarded spawn, on a server that answers: a task for every request whose lock is free.\<close>

lemma spawn_loop_restarts:
  assumes L: "laws (ps_store ps) (=) live" and rel: "reliable (conn_manager (ps_store ps))"
  shows "afor rqs (try_spawn rt ps) w = (res, w') \<Longrightarrow> rq \<in> set rqs \<Longrightarrow>
    \<not> generation_held (ps_store ps) (live (srv w)) (new_id rt ps rq) \<Longrightarrow>
    new_id rt ps rq \<in> snd ` set (spawned w')"
proof (induction rqs arbitrary: w)
  case (Cons q rqs)
  obtain s w1 where step: "try_spawn rt ps q w = (s, w1)" by (cases "try_spawn rt ps q w")
  note eff = try_spawn_effect_alone [OF L step]
  from try_spawn_alone [OF L step] Cons.prems(1) step have rest: "afor rqs (try_spawn rt ps) w1 = (res, w')"
    by (auto simp: abind_def)
  from spawn_loop_alone [OF L rest] have more: "set (spawned w1) \<subseteq> set (spawned w')" by auto
  show ?case
  proof (cases "new_id rt ps q = new_id rt ps rq")
    case True
    with eff rel Cons.prems(3) have "spawned w1 = spawned w @ [(q, new_id rt ps rq)]"
      by (auto simp: spawn_effect_def split: if_splits)
    with more show ?thesis by force
  next
    case False
    obtain s' r where acq: "acquire_proof_generation_lock (ps_store ps) (new_id rt ps q)
        INITIAL_PROOF_GENERATION_LOCK_DURATION_MS (srv w) = (s', r)"
      by (cases "acquire_proof_generation_lock (ps_store ps) (new_id rt ps q)
        INITIAL_PROOF_GENERATION_LOCK_DURATION_MS (srv w)")
    with step have "srv w1 = r"
      by (cases s') (auto simp: try_spawn_def Let_def amatch_def on_srv_def spawn_def aret_def split: if_splits)
    with acquire_generation_any [OF L acq] lawsD(2) [OF L] Cons.prems(3) False
    have "\<not> generation_held (ps_store ps) (live (srv w1)) (new_id rt ps rq)" by auto
    with Cons.IH [OF rest] Cons.prems(2) False show ?thesis by auto
  qed
qed simp

lemma failed_task_overwrites:
  assumes L: "laws (ps_store ps) (=) live" and "get_proof_inputs rt ps rq attempts = Err e"
    and run: "generate_and_store_proof rt ps attempts rq pid w = (Ok u, w')"
  shows "states_of ps live w' pid = Some (updated_proof_state rt rq (Inl e))"
proof -
  from generate_alone [OF L run] obtain out where out: "task_outcome ps (Err e) out"
    and st: "states_of ps live w' = (states_of ps live w)(pid \<mapsto> updated_proof_state rt rq out)"
    by (auto simp: assms(2))
  from out have "out = Inl e" by (cases out) (auto simp: task_outcome_def)
  with st show ?thesis by simp
qed

section \<open>Properties\<close>

text \<open>
  C23: while a generation task holds its lock, and whatever the other workers do between any two commands
  leaves it the lock, no operation of any worker, on any path and with any answers of the server, spawns
  a second task for the request, and the lock stays held: a request, a new header, a restart (also one
  that goes on with requests it read long before), a turn of the main loop, tasks and extensions of
  other requests, and the task's own successful ticks.
\<close>

theorem held_lock_excludes_second_task:
  assumes "laws (ps_store ps) rely live" and "plain_prefix (ps_store ps)"
    and "stable rely live (\<lambda>m. generation_held (ps_store ps) m pid)"
    and "generation_held (ps_store ps) (live (srv w)) pid"
    and steps: "(while_locked rt ps rely pid)\<^sup>*\<^sup>* w w'"
  shows "generation_held (ps_store ps) (live (srv w')) pid \<and>
    filter (\<lambda>t. snd t = pid) (spawned w') = filter (\<lambda>t. snd t = pid) (spawned w)"
proof -
  from assms(1-3) have sh: "lock_stable (ps_store ps) rely live pid" by (simp add: lock_stable_def)
  from assms(4) have "task_locked ps live pid (filter (\<lambda>t. snd t = pid) (spawned w)) w"
    by (simp add: task_locked_def)
  from while_locked_steps [OF sh steps this] show ?thesis by (simp add: task_locked_def)
qed

lemma sample_locked_restart:
  "restart_orphaned_proofs sample_runtime sample_service
     (sample_world (sample_server Generating @ [(sample_lock_key, ''locked'')])) =
   (Ok (), sample_world (sample_server Generating @ [(sample_lock_key, ''locked'')]))"
  by (simp add: restart_orphaned_proofs_def restart_each_def find_requests_by_status_def numeral_3_eq_3
      scan_batch_def try_spawn_def acquire_proof_generation_lock_def try_acquire_lock_def sample_server_def
      sample_world_def sample_run_simps)

theorem held_lock_excludes_second_task_witness:
  "\<exists>w'. while_locked sample_runtime sample_service (=) sample_pid
      (sample_world (sample_server Generating @ [(sample_lock_key, ''locked'')])) w' \<and>
    generation_held sample_store_conn (map_of (srv w')) sample_pid \<and>
    filter (\<lambda>t. snd t = sample_pid) (spawned w') = []"
proof -
  let ?w = "sample_world (sample_server Generating @ [(sample_lock_key, ''locked'')])"
  have base: "laws (ps_store sample_service) (=) map_of" "plain_prefix (ps_store sample_service)"
    "stable (=) map_of (\<lambda>m. generation_held (ps_store sample_service) m sample_pid)"
    using sample_laws sample_plain by simp_all
  have held: "generation_held (ps_store sample_service) (map_of (srv ?w)) sample_pid"
    by (simp add: generation_held_def sample_server_def sample_keys)
  have step: "while_locked sample_runtime sample_service (=) sample_pid ?w ?w"
    by (rule locked_step_restart [OF sample_locked_restart])
  from held_lock_excludes_second_task [OF base held r_into_rtranclp, OF step] step
  show ?thesis by (intro exI [of _ ?w]) simp
qed

text \<open>
  C36: the lock does not protect a success that is already stored. A restart reads which requests are
  generating before it tries their locks. When a task stores its success and frees its lock in between,
  the restart, on a server that answers, still starts the request again, and when the new task fails to
  build its inputs, its error replaces the success.
\<close>

theorem stale_restart_overwrites_success:
  assumes L: "laws (ps_store ps) (=) live" and rel: "reliable (conn_manager (ps_store ps))"
    and first: "on_srv (find_requests_by_status (ps_store ps) (rt_fuel rt) Generating) w = (Ok gs, w1)"
    and mem: "st \<in> set gs" "pid = new_id rt ps (request st)"
    and meanwhile: "states_of ps live w2 pid = Some success" "status success = Success"
      "\<not> generation_held (ps_store ps) (live (srv w2)) pid"
    and rest: "restart_each rt ps gs w2 = (res, w3)"
    and task: "get_proof_inputs rt ps (request st) attempts = Err e"
      "generate_and_store_proof rt ps attempts (request st) pid w3 = (Ok u, w4)"
  shows "restart_orphaned_proofs rt ps w = restart_each rt ps gs w1 \<and>
    pid \<in> snd ` set (spawned w3) \<and> states_of ps live w3 pid = Some success \<and>
    (\<exists>failure. states_of ps live w4 pid = Some failure \<and> status failure = Errored)"
proof -
  from first have "restart_orphaned_proofs rt ps w = restart_each rt ps gs w1"
    by (simp add: restart_orphaned_proofs_def abind_def)
  moreover from rest have loop: "afor (map request gs) (try_spawn rt ps) w2 = (res, w3)"
    by (simp add: restart_each_loop)
  have "pid \<in> snd ` set (spawned w3)"
    using spawn_loop_restarts [OF L rel loop, of "request st"] mem meanwhile(3) by simp
  moreover from spawn_loop_alone [OF L loop] meanwhile(1) have "states_of ps live w3 pid = Some success"
    by (simp add: same_views_def)
  moreover from failed_task_overwrites [OF L task] have "states_of ps live w4 pid =
      Some (updated_proof_state rt (request st) (Inl e))" .
  ultimately show ?thesis by (simp add: updated_proof_state_def)
qed

abbreviation failing_runtime :: "nat runtime" where
  "failing_runtime \<equiv> sample_runtime\<lparr>rt_env := Map.empty\<rparr>"

lemma failing_runtime_id: "new_id failing_runtime sample_service sample_request = sample_pid"
  by (simp add: new_id_def sample_pid_def)

lemma sample_stale_restart:
  "restart_each failing_runtime sample_service [sample_state Generating] (sample_world (sample_server Success)) =
     (Ok (), \<lparr>srv = sample_server Success @ [(sample_lock_key, ''locked'')], spawned = [(sample_request, sample_pid)]\<rparr>)"
  by (simp add: restart_each_def try_spawn_def acquire_proof_generation_lock_def try_acquire_lock_def spawn_def
      sample_server_def sample_world_def sample_run_simps failing_runtime_id)

lemma sample_stale_search:
  "on_srv (find_requests_by_status (ps_store sample_service) (rt_fuel failing_runtime) Generating)
     (sample_world (sample_server Generating @ [(sample_lock_key, ''locked'')])) =
   (Ok [sample_state Generating], sample_world (sample_server Generating @ [(sample_lock_key, ''locked'')]))"
  by (simp add: find_requests_by_status_def numeral_3_eq_3 scan_batch_def sample_server_def
      sample_world_def sample_run_simps)

lemma sample_stale_task:
  "generate_and_store_proof failing_runtime sample_service attempts sample_request sample_pid
     \<lparr>srv = sample_server Success @ [(sample_lock_key, ''locked'')], spawned = [(sample_request, sample_pid)]\<rparr> =
   (Ok (), \<lparr>srv = sample_server Errored @ [(sample_lock_key, ''locked'')], spawned = [(sample_request, sample_pid)]\<rparr>)"
proof -
  have "(new_request_state sample_request)\<lparr>status := Errored, error_message := Some ''failed''\<rparr> =
      sample_state Errored"
    by (simp add: sample_state_def new_request_state_def)
  then show ?thesis
    unfolding generate_and_store_proof_def inputs_exhausted_sample proof_output_result_def
    by (simp add: updated_proof_state_def sample_runtime_def numeral_3_eq_3 set_proof_state_def
        sample_server_def sample_run_simps)
qed

theorem stale_restart_overwrites_success_witness:
  "\<exists>w3 w4. restart_each failing_runtime sample_service [sample_state Generating]
      (sample_world (sample_server Success)) = (Ok (), w3) \<and>
    states_of sample_service map_of (sample_world (sample_server Success)) sample_pid = Some (sample_state Success) \<and>
    generate_and_store_proof failing_runtime sample_service (\<lambda>_. undefined) sample_request sample_pid w3 = (Ok (), w4) \<and>
    (\<exists>failure. states_of sample_service map_of w4 sample_pid = Some failure \<and> status failure = Errored)"
proof -
  have base: "laws (ps_store sample_service) (=) map_of" "reliable (conn_manager (ps_store sample_service))"
    using sample_laws by (simp_all add: reliable_def sample_redis_def)
  have mem: "sample_state Generating \<in> set [sample_state Generating]"
    "sample_pid = new_id failing_runtime sample_service (request (sample_state Generating))"
    by (simp_all add: sample_state_def failing_runtime_id)
  have rq: "request (sample_state Generating) = sample_request" by (simp add: sample_state_def)
  have view: "states_of sample_service map_of (sample_world (sample_server Success)) sample_pid = Some (sample_state Success)"
    "status (sample_state Success) = Success"
    "\<not> generation_held (ps_store sample_service) (map_of (srv (sample_world (sample_server Success)))) sample_pid"
    by (simp_all add: state_view_def generation_held_def sample_server_def sample_keys sample_json_simps)
  have inputs: "get_proof_inputs failing_runtime sample_service (request (sample_state Generating)) (\<lambda>_. undefined) =
      Err (Attempts_exhausted sample_pid (Consensus_failed (Env_missing ''SOURCE_CHAIN_ID'')))"
    unfolding rq by (rule inputs_exhausted_sample)
  have task: "generate_and_store_proof failing_runtime sample_service (\<lambda>_. undefined) (request (sample_state Generating))
      sample_pid \<lparr>srv = sample_server Success @ [(sample_lock_key, ''locked'')], spawned = [(sample_request, sample_pid)]\<rparr> =
    (Ok (), \<lparr>srv = sample_server Errored @ [(sample_lock_key, ''locked'')], spawned = [(sample_request, sample_pid)]\<rparr>)"
    unfolding rq by (rule sample_stale_task)
  from stale_restart_overwrites_success [OF base sample_stale_search mem view sample_stale_restart inputs task]
    sample_stale_restart sample_stale_task view(1)
  show ?thesis by blast
qed

end
