(* ===== verification/Checkpoints.thy ===== *)
theory Checkpoints
  imports Consensus_Client
begin

text \<open>
  The checkpoint helpers of \<open>zk-api/src/lib.rs\<close>: the newest checkpoint of the checkpoint services, and
  the checkpoint of a slot, read as a block from the consensus endpoints.

  \<open>helios\<close>' list of checkpoint services is a parameter: \<open>built\<close> is the outcome of building it, of some
  type \<open>'f\<close>, \<open>fetch\<close> asks it for a network, and \<open>network_of\<close> is the table of chain identifiers. The
  root of a block is a parameter too.
\<close>

text \<open>\<open>unwrap\<close>: an error becomes a panic.\<close>

fun unwrap :: "('e, 'a) res \<Rightarrow> ('f, 'a) res" where
  "unwrap (Ok x) = Ok x"
| "unwrap (Err e) = Panic Unwrap_failed"
| "unwrap (Panic p) = Panic p"
| "unwrap Diverge = Diverge"

lemma unwrap_Ok_iff [simp]: "unwrap m = Ok x \<longleftrightarrow> m = Ok x"
  by (cases m) simp_all

lemma unwrap_not_Err [simp]: "unwrap m \<noteq> Err e"
  by (cases m) simp_all

section \<open>The newest checkpoint\<close>

datatype checkpoint_error =
    Fallback_not_built string
  | Source_chain_missing
  | Source_chain_invalid
  | Source_chain_unknown
  | Fetch_failed string

definition try_get_latest_checkpoint ::
  "string + 'f \<Rightarrow> (string \<Rightarrow> string option) \<Rightarrow> (u64 \<Rightarrow> 'n option) \<Rightarrow> ('f \<Rightarrow> 'n \<Rightarrow> string + b256)
    \<Rightarrow> (checkpoint_error, b256) res" where
  "try_get_latest_checkpoint built env network_of fetch =
     rbind (rmap_err Fallback_not_built (of_sum built)) (\<lambda>cf.
       case env ''SOURCE_CHAIN_ID'' of
         None \<Rightarrow> Err Source_chain_missing
       | Some chain_id \<Rightarrow>
           (case parse_u64 chain_id of
              None \<Rightarrow> Err Source_chain_invalid
            | Some n \<Rightarrow>
                (case network_of n of
                   None \<Rightarrow> Err Source_chain_unknown
                 | Some network \<Rightarrow> rmap_err Fetch_failed (of_sum (fetch cf network)))))"

definition get_latest_checkpoint ::
  "string + 'f \<Rightarrow> (string \<Rightarrow> string option) \<Rightarrow> (u64 \<Rightarrow> 'n option) \<Rightarrow> ('f \<Rightarrow> 'n \<Rightarrow> string + b256)
    \<Rightarrow> ('e, b256) res" where
  "get_latest_checkpoint built env network_of fetch =
     unwrap (try_get_latest_checkpoint built env network_of fetch)"

section \<open>The checkpoint of a slot\<close>

definition try_get_checkpoint ::
  "'x helios \<Rightarrow> (string \<Rightarrow> string option) \<Rightarrow> (u64 \<Rightarrow> 'x base_config option) \<Rightarrow> 'x net \<Rightarrow> ('x \<Rightarrow> b256) \<Rightarrow> u64
    \<Rightarrow> (client_error, b256) res" where
  "try_get_checkpoint H env networks net block_root s =
     rbind (client_from_env H env networks) (\<lambda>client.
     rbind (get_block net client s) (\<lambda>block. Ok (block_root block)))"

definition get_checkpoint ::
  "'x helios \<Rightarrow> (string \<Rightarrow> string option) \<Rightarrow> (u64 \<Rightarrow> 'x base_config option) \<Rightarrow> 'x net \<Rightarrow> ('x \<Rightarrow> b256) \<Rightarrow> u64
    \<Rightarrow> ('e, b256) res" where
  "get_checkpoint H env networks net block_root s = unwrap (try_get_checkpoint H env networks net block_root s)"

section \<open>Facts\<close>

lemma get_latest_checkpoint_Ok:
  "get_latest_checkpoint built env network_of fetch = Ok c \<longleftrightarrow>
     (\<exists>cf id n network. built = Inr cf \<and> env ''SOURCE_CHAIN_ID'' = Some id \<and> parse_u64 id = Some n \<and>
        network_of n = Some network \<and> fetch cf network = Inr c)"
  by (auto simp: get_latest_checkpoint_def try_get_latest_checkpoint_def rbind_Ok_iff split: option.split_asm)

lemma get_checkpoint_Ok:
  "get_checkpoint H env networks net block_root s = Ok c \<longleftrightarrow>
     (\<exists>client block. client_from_env H env networks = Ok client \<and> get_block net client s = Ok block \<and>
        c = block_root block)"
  by (auto simp: get_checkpoint_def try_get_checkpoint_def rbind_Ok_iff)

end
