(* ===== verification/Genesis.thy ===== *)
theory Genesis
  imports Checkpoints Proof_Types
begin

text \<open>
  The genesis tool \<open>cli/bin/genesis.rs\<close>: it starts a light client at a checkpoint and writes the
  parameters the contract is deployed with.

  The tool's surroundings (directories, environment, endpoints, libraries) are the record
  \<open>genesis_host\<close>; what it writes is the state it runs over, a map from paths to contents. A path is the
  list of its components from the root, \<open>..\<close> included, as Rust compares them.
\<close>

section \<open>Paths\<close>

type_synonym path = "string list"

type_synonym files = "path \<Rightarrow> string option"

definition path_components :: "string \<Rightarrow> path" where
  "path_components s = filter (\<lambda>c. c \<noteq> [] \<and> c \<noteq> ''.'') (split_on CHR ''/'' s)"

text \<open>\<open>Path::join\<close>: an absolute path replaces the one it is joined to.\<close>

definition join_path :: "path \<Rightarrow> string \<Rightarrow> path" where
  "join_path p s = (if starts_with s ''/'' then path_components s else p @ path_components s)"

text \<open>The loop of \<open>find_project_root\<close>; \<open>pop\<close> fails at the root.\<close>

fun find_root_loop :: "(path \<Rightarrow> bool) \<Rightarrow> path \<Rightarrow> path option" where
  "find_root_loop exists [] = (if exists (join_path [] ''.git'') then Some [] else None)"
| "find_root_loop exists (c # cs) =
     (if exists (join_path (c # cs) ''.git'') then Some (c # cs)
      else find_root_loop exists (butlast (c # cs)))"

definition find_project_root :: "(path \<Rightarrow> bool) \<Rightarrow> path option \<Rightarrow> path option" where
  "find_project_root exists current_dir =
     (case current_dir of None \<Rightarrow> None | Some path \<Rightarrow> find_root_loop exists path)"

section \<open>The parameters\<close>

record genesis_args =
  arg_slot :: "u64 option"
  arg_env_file :: string
  arg_out :: string

record genesis_config =
  gc_execution_state_root :: string
  gc_genesis_time :: u64
  gc_head :: u64
  gc_header :: string
  gc_helios_program_vkey :: string
  gc_seconds_per_slot :: u64
  gc_slots_per_epoch :: u64
  gc_slots_per_period :: u64
  gc_sync_committee_hash :: string
  gc_verifier :: string
  gc_vkey_updater :: string
  gc_updaters :: "string list"

datatype genesis_error =
    Setup_failed string
  | Light_client_failed client_error
  | Json_failed string
  | Write_failed string

section \<open>The surroundings\<close>

text \<open>
  \<open>gh_dotenv\<close> is the environment after \<open>dotenv\<close> has read a file, \<open>gh_setup\<close> the text of the program's
  key or the error of the SDK, \<open>gh_net_block\<close>, \<open>gh_net_boot\<close> and \<open>gh_net_sync\<close> what the endpoints
  answer while the checkpoint's block is read, during the bootstrap and during the synchronisation,
  \<open>gh_signer\<close> the address of a private key, \<open>gh_address_hex\<close> the formatting \<open>{:x}\<close> of an address, and
  \<open>gh_write\<close> writes a file.
\<close>

record ('x, 'f, 'n) genesis_host =
  gh_current_dir :: "path option"
  gh_exists :: "path \<Rightarrow> bool"
  gh_env :: "string \<Rightarrow> string option"
  gh_dotenv :: "path \<Rightarrow> (string \<Rightarrow> string option) \<Rightarrow> (string \<Rightarrow> string option)"
  gh_setup :: "string + string"
  gh_fallback :: "string + 'f"
  gh_network_of :: "u64 \<Rightarrow> 'n option"
  gh_fetch :: "'f \<Rightarrow> 'n \<Rightarrow> string + b256"
  gh_helios :: "'x helios"
  gh_chk :: bool
  gh_networks :: "u64 \<Rightarrow> 'x base_config option"
  gh_block_root :: "'x \<Rightarrow> b256"
  gh_select :: "(client_error, 'x store) res list \<Rightarrow> (client_error, 'x store) res"
  gh_net_block :: "'x net"
  gh_net_boot :: "'x net"
  gh_net_sync :: "'x net"
  gh_nows :: "system_time \<times> system_time"
  gh_workspace_root :: "string option"
  gh_signer :: "string \<Rightarrow> address option"
  gh_text :: text_lib
  gh_address_hex :: "address \<Rightarrow> string"
  gh_json :: "genesis_config \<Rightarrow> string + string"
  gh_write :: "path \<Rightarrow> string \<Rightarrow> (files, string, unit) act"

section \<open>The tool\<close>

text \<open>\<open>expect\<close> on an environment variable or a parser's result.\<close>

definition expect :: "'a option \<Rightarrow> ('e, 'a) res" where
  "expect v = (case v of Some x \<Rightarrow> Ok x | None \<Rightarrow> Panic Unwrap_failed)"

lemma expect_Ok_iff [simp]: "expect v = Ok x \<longleftrightarrow> v = Some x"
  by (simp add: expect_def split: option.split)

text \<open>An address of the contract: zero under the mock prover, else the value of the variable \<open>name\<close>.\<close>

definition contract_address ::
  "text_lib \<Rightarrow> (string \<Rightarrow> string option) \<Rightarrow> string \<Rightarrow> string \<Rightarrow> ('e, address) res" where
  "contract_address T env sp1_prover name =
     (if sp1_prover \<noteq> ''mock'' then
        rbind (expect (env name)) (\<lambda>text. expect (t_parse_address T text))
      else Ok 0)"

definition prefixed :: "string \<Rightarrow> string" where
  "prefixed addr =
     (let trimmed = trim addr in if starts_with trimmed ''0x'' then trimmed else ''0x'' @ trimmed)"

definition genesis_updaters :: "string option \<Rightarrow> string \<Rightarrow> string list" where
  "genesis_updaters var deployer_hex =
     (case var of
        Some updaters_str \<Rightarrow>
          if updaters_str \<noteq> [] then map prefixed (split_on CHR '','' updaters_str) else [''0x'' @ deployer_hex]
      | None \<Rightarrow> [''0x'' @ deployer_hex])"

definition genesis_checkpoint ::
  "('x, 'f, 'n) genesis_host \<Rightarrow> (string \<Rightarrow> string option) \<Rightarrow> u64 option \<Rightarrow> ('e, b256) res" where
  "genesis_checkpoint h env slot_arg =
     (case slot_arg of
        Some temp_slot \<Rightarrow>
          get_checkpoint (gh_helios h) env (gh_networks h) (gh_net_block h) (gh_block_root h) temp_slot
      | None \<Rightarrow> get_latest_checkpoint (gh_fallback h) env (gh_network_of h) (gh_fetch h))"

definition load_env :: "('x, 'f, 'n) genesis_host \<Rightarrow> string \<Rightarrow> (string \<Rightarrow> string option)" where
  "load_env h env_file =
     (case find_project_root (gh_exists h) (gh_current_dir h) of
        Some root \<Rightarrow> gh_dotenv h (join_path root env_file) (gh_env h)
      | None \<Rightarrow> gh_env h)"

text \<open>
  \<open>genesis_config_of\<close> is the construction of the parameters from the synchronised client; only the
  missing execution payload stops it.
\<close>

definition genesis_config_of ::
  "('x, 'f, 'n) genesis_host \<Rightarrow> 'x client \<Rightarrow> string \<Rightarrow> address \<Rightarrow> address \<Rightarrow> string list
    \<Rightarrow> (genesis_error, genesis_config) res" where
  "genesis_config_of h cl vkey verifier vkey_updater updaters =
     (let store = cl_store cl;
          finalized = finalized_header store;
          hex = (\<lambda>w. ''0x'' @ t_lower_hex (gh_text h) w)
      in rbind (expect (execution finalized)) (\<lambda>payload.
         Ok \<lparr>gc_execution_state_root = hex (state_root payload),
             gc_genesis_time = genesis_time (cl_config cl),
             gc_head = slot (beacon finalized),
             gc_header = hex (h_beacon_root (gh_helios h) (beacon finalized)),
             gc_helios_program_vkey = vkey,
             gc_seconds_per_slot = 12,
             gc_slots_per_epoch = 32,
             gc_slots_per_period = 32 * 256,
             gc_sync_committee_hash = hex (h_committee_root (gh_helios h) (current_sync_committee store)),
             gc_verifier = ''0x'' @ gh_address_hex h verifier,
             gc_vkey_updater = ''0x'' @ gh_address_hex h vkey_updater,
             gc_updaters = updaters\<rparr>))"

definition write_genesis_config ::
  "('x, 'f, 'n) genesis_host \<Rightarrow> path \<Rightarrow> genesis_config \<Rightarrow> string \<Rightarrow> (files, genesis_error, unit) act" where
  "write_genesis_config h workspace_root cfg out =
     abind (alift (rmap_err Json_failed (of_sum (gh_json h cfg)))) (\<lambda>text.
       amap_err Write_failed (gh_write h (join_path (join_path workspace_root out) ''genesis.json'') text))"

text \<open>\<open>main\<close> up to the construction of the parameters, with the path of the workspace.\<close>

definition genesis_build ::
  "('x, 'f, 'n) genesis_host \<Rightarrow> genesis_args \<Rightarrow> (genesis_error, path \<times> genesis_config) res" where
  "genesis_build h args =
     (let env = load_env h (arg_env_file args)
      in rbind (rmap_err Setup_failed (of_sum (gh_setup h))) (\<lambda>vkey.
         rbind (genesis_checkpoint h env (arg_slot args)) (\<lambda>checkpoint.
         rbind (expect (env ''SP1_PROVER'')) (\<lambda>sp1_prover.
         rbind (contract_address (gh_text h) env sp1_prover ''SP1_VERIFIER_ADDRESS'') (\<lambda>verifier.
         rbind (contract_address (gh_text h) env sp1_prover ''VKEY_UPDATER'') (\<lambda>vkey_updater.
         rbind (rmap_err Light_client_failed (client_from_env (gh_helios h) env (gh_networks h))) (\<lambda>client.
         case client_sync (gh_chk h) (gh_helios h) (gh_select h) (gh_net_boot h) (gh_net_sync h) (gh_nows h)
                checkpoint client of
           (synced, helios_client) \<Rightarrow>
         rbind (rmap_err Light_client_failed synced) (\<lambda>_.
         rbind (expect (gh_workspace_root h)) (\<lambda>root.
         rbind (expect (env ''PRIVATE_KEY'')) (\<lambda>private_key.
         rbind (expect (gh_signer h private_key)) (\<lambda>deployer.
         let updaters = genesis_updaters (env ''UPDATERS'') (gh_address_hex h deployer)
         in rbind (genesis_config_of h helios_client vkey verifier vkey_updater updaters) (\<lambda>cfg.
            Ok (path_components root, cfg)))))))))))))"

definition genesis_main ::
  "('x, 'f, 'n) genesis_host \<Rightarrow> genesis_args \<Rightarrow> (files, genesis_error, unit) act" where
  "genesis_main h args =
     abind (alift (genesis_build h args)) (\<lambda>(workspace_root, cfg).
       write_genesis_config h workspace_root cfg (arg_out args))"

end
