(* ===== verification/Startup.thy ===== *)
theory Startup
  imports Proof_Runtime Api Sp1_Backend Tracing_Facts
begin

text \<open>
  The service's entry point: \<open>main\<close> (\<open>zk-api/src/main.rs\<close>), with the construction of the backend
  (\<open>SP1Backend::from_env\<close>) and of the service (\<open>ProofService::new\<close>).

  The surroundings of the process are the record \<open>main_host\<close>. The service runs over the world of the
  proof service; the list of Slack posts is the second part of the state. The main loop only returns
  with an error, so a result \<open>Ok\<close> says that it is still running after the turns so far.
\<close>

section \<open>Construction\<close>

text \<open>\<open>setup\<close> is the SDK's outcome: the prover with its keys, or an error.\<close>

definition sp1_from_env ::
  "text_lib \<Rightarrow> string + 'x sp1_lib \<Rightarrow> (string, ('x, helios_proof_data) proof_backend) res" where
  "sp1_from_env T setup =
     (case setup of
        Inr B \<Rightarrow> Ok (sp1_backend T B)
      | Inl _ \<Rightarrow> Err ''Failed to setup SP1 proving key'')"

datatype main_error =
    Tracing_failed string
  | Backend_setup_failed string
  | Service_store_failed store_error
  | Service_proxy_failed proxy_error
  | Service_stopped run_error

text \<open>The execution proxy is the list of its providers; the service's record does not hold it.\<close>

definition service_new ::
  "('x, 'o) proof_backend \<Rightarrow> text_lib \<Rightarrow> ('x, 'o) json_lib \<Rightarrow> (string \<Rightarrow> string option)
    \<Rightarrow> (string \<Rightarrow> string + bool \<times> (string + 'r redis)) \<Rightarrow> (string \<Rightarrow> 'p option)
    \<Rightarrow> (main_error, ('r, 'x, 'o) proof_service \<times> 'p list) res" where
  "service_new backend T J env connect parse_url =
     rbind (rmap_err Service_store_failed (redis_store_new T J env connect)) (\<lambda>store.
     rbind (rmap_err Service_proxy_failed (proxy_try_from_env env parse_url)) (\<lambda>proxy.
       Ok (\<lparr>ps_backend = backend, ps_store = store\<rparr>, proxy)))"

section \<open>The entry point\<close>

record ('r, 'x, 'd, 'p, 'l, 'f) main_host =
  mh_env :: "string \<Rightarrow> string option"
  mh_env_filter :: "'d option"
  mh_parse_filter :: "string \<Rightarrow> string + 'd"
  mh_parse_level :: "string \<Rightarrow> level option"
  mh_enabled :: "'d \<Rightarrow> 'f event \<Rightarrow> bool"
  mh_dbg :: "'f field_value \<Rightarrow> string"
  mh_uuid :: string
  mh_setup :: "string + 'x sp1_lib"
  mh_text :: text_lib
  mh_json :: "('x, helios_proof_data) json_lib"
  mh_connect :: "string \<Rightarrow> string + bool \<times> (string + 'r redis)"
  mh_parse_url :: "string \<Rightarrow> 'p option"
  mh_bind :: "u16 \<Rightarrow> string + 'l"
  mh_show_error :: "run_error \<Rightarrow> string"

text \<open>What \<open>main\<close> has set up when the main loop starts.\<close>

definition main_setup ::
  "('r, 'x, 'd, 'p, 'l, 'f) main_host
    \<Rightarrow> (main_error, 'd tracing_setup \<times> ('r, 'x, helios_proof_data) proof_service \<times> 'p list \<times> 'l) res" where
  "main_setup h =
     rbind (rmap_err Tracing_failed
              (init_tracing (mh_env h) (mh_env_filter h) (mh_parse_filter h) (mh_parse_level h))) (\<lambda>tracing.
     rbind (rmap_err Backend_setup_failed (sp1_from_env (mh_text h) (mh_setup h))) (\<lambda>backend.
     rbind (service_new backend (mh_text h) (mh_json h) (mh_env h) (mh_connect h) (mh_parse_url h))
       (\<lambda>(service, providers).
     rbind (start_api_server (mh_env h) (mh_bind h)) (\<lambda>listener.
       Ok (tracing, service, providers, listener)))))"

text \<open>An event reaches the Slack layer when the filter lets it through and the layer is there.\<close>

definition log_event ::
  "('r, 'x, 'd, 'p, 'l, 'f) main_host \<Rightarrow> 'd tracing_setup \<Rightarrow> string \<Rightarrow> 'f event \<Rightarrow> slack_tasks
    \<Rightarrow> (string \<times> string) option \<times> slack_tasks" where
  "log_event h tracing ts ev s =
     (if mh_enabled h (ts_filter tracing) ev then
        case ts_slack tracing of
          Some layer \<Rightarrow> on_event (mh_dbg h) layer (run_id (mh_uuid h)) ts ev s
        | None \<Rightarrow> (None, s)
      else (None, s))"

text \<open>\<open>error!("Error running proof service: {:#}", e)\<close>\<close>

definition stop_event :: "('r, 'x, 'd, 'p, 'l, 'f) main_host \<Rightarrow> run_error \<Rightarrow> 'f event" where
  "stop_event h e = \<lparr>ev_level = ERROR, ev_target = ''sp1_helios_api'',
     ev_file = Some ''zk-api/src/main.rs'', ev_line = Some 20, ev_module_path = Some ''sp1_helios_api'',
     ev_fields = [(''message'', Rec_debug (''Error running proof service: '' @ mh_show_error h e))]\<rparr>"

text \<open>
  How the process ends: its result, what the last event posted to Slack, and the posts it waits for
  before it exits (\<open>None\<close> for the part it does not reach, or when the list cannot be locked).
\<close>

record 'v main_end =
  me_result :: "(main_error, 'v) res"
  me_post :: "(string \<times> string) option"
  me_waited :: "nat list option"

definition main_finish ::
  "('r, 'x, 'd, 'p, 'l, 'f) main_host \<Rightarrow> 'd tracing_setup \<Rightarrow> string \<Rightarrow> slack_tasks \<Rightarrow> (run_error, 'v) res
    \<Rightarrow> 'v main_end" where
  "main_finish h tracing ts s res =
     (case res of
        Err e \<Rightarrow>
          (case log_event h tracing ts (stop_event h e) s of
             (post, s') \<Rightarrow> \<lparr>me_result = Err (Service_stopped e), me_post = post, me_waited = fst (flush s')\<rparr>)
      | Ok v \<Rightarrow> \<lparr>me_result = Ok v, me_post = None, me_waited = None\<rparr>
      | Panic p \<Rightarrow> \<lparr>me_result = Panic p, me_post = None, me_waited = None\<rparr>
      | Diverge \<Rightarrow> \<lparr>me_result = Diverge, me_post = None, me_waited = None\<rparr>)"

text \<open>
  \<open>main\<close> over the world that the service finds, the turns of its loop and the state of the Slack posts
  when the loop has ended; \<open>rt_of\<close> is the runtime around a service with these providers.
\<close>

definition program_main ::
  "('r, 'x, 'd, 'p, 'l, 'f) main_host \<Rightarrow> ('p list \<Rightarrow> 'x runtime) \<Rightarrow> 'x attempt \<Rightarrow> system_time \<times> system_time
    \<Rightarrow> 'x turn list \<Rightarrow> string \<Rightarrow> slack_tasks \<Rightarrow> 'r world \<Rightarrow> 'x run_vars main_end \<times> 'r world" where
  "program_main h rt_of at nows tns ts s w =
     (case main_setup h of
        Ok (tracing, service, providers, listener) \<Rightarrow>
          (case run (rt_of providers) service at nows tns w of
             (res, w') \<Rightarrow> (main_finish h tracing ts s res, w'))
      | Err e \<Rightarrow> (\<lparr>me_result = Err e, me_post = None, me_waited = None\<rparr>, w)
      | Panic p \<Rightarrow> (\<lparr>me_result = Panic p, me_post = None, me_waited = None\<rparr>, w)
      | Diverge \<Rightarrow> (\<lparr>me_result = Diverge, me_post = None, me_waited = None\<rparr>, w))"

end
