(* ===== verification/Startup_Facts.thy ===== *)
theory Startup_Facts
  imports Startup Service_Samples
begin

text \<open>
  What the entry point guarantees: how its set-up fails, and that the reason for stopping is posted
  and waited for.
\<close>

section \<open>Set-up\<close>

lemma start_api_server_Ok:
  "start_api_server env bind = Ok l \<longleftrightarrow>
     (\<exists>var n. env ''PORT'' = Some var \<and> parse_below (2 ^ 16) var = Some n \<and> bind (of_nat n) = Inr l)"
  by (auto simp: start_api_server_def api_port_def rbind_Ok_iff split: option.splits sum.splits)

lemma proxy_not_empty: "proxy_try_from_env env parse_url = Ok ps \<Longrightarrow> ps \<noteq> []"
  by (auto simp: proxy_try_from_env_def Let_def split: if_splits)

lemma redis_store_new_Ok:
  assumes "redis_store_new T J env connect = Ok S"
  shows "env ''REDIS_KEY_PREFIX'' = Some (key_prefix S) \<and> rs_text S = T \<and>
    (\<exists>url. env ''REDIS_URL'' = Some url \<and> connect url = Inr (False, Inr (conn_manager S))) \<and>
    (\<exists>secs. env ''REDIS_LOCK_DURATION_SECS'' = Some secs \<and> parse_u64 secs = Some (global_lock_duration_secs S))"
  using assms by (auto simp: redis_store_new_def split: option.splits sum.splits prod.splits if_splits)

lemma main_setup_Ok:
  assumes "main_setup h = Ok (tracing, service, providers, listener)"
  shows "\<exists>B. mh_setup h = Inr B \<and> ps_backend service = sp1_backend (mh_text h) B"
    and "redis_store_new (mh_text h) (mh_json h) (mh_env h) (mh_connect h) = Ok (ps_store service)"
    and "proxy_try_from_env (mh_env h) (mh_parse_url h) = Ok providers"
    and "start_api_server (mh_env h) (mh_bind h) = (Ok listener :: (main_error, _) res)"
  using assms
  by (auto simp: main_setup_def rbind_Ok_iff service_new_def sp1_from_env_def split: sum.splits)

section \<open>Properties\<close>

text \<open>
  Once the set-up has returned, everything the service needs is there: the backend has its keys,
  the store is connected with the prefix and the lock duration of the environment, there is an
  execution provider, and the API listens on the port of the environment. A set-up that fails leaves
  the server untouched and spawns nothing.
\<close>

theorem setup_complete:
  "(case main_setup h of
      Ok (tracing, service, providers, listener) \<Rightarrow>
        providers \<noteq> [] \<and> (\<exists>B. mh_setup h = Inr B \<and> vkey_digest_bytes service = sp1_vkey_raw B) \<and>
        mh_env h ''REDIS_KEY_PREFIX'' = Some (key_prefix (ps_store service)) \<and>
        (\<exists>secs. mh_env h ''REDIS_LOCK_DURATION_SECS'' = Some secs \<and>
           parse_u64 secs = Some (global_lock_duration_secs (ps_store service))) \<and>
        (\<exists>port n. mh_env h ''PORT'' = Some port \<and> parse_below (2 ^ 16) port = Some n \<and>
           mh_bind h (of_nat n) = Inr listener)
    | _ \<Rightarrow> snd (program_main h rt_of at nows tns ts s w) = w \<and>
        \<not> is_ok (me_result (fst (program_main h rt_of at nows tns ts s w))))"
proof (cases "main_setup h")
  case (Ok r)
  obtain tracing service providers listener where r: "r = (tracing, service, providers, listener)"
    by (cases r)
  note ready = main_setup_Ok [OF Ok [unfolded r]]
  from ready(1) have "\<exists>B. mh_setup h = Inr B \<and> vkey_digest_bytes service = sp1_vkey_raw B"
    by (auto simp: vkey_digest_bytes_def sp1_backend_def sp1_vkey_digest_def)
  with proxy_not_empty [OF ready(3)] redis_store_new_Ok [OF ready(2)]
    ready(4) [unfolded start_api_server_Ok]
  show ?thesis by (auto simp: Ok r)
qed (simp_all add: program_main_def)

text \<open>
  C20: when the main loop stops with an error, its text is the last thing posted to Slack, and the
  process waits for that post and for every earlier one that has not ended before it exits with the
  same error, as long as the filter lets errors through.
\<close>

theorem stop_reported:
  assumes ready: "main_setup h = Ok (tracing, service, providers, listener)"
    and slack: "ts_slack tracing = Some layer"
    and enabled: "\<And>ev. ev_level ev = ERROR \<Longrightarrow> mh_enabled h (ts_filter tracing) ev"
    and posts: "(slack_step (mh_dbg h) layer (run_id (mh_uuid h)))\<^sup>*\<^sup>* slack_start s"
    and run: "run (rt_of providers) service at nows tns w = (Err e, w')"
  shows "\<exists>header hs. program_main h rt_of at nows tns ts s w =
    (\<lparr>me_result = Err (Service_stopped e),
      me_post = Some (sl_webhook layer, header @ ''Error running proof service: '' @ mh_show_error h e),
      me_waited = Some hs\<rparr>, w') \<and>
    distinct hs \<and> posted s \<in> set hs \<and> {..<posted s} - completed s \<subseteq> set hs"
proof -
  let ?ev = "stop_event h e"
  have lvl: "ev_level ?ev = ERROR" by (simp add: stop_event_def)
  have message: "extract_message (mh_dbg h) ?ev = ''Error running proof service: '' @ mh_show_error h e"
    by (simp add: extract_message_def stop_event_def)
  have not_filtered: "\<not> filtered_out ERROR t m" and sent: "should_send l ERROR t m" for l t m
    by (simp_all add: filtered_out_def should_send_def Let_def)
  obtain header where content: "slack_text (mh_dbg h) (sl_threshold layer) (run_id (mh_uuid h)) ts ?ev =
      Some (header @ ''Error running proof service: '' @ mh_show_error h e)"
    unfolding slack_text_def Let_def lvl message by (simp add: not_filtered sent)
  have logged: "log_event h tracing ts ?ev s =
      (Some (sl_webhook layer, header @ ''Error running proof service: '' @ mh_show_error h e), spawn_post s)"
    using enabled [OF lvl] by (simp add: log_event_def slack on_event_def content)
  have tracked: "posts_tracked (spawn_post s)"
    using slack_reachable_tracked [OF posts] by (rule spawn_post_tracked)
  have "posted s \<notin> completed s" using slack_completed_posted [OF posts] by auto
  with tracked have "distinct (handles (spawn_post s))" "posted s \<in> set (handles (spawn_post s))"
    "{..<posted s} - completed s \<subseteq> set (handles (spawn_post s))" "\<not> poisoned (spawn_post s)"
    by (auto simp: posts_tracked_def lessThan_Suc)
  then show ?thesis
    by (simp add: program_main_def ready run main_finish_def logged flush_def)
qed

text \<open>A process that starts on an empty server without an initial checkpoint.\<close>

definition sample_main :: "((string \<times> string) list, nat, unit, exec_provider, unit, unit) main_host" where
  "sample_main = \<lparr>mh_env = sample_env(''REDIS_URL'' \<mapsto> ''r'', ''REDIS_LOCK_DURATION_SECS'' \<mapsto> ''9'',
       ''REDIS_KEY_PREFIX'' \<mapsto> ''p'', ''PORT'' \<mapsto> ''80'', ''SLACK_WEBHOOK_URL'' \<mapsto> ''w''),
     mh_env_filter = Some (), mh_parse_filter = (\<lambda>_. Inr ()), mh_parse_level = (\<lambda>_. None),
     mh_enabled = (\<lambda>_ _. True), mh_dbg = (\<lambda>_. []), mh_uuid = ''abcdef'', mh_setup = Inr sample_sp1,
     mh_text = sample_text,
     mh_json = \<lparr>ser_state = (\<lambda>_. Inl ''none''), de_state = (\<lambda>_. Inl ''none''),
       ser_header = (\<lambda>_. Inl ''none''), de_header = (\<lambda>_. Inl ''none'')\<rparr>,
     mh_connect = (\<lambda>_. Inr (False, Inr sample_redis)), mh_parse_url = (\<lambda>_. Some (sample_provider 3)),
     mh_bind = (\<lambda>_. Inr ()), mh_show_error = (\<lambda>_. ''no checkpoint'')\<rparr>"

lemma sample_main_setup:
  "\<exists>service providers. main_setup sample_main =
     Ok (\<lparr>ts_filter = (), ts_json = False, ts_slack = Some \<lparr>sl_webhook = ''w'', sl_threshold = WARN\<rparr>\<rparr>,
       service, providers, ()) \<and> conn_manager (ps_store service) = sample_redis"
  by (simp add: main_setup_def init_tracing_def slack_layer_from_env_def sp1_from_env_def service_new_def
      redis_store_new_def proxy_try_from_env_def start_api_server_def api_port_def parse_u64_def parse_below_def
      is_digit_def digits_value_def comma_list_def trim_def is_space_def Let_def sample_main_def sample_env_def)

theorem stop_reported_witness:
  "\<exists>header hs w'. program_main sample_main (\<lambda>_. sample_runtime) (sample_attempt 96 0) (0, 0) [] [] slack_start
      (sample_world []) =
    (\<lparr>me_result = Err (Service_stopped Init_checkpoint_missing),
      me_post = Some (''w'', header @ ''Error running proof service: no checkpoint''), me_waited = Some hs\<rparr>, w') \<and>
    0 \<in> set hs"
proof -
  from sample_main_setup obtain service providers where ready: "main_setup sample_main =
     Ok (\<lparr>ts_filter = (), ts_json = False, ts_slack = Some \<lparr>sl_webhook = ''w'', sl_threshold = WARN\<rparr>\<rparr>,
       service, providers, ())" and conn: "conn_manager (ps_store service) = sample_redis" by blast
  have env: "rt_env sample_runtime ''INIT_CHECKPOINT'' = None"
    by (simp add: sample_runtime_def sample_env_def)
  have start: "get_initial_checkpoint sample_runtime service (sample_world []) =
      (Err Init_checkpoint_missing, sample_world [])"
    by (simp add: get_initial_checkpoint_def read_finalized_header_def read_json_value_def redis_call_def conn
        sample_redis_def on_srv_def abind_def amatch_def aret_def afail_def env sample_world_def)
  have run: "run sample_runtime service (sample_attempt 96 0) (0, 0) [] (sample_world []) =
      (Err Init_checkpoint_missing, sample_world [])"
    by (simp add: run_def init_light_client_def abind_def start)
  let ?tracing = "\<lparr>ts_filter = (), ts_json = False, ts_slack = Some \<lparr>sl_webhook = ''w'', sl_threshold = WARN\<rparr>\<rparr>"
  have slack: "ts_slack ?tracing = Some \<lparr>sl_webhook = ''w'', sl_threshold = WARN\<rparr>" by simp
  have enabled: "mh_enabled sample_main (ts_filter ?tracing) ev" for ev by (simp add: sample_main_def)
  have shown: "mh_show_error sample_main Init_checkpoint_missing = ''no checkpoint''" by (simp add: sample_main_def)
  obtain header hs where
    "program_main sample_main (\<lambda>_. sample_runtime) (sample_attempt 96 0) (0, 0) [] [] slack_start (sample_world []) =
      (\<lparr>me_result = Err (Service_stopped Init_checkpoint_missing),
        me_post = Some (''w'', header @ ''Error running proof service: '' @ ''no checkpoint''), me_waited = Some hs\<rparr>,
       sample_world [])" "posted slack_start \<in> set hs"
    using stop_reported [OF ready slack enabled rtranclp.rtrancl_refl, where rt_of = "\<lambda>_. sample_runtime" and ts = "[]", OF run]
    unfolding shown by (elim exE conjE) (rule that; simp)
  then show ?thesis by (intro exI conjI) (simp_all add: slack_start_def)
qed

end
