(* ===== verification/Lifecycle.thy ===== *)
theory Lifecycle
  imports Task_Facts
begin

text \<open>
  The life of a request, as an abstract state machine, and the proof that every operation of the API and
  of the main loop that nothing interferes with refines it: a request is accepted as waiting or
  generating, a waiting one is promoted, and only a failed one can be accepted again. What a task
  stores is in \<open>Task_Facts\<close>.
\<close>

section \<open>The abstract machine\<close>

text \<open>What the API and the main loop may do to a stored state.\<close>

inductive client_move :: "'o proof_request_state option \<Rightarrow> 'o proof_request_state option \<Rightarrow> bool" where
  accept: "restartable x \<Longrightarrow> s = Waiting_for_finality \<or> s = Generating \<Longrightarrow>
    client_move x (Some ((new_request_state rq)\<lparr>status := s\<rparr>))"
| promote: "status st = Waiting_for_finality \<Longrightarrow> client_move (Some st) (Some (st\<lparr>status := Generating\<rparr>))"

definition generating :: "'o proof_request_state option \<Rightarrow> bool" where
  "generating x \<longleftrightarrow> (\<exists>st. x = Some st \<and> status st = Generating)"

inductive_cases client_move_Some: "client_move (Some st) y"

lemma client_move_stuck: "client_move (Some st) y \<Longrightarrow> status st \<noteq> Generating \<and> status st \<noteq> Success"
  by (auto simp: restartable_def elim!: client_move_Some)

lemma client_moves_keep:
  assumes "client_move\<^sup>*\<^sup>* (Some st) y" and "status st = Generating \<or> status st = Success"
  shows "y = Some st"
  using assms by (cases rule: converse_rtranclpE) (auto dest: client_move_stuck)

lemma generating_stays: "client_move\<^sup>*\<^sup>* x y \<Longrightarrow> generating x \<Longrightarrow> generating y"
  by (auto simp: generating_def dest: client_moves_keep)

section \<open>The effect of an operation\<close>

abbreviation held_on where
  "held_on ps live w \<equiv> generation_held (ps_store ps) (live (srv w))"

text \<open>
  Between two worlds every state has made moves of clients, no lock was lost, and every task spawned
  holds a lock that was free, for a request that is generating.
\<close>

definition op_effect ::
  "'x runtime \<Rightarrow> ('r, 'x, 'o) proof_service \<Rightarrow> ('r \<Rightarrow> keyspace) \<Rightarrow> 'r world \<Rightarrow> 'r world \<Rightarrow> bool" where
  "op_effect rt ps live w w' \<longleftrightarrow>
     (service_inv rt ps live w \<longrightarrow>
        service_inv rt ps live w' \<and>
        (\<forall>pid. client_move\<^sup>*\<^sup>* (states_of ps live w pid) (states_of ps live w' pid)) \<and>
        (\<forall>pid. held_on ps live w pid \<longrightarrow> held_on ps live w' pid) \<and>
        (\<exists>new. spawned w' = spawned w @ new \<and> distinct (map snd new) \<and>
           (\<forall>pid \<in> snd ` set new. \<not> held_on ps live w pid \<and> held_on ps live w' pid \<and>
              generating (states_of ps live w' pid))))"

lemma op_effect_refl [simp]: "op_effect rt ps live w w"
  by (simp add: op_effect_def)

lemma op_effect_trans:
  assumes "op_effect rt ps live w w1" and "op_effect rt ps live w1 w2"
  shows "op_effect rt ps live w w2"
  unfolding op_effect_def
proof (intro impI)
  assume inv: "service_inv rt ps live w"
  with assms(1) obtain new1 where 1: "service_inv rt ps live w1"
      "\<And>pid. client_move\<^sup>*\<^sup>* (states_of ps live w pid) (states_of ps live w1 pid)"
      "\<And>pid. held_on ps live w pid \<Longrightarrow> held_on ps live w1 pid"
      "spawned w1 = spawned w @ new1" "distinct (map snd new1)"
      "\<forall>pid \<in> snd ` set new1. \<not> held_on ps live w pid \<and> held_on ps live w1 pid \<and>
         generating (states_of ps live w1 pid)"
    unfolding op_effect_def by blast
  with assms(2) obtain new2 where 2: "service_inv rt ps live w2"
      "\<And>pid. client_move\<^sup>*\<^sup>* (states_of ps live w1 pid) (states_of ps live w2 pid)"
      "\<And>pid. held_on ps live w1 pid \<Longrightarrow> held_on ps live w2 pid"
      "spawned w2 = spawned w1 @ new2" "distinct (map snd new2)"
      "\<forall>pid \<in> snd ` set new2. \<not> held_on ps live w1 pid \<and> held_on ps live w2 pid \<and>
         generating (states_of ps live w2 pid)"
    unfolding op_effect_def by blast
  have "snd ` set new1 \<inter> snd ` set new2 = {}" using 1(6) 2(6) by blast
  then have dist: "distinct (map snd (new1 @ new2))" using 1(5) 2(5) by simp
  note one = 1(6) and two = 2(6) and keep = 1(3) and keep2 = 2(3) and stay = generating_stays [OF 2(2)]
  have tasks: "\<forall>pid \<in> snd ` set (new1 @ new2). \<not> held_on ps live w pid \<and> held_on ps live w2 pid \<and>
      generating (states_of ps live w2 pid)"
  proof
    fix pid assume "pid \<in> snd ` set (new1 @ new2)"
    then consider "pid \<in> snd ` set new1" | "pid \<in> snd ` set new2" by auto
    then show "\<not> held_on ps live w pid \<and> held_on ps live w2 pid \<and> generating (states_of ps live w2 pid)"
    proof cases
      case 1
      with one keep2 stay show ?thesis by blast
    next
      case 2
      with two keep show ?thesis by blast
    qed
  qed
  have moves: "\<forall>pid. client_move\<^sup>*\<^sup>* (states_of ps live w pid) (states_of ps live w2 pid)"
    using rtranclp_trans [OF 1(2) 2(2)] by blast
  have held: "\<forall>pid. held_on ps live w pid \<longrightarrow> held_on ps live w2 pid" using 1(3) 2(3) by blast
  have sp: "spawned w2 = spawned w @ (new1 @ new2)" by (simp add: 1(4) 2(4))
  show "service_inv rt ps live w2 \<and>
      (\<forall>pid. client_move\<^sup>*\<^sup>* (states_of ps live w pid) (states_of ps live w2 pid)) \<and>
      (\<forall>pid. held_on ps live w pid \<longrightarrow> held_on ps live w2 pid) \<and>
      (\<exists>new. spawned w2 = spawned w @ new \<and> distinct (map snd new) \<and>
         (\<forall>pid \<in> snd ` set new. \<not> held_on ps live w pid \<and> held_on ps live w2 pid \<and>
            generating (states_of ps live w2 pid)))"
    by (intro conjI exI [of _ "new1 @ new2"]; fact)
qed

text \<open>A call all of whose outcomes have such an effect; the rules follow the structure of calls.\<close>

definition effects ::
  "'x runtime \<Rightarrow> ('r, 'x, 'o) proof_service \<Rightarrow> ('r \<Rightarrow> keyspace) \<Rightarrow> ('r world, 'e, 'a) act \<Rightarrow> bool" where
  "effects rt ps live m \<longleftrightarrow> (\<forall>w res w'. m w = (res, w') \<longrightarrow> op_effect rt ps live w w')"

lemma effectsD: "effects rt ps live m \<Longrightarrow> m w = (res, w') \<Longrightarrow> op_effect rt ps live w w'"
  by (simp add: effects_def)

lemma effects_simple [simp]:
  "effects rt ps live (aret x)" "effects rt ps live (afail e)" "effects rt ps live (alift r)"
  by (simp_all add: effects_def aret_def afail_def alift_def)

lemma effects_abind:
  assumes "effects rt ps live m" and "\<And>x. effects rt ps live (f x)"
  shows "effects rt ps live (abind m f)"
  unfolding effects_def
proof (intro allI impI)
  fix w res w' assume "abind m f w = (res, w')"
  then show "op_effect rt ps live w w'"
  proof (cases rule: abind_cases)
    case (ok x w1)
    show ?thesis by (rule op_effect_trans [OF effectsD [OF assms(1) ok(1)] effectsD [OF assms(2) ok(2)]])
  qed (use assms(1) in \<open>auto dest: effectsD\<close>)
qed

lemma effects_amatch:
  assumes "effects rt ps live m" and "\<And>x. effects rt ps live (f x)" and "\<And>e. effects rt ps live (g e)"
  shows "effects rt ps live (amatch m f g)"
  unfolding effects_def
proof (intro allI impI)
  fix w res w' assume run: "amatch m f g w = (res, w')"
  obtain s w1 where m: "m w = (s, w1)" by (cases "m w")
  from assms(1) m have 1: "op_effect rt ps live w w1" by (rule effectsD)
  show "op_effect rt ps live w w'"
    using run m 1 op_effect_trans [OF 1 effectsD [OF assms(2)]] op_effect_trans [OF 1 effectsD [OF assms(3)]]
    by (cases s) (auto simp: amatch_def)
qed

lemma effects_finally:
  assumes "effects rt ps live m" and "effects rt ps live fin"
  shows "effects rt ps live (finally_act m fin)"
  unfolding effects_def
proof (intro allI impI)
  fix w res w' assume run: "finally_act m fin w = (res, w')"
  obtain s w1 where m: "m w = (s, w1)" by (cases "m w")
  obtain t w2 where f: "fin w1 = (t, w2)" by (cases "fin w1")
  from effectsD [OF assms(1) m] have 1: "op_effect rt ps live w w1" .
  from effectsD [OF assms(2) f] have 2: "op_effect rt ps live w1 w2" .
  show "op_effect rt ps live w w'"
    using run m f 1 op_effect_trans [OF 1 2] by (cases s) (auto simp: finally_act_def)
qed

section \<open>The operations of the store\<close>

lemma op_effect_same:
  "live (srv w') = live (srv w) \<Longrightarrow> spawned w' = spawned w \<Longrightarrow> op_effect rt ps live w w'"
  by (simp add: op_effect_def service_inv_def)

lemma effects_reads:
  assumes "\<And>r res r'. m r = (res, r') \<Longrightarrow> live r' = live r"
  shows "effects rt ps live (on_srv m)"
  unfolding effects_def
proof (intro allI impI)
  fix w res w' assume "on_srv m w = (res, w')"
  then show "op_effect rt ps live w w'"
    by (cases rule: on_srv_cases) (use assms in \<open>auto intro: op_effect_same\<close>)
qed

text \<open>A search leaves the server as it is, however it ends.\<close>

lemma find_requests_any:
  assumes L: "laws S (=) live" and plain: "plain_prefix S" and run: "find_requests_by_status S fuel st r = (res, r')"
  shows "live r' = live r"
proof -
  have "preserves (\<lambda>r'. live r' = live r) (find_requests_by_status S fuel st)"
    by (rule preserves_find [where I = "\<lambda>m. m = live r", OF L plain stable_eq])
  from ensuresD(1) [OF this refl run] show ?thesis .
qed

lemma effects_read_ops:
  assumes sh: "service_shared rt ps (=) live"
  shows "effects rt ps live (on_srv (read_finalized_header (ps_store ps)))"
    and "effects rt ps live (get_proof ps pid)"
    and "effects rt ps live (on_srv (find_requests_by_status (ps_store ps) fuel st))"
proof -
  note L = sharedD(3) [OF service_sharedD [OF sh]] and plain = sharedD(4) [OF service_sharedD [OF sh]]
  show "effects rt ps live (on_srv (read_finalized_header (ps_store ps)))"
    "effects rt ps live (get_proof ps pid)"
    "effects rt ps live (on_srv (find_requests_by_status (ps_store ps) fuel st))"
    unfolding get_proof_def
    using read_finalized_header_alone [OF L] get_proof_state_alone [OF L] find_requests_any [OF L plain]
    by (blast intro: effects_reads)+
qed

lemma op_effect_global:
  assumes "live (srv w') = (live (srv w))(global_lock_key (ps_store ps) := v)" and "spawned w' = spawned w"
  shows "op_effect rt ps live w w'"
  using assms by (auto simp: op_effect_def service_inv_def store_inv_upd_other key_simps)

lemma effects_global:
  assumes sh: "service_shared rt ps (=) live"
  shows "effects rt ps live (on_srv (acquire_global_lock (ps_store ps)))"
    and "effects rt ps live (on_srv (release_global_lock (ps_store ps)))"
proof -
  note L = sharedD(3) [OF service_sharedD [OF sh]]
  show "effects rt ps live (on_srv (acquire_global_lock (ps_store ps)))"
    unfolding effects_def
  proof (intro allI impI)
    fix w res w' assume "on_srv (acquire_global_lock (ps_store ps)) w = (res, w')"
    then show "op_effect rt ps live w w'"
    proof (cases rule: on_srv_cases)
      case (1 r)
      from lock_alone_any [OF redis_lawsD(10) [OF lawsD(1) [OF L]]
          1(1) [unfolded acquire_global_lock_def try_acquire_lock_def]]
      show ?thesis using 1(2) by (auto intro: op_effect_same op_effect_global)
    qed
  qed
  show "effects rt ps live (on_srv (release_global_lock (ps_store ps)))"
    unfolding effects_def
  proof (intro allI impI)
    fix w res w' assume "on_srv (release_global_lock (ps_store ps)) w = (res, w')"
    then show "op_effect rt ps live w w'"
    proof (cases rule: on_srv_cases)
      case (1 r)
      from release_global_alone [OF L 1(1)]
      show ?thesis using 1(2) by (auto intro: op_effect_same op_effect_global)
    qed
  qed
qed

text \<open>A task is spawned for a request that is generating.\<close>

lemma try_spawn_effect:
  assumes sh: "service_shared rt ps (=) live" and gen: "generating (states_of ps live w (new_id rt ps rq))"
    and run: "try_spawn rt ps rq w = (res, w')"
  shows "op_effect rt ps live w w'"
proof -
  note L = sharedD(3) [OF service_sharedD [OF sh]]
  note one = try_spawn_alone [OF L run] and lck = try_spawn_lock [OF L run]
  have "service_inv rt ps live w \<Longrightarrow> service_inv rt ps live w'"
    using ensuresD(1) [OF preserves_try_spawn [OF sh]] run by blast
  moreover have "\<exists>new. spawned w' = spawned w @ new \<and> distinct (map snd new) \<and>
      (\<forall>pid \<in> snd ` set new. \<not> held_on ps live w pid \<and> held_on ps live w' pid \<and>
         generating (states_of ps live w' pid))"
  proof (cases "spawned w' = spawned w")
    case True
    then show ?thesis by (intro exI [of _ "[]"]) simp
  next
    case False
    with one lck gen show ?thesis
      by (intro exI [of _ "[(rq, new_id rt ps rq)]"]) (auto simp: same_views_def)
  qed
  ultimately show ?thesis using one lck by (simp add: op_effect_def same_views_def)
qed

lemma spawn_loop_effect:
  assumes sh: "service_shared rt ps (=) live"
  shows "afor rqs (try_spawn rt ps) w = (res, w') \<Longrightarrow>
    (\<And>rq. rq \<in> set rqs \<Longrightarrow> generating (states_of ps live w (new_id rt ps rq))) \<Longrightarrow> op_effect rt ps live w w'"
proof (induction rqs arbitrary: w)
  case Nil
  then show ?case by (auto simp: aret_def)
next
  case (Cons rq rqs)
  obtain s w1 where step: "try_spawn rt ps rq w = (s, w1)" by (cases "try_spawn rt ps rq w")
  note one = try_spawn_alone [OF sharedD(3) [OF service_sharedD [OF sh]] step]
  with Cons.prems(1) step have rest: "afor rqs (try_spawn rt ps) w1 = (res, w')" by (auto simp: abind_def)
  have "op_effect rt ps live w w1" using try_spawn_effect [OF sh _ step] Cons.prems(2) by simp
  moreover have "op_effect rt ps live w1 w'"
    using Cons.IH [OF rest] Cons.prems(2) one by (simp add: same_views_def)
  ultimately show ?case by (rule op_effect_trans)
qed

section \<open>The operations of the service\<close>

subsection \<open>Requests\<close>

lemma accept_effect:
  assumes sh: "service_shared rt ps (=) live" and free: "restartable (states_of ps live w (new_id rt ps rq))"
    and s: "s = Waiting_for_finality \<or> s = Generating"
    and run: "on_srv (set_proof_state (ps_store ps) (new_id rt ps rq) ((new_request_state rq)\<lparr>status := s\<rparr>)) w
      = (res, w')"
  shows "op_effect rt ps live w w' \<and>
    (res = Ok () \<longrightarrow> states_of ps live w' (new_id rt ps rq) = Some ((new_request_state rq)\<lparr>status := s\<rparr>))"
proof -
  note sh' = service_sharedD [OF sh]
  note L = sharedD(3) [OF sh']
  let ?st = "(new_request_state rq)\<lparr>status := s\<rparr>" and ?pid = "new_id rt ps rq"
  have inv: "service_inv rt ps live w \<Longrightarrow> service_inv rt ps live w'"
    using ensuresD(1) [OF ensures_on_srv [OF preserves_set_proof_state [OF sh' state_at_fresh [OF s]]]] run
    by blast
  from run show ?thesis
  proof (cases rule: on_srv_cases)
    case (1 r)
    from set_proof_state_alone [OF L 1(1)] consider
        "live r = live (srv w)" "res \<noteq> Ok ()"
      | j where "ser_state (rs_json (ps_store ps)) ?st = Inr j"
          "live r = (live (srv w))(proof_state_key (ps_store ps) ?pid \<mapsto> j)" by auto
    then show ?thesis
    proof cases
      case 1
      with \<open>w' = _\<close> show ?thesis by (auto intro: op_effect_same)
    next
      case 2
      have view: "states_of ps live w' = (states_of ps live w)(?pid \<mapsto> ?st)"
        using 2 \<open>w' = _\<close> state_view_upd [OF L 2(1)] by simp
      have held: "held_on ps live w' = held_on ps live w" using 2 \<open>w' = _\<close> by simp
      have move: "client_move\<^sup>*\<^sup>* (states_of ps live w p) (states_of ps live w' p)" for p
        using accept [OF free s, of rq] by (cases "p = ?pid") (auto simp: view)
      have "spawned w' = spawned w" using \<open>w' = _\<close> by simp
      with inv move held have "op_effect rt ps live w w'" by (simp add: op_effect_def)
      then show ?thesis by (simp add: view)
    qed
  qed
qed

lemma initialize_effect:
  assumes sh: "service_shared rt ps (=) live" and free: "restartable (states_of ps live w (new_id rt ps rq))"
    and run: "initialize_request_locked rt ps fslot block rq w = (res, w')"
  shows "op_effect rt ps live w w'"
proof (cases "src_chain_block_number rq \<le> block \<and> dst_chain_contract_from_head rq < fslot")
  case True
  with run have "abind (on_srv (set_proof_state (ps_store ps) (new_id rt ps rq)
      ((new_request_state rq)\<lparr>status := Generating\<rparr>))) (\<lambda>_. abind (try_spawn rt ps rq) (\<lambda>_. aret Generating)) w
      = (res, w')"
    by (simp add: initialize_request_locked_def Let_def)
  then show ?thesis
  proof (cases rule: abind_cases)
    case (ok u w1)
    from accept_effect [OF sh free _ ok(1)] have 1: "op_effect rt ps live w w1"
      and gen: "generating (states_of ps live w1 (new_id rt ps rq))" by (auto simp: generating_def)
    from ok(2) have "op_effect rt ps live w1 w'"
      by (cases rule: abind_cases) (auto simp: aret_def dest: try_spawn_effect [OF sh gen])
    with 1 show ?thesis by (rule op_effect_trans)
  qed (use accept_effect [OF sh free] in blast)+
next
  case False
  with run have "abind (on_srv (set_proof_state (ps_store ps) (new_id rt ps rq)
      ((new_request_state rq)\<lparr>status := Waiting_for_finality\<rparr>))) (\<lambda>_. aret Waiting_for_finality) w = (res, w')"
    by (auto simp: initialize_request_locked_def Let_def)
  then show ?thesis
    by (cases rule: abind_cases) (use accept_effect [OF sh free] in \<open>auto simp: aret_def\<close>)
qed

lemma process_request_effect:
  assumes sh: "service_shared rt ps (=) live" and run: "process_request_locked rt ps rq locked w = (res, w')"
  shows "op_effect rt ps live w w'"
proof -
  note L = sharedD(3) [OF service_sharedD [OF sh]]
  let ?pid = "new_id rt ps rq"
  let ?init = "\<lambda>hdr ex. abind (initialize_request_locked rt ps (slot (beacon hdr)) (block_number ex) rq)
    (\<lambda>s. aret (?pid, s))"
  have init: "op_effect rt ps live w1 w2"
    if "?init hdr ex w1 = (r, w2)" "restartable (states_of ps live w1 ?pid)" for hdr ex w1 w2 r
    using that(1) by (cases rule: abind_cases) (auto simp: aret_def dest: initialize_effect [OF sh that(2)])
  from run show ?thesis
    unfolding process_request_locked_def Let_def
  proof (cases rule: abind_cases)
    case (ok x w1)
    note get = get_proof_alone [OF L ok(1)] and first = effectsD [OF effects_read_ops(2) [OF sh] ok(1)]
    show ?thesis
    proof (cases locked)
      case False
      with ok(2) have "w' = w1" by (auto simp: aret_def afail_def split: option.splits)
      with first show ?thesis by simp
    next
      case True
      with ok(2) have "abind (on_srv (read_finalized_header (ps_store ps))) (\<lambda>h.
          case h of
            None \<Rightarrow> afail (Internal ''No finalized header available in redis. Wait and try again'')
          | Some hdr \<Rightarrow>
              (case execution hdr of
                 None \<Rightarrow> afail (Internal ''Failed to get execution header.'')
               | Some ex \<Rightarrow>
                   case x of
                     Some state \<Rightarrow> if status state = Errored then ?init hdr ex else aret (?pid, status state)
                   | None \<Rightarrow> ?init hdr ex)) w1 = (res, w')"
        by simp
      then show ?thesis
      proof (cases rule: abind_cases)
        case rd: (ok h w2)
        note hdr = read_header_world [OF L rd(1)]
        have second: "op_effect rt ps live w w2"
          by (rule op_effect_trans [OF first effectsD [OF effects_read_ops(1) [OF sh] rd(1)]])
        have x: "states_of ps live w2 ?pid = x" using get hdr by (simp add: same_views_def)
        have "w' = w2 \<or> op_effect rt ps live w2 w'"
          using rd(2) x init [of _ _ w2]
          by (auto simp: aret_def afail_def restartable_def split: option.splits if_splits)
        then show ?thesis using second op_effect_trans by blast
      qed (use first effects_read_ops(1) [OF sh] op_effect_trans effectsD in blast)+
    qed
  qed (use effects_read_ops(2) [OF sh] effectsD in blast)+
qed

lemma effects_with_global_lock:
  assumes sh: "service_shared rt ps (=) live" and "\<And>b. effects rt ps live (f b)"
  shows "effects rt ps live (with_global_lock ps f)"
  unfolding with_global_lock_def
  by (intro effects_abind effects_finally effects_global [OF sh] assms(2))

lemma effects_request:
  "service_shared rt ps (=) live \<Longrightarrow> effects rt ps live (request_proof rt ps rq)"
  unfolding request_proof_def
  by (rule effects_with_global_lock) (auto simp: effects_def dest: process_request_effect)

subsection \<open>The finalized header\<close>

lemma update_keeps_locks:
  assumes L: "laws (ps_store ps) (=) live"
    and run: "on_srv (update_finalized_header_and_proof_states (ps_store ps) hdr us) w = (res, w')"
  shows "held_on ps live w' = held_on ps live w"
  using run
proof (cases rule: on_srv_cases)
  case (1 r)
  from 1(1) show ?thesis unfolding update_finalized_header_and_proof_states_def
  proof (cases rule: abind_cases)
    case (ok hj r1)
    then have r1: "r1 = srv w" by (auto simp: alift_def)
    from ok(2) show ?thesis
    proof (cases rule: abind_cases)
      case okc: (ok cmds r2)
      then have cmds: "rmapM (state_cmd (ps_store ps)) us = Ok cmds" and r2: "r2 = srv w"
        using r1 by (auto simp: alift_def)
      have "live r = live (srv w) \<or>
          live r = apply_cmds cmds ((live (srv w))(finalized_header_key (ps_store ps) \<mapsto> hj))"
        using write_alone_cases [OF redis_lawsD(7) [OF lawsD(1) [OF L]] okc(2)] r2 by auto
      then show ?thesis using apply_state_cmds_locks [OF cmds] 1(2) by auto
    qed (use r1 1 in \<open>auto simp: alift_def\<close>)
  qed (use 1 in \<open>auto simp: alift_def\<close>)
qed

text \<open>Promoting the waiting requests found before, all at once, and then spawning their tasks.\<close>

lemma promote_effect:
  assumes sh: "service_shared rt ps (=) live"
    and waiting: "\<And>st. st \<in> set sts \<Longrightarrow> status st = Waiting_for_finality \<and>
      states_of ps live w (new_id rt ps (request st)) = Some st \<and> wf_state st"
    and run: "on_srv (update_finalized_header_and_proof_states (ps_store ps) hdr
      (map (\<lambda>st. (new_id rt ps (request st), st\<lparr>status := Generating\<rparr>)) sts)) w = (res, w')"
  shows "op_effect rt ps live w w' \<and>
    (res = Ok () \<longrightarrow> (\<forall>st \<in> set sts. generating (states_of ps live w' (new_id rt ps (request st)))))"
proof -
  note sh' = service_sharedD [OF sh]
  note L = sharedD(3) [OF sh']
  let ?us = "map (\<lambda>st. (new_id rt ps (request st), st\<lparr>status := Generating\<rparr>)) sts"
  have at: "\<forall>(pid, st) \<in> set ?us. state_at (rt_crypto rt) (ps_store ps) pid st"
    using waiting by (auto simp: state_at_def new_id_def intro: wf_state_promote)
  have inv: "service_inv rt ps live w \<Longrightarrow> service_inv rt ps live w'"
    using ensuresD(1) [OF ensures_on_srv [OF preserves_update_header_and_states [OF sh' at]]] run by blast
  have sp: "spawned w' = spawned w"
    and cases: "res \<noteq> Ok () \<and> same_views ps live w w' \<or>
      states_of ps live w' = states_of ps live w ++ map_of (rev ?us)"
    using update_alone [OF L run] by auto
  have held: "held_on ps live w' = held_on ps live w"
    using update_keeps_locks [OF L run] .
  have us: "map_of (rev ?us) p = Some st' \<Longrightarrow>
      \<exists>st. states_of ps live w p = Some st \<and> status st = Waiting_for_finality \<and> st' = st\<lparr>status := Generating\<rparr>" for p st'
    using waiting by (auto dest!: map_of_SomeD)
  have move: "client_move\<^sup>*\<^sup>* (states_of ps live w p) (states_of ps live w' p)" for p
  proof (cases "res \<noteq> Ok () \<and> same_views ps live w w'")
    case True
    then show ?thesis by (simp add: same_views_def)
  next
    case False
    with cases have v: "states_of ps live w' p = (states_of ps live w ++ map_of (rev ?us)) p" by simp
    show ?thesis
    proof (cases "map_of (rev ?us) p")
      case None
      with v show ?thesis by (simp add: map_add_def)
    next
      case (Some st')
      with us obtain st where "states_of ps live w p = Some st" "status st = Waiting_for_finality"
        "st' = st\<lparr>status := Generating\<rparr>" by blast
      with v Some show ?thesis by (auto simp: map_add_def intro: promote)
    qed
  qed
  have "generating (states_of ps live w' (new_id rt ps (request st)))" if "res = Ok ()" "st \<in> set sts" for st
  proof -
    from that cases have v: "states_of ps live w' = states_of ps live w ++ map_of (rev ?us)" by simp
    from that(2) have "new_id rt ps (request st) \<in> fst ` set (rev ?us)" by force
    then obtain st' where "map_of (rev ?us) (new_id rt ps (request st)) = Some st'"
      by (cases "map_of (rev ?us) (new_id rt ps (request st))") (auto simp: map_of_eq_None_iff)
    with us [OF this] v show ?thesis by (auto simp: generating_def map_add_def)
  qed
  with inv sp held move show ?thesis by (simp add: op_effect_def)
qed

lemma found_states:
  assumes sh: "service_shared rt ps (=) live" and complete: "scan_complete live (conn_manager (ps_store ps))"
    and inv: "service_inv rt ps live w"
    and run: "on_srv (find_requests_by_status (ps_store ps) fuel st) w = (Ok found, w')"
  shows "live (srv w') = live (srv w) \<and> spawned w' = spawned w \<and>
    (\<forall>s \<in> set found. status s = st \<and> states_of ps live w (new_id rt ps (request s)) = Some s \<and> wf_state s)"
proof -
  note sh' = service_sharedD [OF sh]
  from inv have inv': "store_inv (rt_crypto rt) (ps_store ps) (live (srv w))" by (simp add: service_inv_def)
  from run obtain r where r: "find_requests_by_status (ps_store ps) fuel st (srv w) = (Ok found, r)"
    and w': "w' = w\<lparr>srv := r\<rparr>" by (rule on_srv_cases)
  from find_requests_alone [OF sharedD(3,4) [OF sh'] complete inv' r]
  have r': "live r = live (srv w)"
    and found: "\<And>s. s \<in> set found \<longleftrightarrow> status s = st \<and> (\<exists>pid. states_of ps live w pid = Some s)" by auto
  have "new_id rt ps (request s) = pid \<and> wf_state s" if "states_of ps live w pid = Some s" for pid s
    using store_inv_state_key [OF inv' sharedD(2) [OF sh']] that
    by (auto simp: state_view_def state_at_def new_id_def)
  with r' w' found show ?thesis by fastforce
qed

lemma process_header_effect:
  assumes sh: "service_shared rt ps (=) live" and complete: "scan_complete live (conn_manager (ps_store ps))"
    and run: "process_new_finalized_header_locked rt ps latest w = (res, w')"
  shows "op_effect rt ps live w w'"
proof (cases "service_inv rt ps live w")
  case False
  then show ?thesis by (simp add: op_effect_def)
next
  case inv: True
  note L = sharedD(3) [OF service_sharedD [OF sh]]
  note rd_effect = effectsD [OF effects_read_ops(1) [OF sh]] and find_effect = effectsD [OF effects_read_ops(3) [OF sh]]
  from run show ?thesis
    unfolding process_new_finalized_header_locked_def Let_def
  proof (cases rule: abind_cases)
    case rd: (ok stored w1)
    note hdr = read_header_world [OF L rd(1)] and first = rd_effect [OF rd(1)]
    with inv have inv1: "service_inv rt ps live w1" by (simp add: op_effect_def)
    from rd(2) consider "w' = w1"
      | "abind (on_srv (find_requests_by_status (ps_store ps) (rt_fuel rt) Waiting_for_finality))
            (\<lambda>waiting_requests.
          case execution latest of
            None \<Rightarrow> afail (Internal ''Failed to get execution header from finality update'')
          | Some ex \<Rightarrow>
              (case collect_promoted rt ps (block_number ex) (slot (beacon latest)) waiting_requests [] [] of
                 (updated_states, requests_to_process_further) \<Rightarrow>
                   abind (on_srv (update_finalized_header_and_proof_states (ps_store ps) latest updated_states))
                     (\<lambda>_. afor requests_to_process_further (try_spawn rt ps)))) w1 = (res, w')"
      by (auto simp: aret_def split: if_splits)
    then show ?thesis
    proof cases
      case 1
      with first show ?thesis by simp
    next
      case 2
      then show ?thesis
      proof (cases rule: abind_cases)
        case find: (ok waiting w2)
        note found = found_states [OF sh complete inv1 find(1)]
        have second: "op_effect rt ps live w w2" by (rule op_effect_trans [OF first find_effect [OF find(1)]])
        show ?thesis
        proof (cases "execution latest")
          case None
          with find(2) second show ?thesis by (simp add: afail_def)
        next
          case (Some ex)
          let ?sts = "filter (promotable (block_number ex) (slot (beacon latest))) waiting"
          from find(2) Some have "abind (on_srv (update_finalized_header_and_proof_states (ps_store ps) latest
              (map (\<lambda>st. (new_id rt ps (request st), st\<lparr>status := Generating\<rparr>)) ?sts)))
              (\<lambda>_. afor (map request ?sts) (try_spawn rt ps)) w2 = (res, w')"
            by (simp add: collect_promoted_spec)
          moreover have sts: "status st = Waiting_for_finality \<and>
              states_of ps live w2 (new_id rt ps (request st)) = Some st \<and> wf_state st" if "st \<in> set ?sts" for st
            using that found by simp
          ultimately show ?thesis
          proof (cases rule: abind_cases)
            case upd: (ok u w3)
            from promote_effect [OF sh sts upd(1)] have third: "op_effect rt ps live w2 w3"
              and gen: "\<forall>st \<in> set ?sts. generating (states_of ps live w3 (new_id rt ps (request st)))" by simp_all
            from gen have "op_effect rt ps live w3 w'" by (intro spawn_loop_effect [OF sh upd(2)]) auto
            with second third show ?thesis by (blast intro: op_effect_trans)
          qed (use promote_effect [OF sh sts] second op_effect_trans in blast)+
        qed
      qed (use first find_effect op_effect_trans in blast)+
    qed
  qed (use rd_effect in blast)+
qed

lemma effects_process_header:
  assumes sh: "service_shared rt ps (=) live" and complete: "scan_complete live (conn_manager (ps_store ps))"
  shows "effects rt ps live (process_new_finalized_header rt ps latest)"
proof -
  have "effects rt ps live (process_new_finalized_header_locked rt ps latest)"
    by (auto simp: effects_def dest: process_header_effect [OF sh complete])
  then show ?thesis
    unfolding process_new_finalized_header_def
    by (intro effects_with_global_lock [OF sh]) (auto intro!: effects_abind)
qed

subsection \<open>Orphans and the main loop\<close>

lemma effects_restart:
  assumes sh: "service_shared rt ps (=) live" and complete: "scan_complete live (conn_manager (ps_store ps))"
  shows "effects rt ps live (restart_orphaned_proofs rt ps)"
  unfolding effects_def
proof (intro allI impI)
  fix w res w' assume run: "restart_orphaned_proofs rt ps w = (res, w')"
  show "op_effect rt ps live w w'"
  proof (cases "service_inv rt ps live w")
    case False
    then show ?thesis by (simp add: op_effect_def)
  next
    case inv: True
    note find_effect = effectsD [OF effects_read_ops(3) [OF sh]]
    from run show ?thesis
      unfolding restart_orphaned_proofs_def
    proof (cases rule: abind_cases)
      case (ok gs w1)
      note found = found_states [OF sh complete inv ok(1)]
      from ok(2) have loop: "afor (map request gs) (try_spawn rt ps) w1 = (res, w')"
        by (simp add: restart_each_loop)
      have "op_effect rt ps live w1 w'"
        by (rule spawn_loop_effect [OF sh loop]) (use found in \<open>auto simp: generating_def\<close>)
      then show ?thesis using find_effect [OF ok(1)] op_effect_trans by blast
    qed (use find_effect in blast)+
  qed
qed

lemma effects_turn:
  assumes sh: "service_shared rt ps (=) live" and complete: "scan_complete live (conn_manager (ps_store ps))"
  shows "effects rt ps live (run_turn rt ps tn v)"
proof -
  note L = sharedD(3) [OF service_sharedD [OF sh]]
  have age: "live r' = live r" if "get_stored_header_age chk (ps_store ps) cfg now r = (res, r')" for chk cfg now r res r'
    using that unfolding get_stored_header_age_def
    by (cases rule: abind_cases)
       (auto simp: aret_def alift_def dest: read_finalized_header_alone [OF L] split: option.splits)
  have health: "live r' = live r" if run: "check_header_health chk (ps_store ps) cfg now r = (res, r')"
    for chk cfg now r res r'
  proof -
    obtain s r1 where "get_stored_header_age chk (ps_store ps) cfg now r = (s, r1)"
      by (cases "get_stored_header_age chk (ps_store ps) cfg now r")
    with age [OF this] run show ?thesis
      by (cases s) (auto simp: check_header_health_def amatch_def aret_def afail_def split: option.splits if_splits)
  qed
  show ?thesis
    unfolding run_turn_def update_redis_state_def
    by (auto intro!: effects_abind effects_amatch effects_reads effects_process_header [OF sh complete]
        effects_restart [OF sh complete] dest: health)
qed

section \<open>Properties\<close>

text \<open>The operations of the API and of the main loop, with any result.\<close>

inductive client_operation ::
  "'x runtime \<Rightarrow> ('r, 'x, 'o) proof_service \<Rightarrow> 'r world \<Rightarrow> 'r world \<Rightarrow> bool"
  for rt :: "'x runtime" and ps :: "('r, 'x, 'o) proof_service" where
  op_request: "request_proof rt ps rq w = (res, w') \<Longrightarrow> client_operation rt ps w w'"
| op_header: "process_new_finalized_header rt ps hdr w = (res, w') \<Longrightarrow> client_operation rt ps w w'"
| op_restart: "restart_orphaned_proofs rt ps w = (res, w') \<Longrightarrow> client_operation rt ps w w'"
| op_turn: "run_turn rt ps tn v w = (res, w') \<Longrightarrow> client_operation rt ps w w'"

lemma client_operation_effect:
  assumes "service_shared rt ps (=) live" and "scan_complete live (conn_manager (ps_store ps))"
    and "client_operation rt ps w w'"
  shows "op_effect rt ps live w w'"
  using assms(3)
  by cases (blast intro: effectsD [OF effects_request [OF assms(1)]] effectsD [OF effects_process_header [OF assms(1,2)]]
      effectsD [OF effects_restart [OF assms(1,2)]] effectsD [OF effects_turn [OF assms(1,2)]])+

text \<open>
  C5: an operation of the API or of the main loop that nothing interferes with, however it ends and
  whatever the server's errors, follows the life cycle: every stored state makes only moves of clients,
  so that a generating request and a success stay what they are; no lock is lost; and every task it
  spawns is the only one for its request and holds a lock that was free before, and its request is then
  stored as generating. (Operations whose commands interleave are the subject of \<open>Lock_Exclusion\<close>, where
  a success may be lost.)
\<close>

theorem client_operations_follow_lifecycle:
  assumes sh: "service_shared rt ps (=) live" and complete: "scan_complete live (conn_manager (ps_store ps))"
    and inv: "service_inv rt ps live w" and op: "client_operation rt ps w w'"
  shows "(\<forall>pid. client_move\<^sup>*\<^sup>* (states_of ps live w pid) (states_of ps live w' pid)) \<and>
    (\<forall>pid st. states_of ps live w pid = Some st \<and> (status st = Generating \<or> status st = Success) \<longrightarrow>
       states_of ps live w' pid = Some st) \<and>
    (\<forall>pid. generation_held (ps_store ps) (live (srv w)) pid \<longrightarrow> generation_held (ps_store ps) (live (srv w')) pid) \<and>
    (\<exists>new. spawned w' = spawned w @ new \<and> distinct (map snd new) \<and>
       (\<forall>(rq, pid) \<in> set new. \<not> generation_held (ps_store ps) (live (srv w)) pid \<and>
          generation_held (ps_store ps) (live (srv w')) pid \<and>
          (\<exists>st. states_of ps live w' pid = Some st \<and> status st = Generating)))"
proof -
  from client_operation_effect [OF sh complete op] inv obtain new where
    moves: "\<And>pid. client_move\<^sup>*\<^sup>* (states_of ps live w pid) (states_of ps live w' pid)"
    and held: "\<And>pid. held_on ps live w pid \<Longrightarrow> held_on ps live w' pid"
    and new: "spawned w' = spawned w @ new" "distinct (map snd new)"
      "\<forall>pid \<in> snd ` set new. \<not> held_on ps live w pid \<and> held_on ps live w' pid \<and>
         generating (states_of ps live w' pid)"
    unfolding op_effect_def by blast
  have "states_of ps live w' pid = Some st"
    if "states_of ps live w pid = Some st" "status st = Generating \<or> status st = Success" for pid st
    using moves [of pid] that by (auto dest: client_moves_keep)
  moreover have "\<forall>(rq, pid) \<in> set new. \<not> held_on ps live w pid \<and> held_on ps live w' pid \<and>
      (\<exists>st. states_of ps live w' pid = Some st \<and> status st = Generating)"
    using new(3) by (force simp: generating_def)
  ultimately show ?thesis using moves held new(1,2) by blast
qed

theorem client_operations_follow_lifecycle_witness:
  "\<exists>w'. client_operation sample_runtime sample_service
      (sample_world [(sample_header_key, ''32''), (sample_key, ''w'')]) w' \<and>
    client_move\<^sup>*\<^sup>* (Some (sample_state Waiting_for_finality)) (states_of sample_service map_of w' sample_pid) \<and>
    spawned w' = [(sample_request, sample_pid)] \<and> generation_held sample_store_conn (map_of (srv w')) sample_pid"
proof -
  let ?w = "sample_world [(sample_header_key, ''32''), (sample_key, ''w'')]"
  let ?w' = "\<lparr>srv = [(sample_header_key, ''64''), (sample_key, ''g''), (sample_lock_key, ''locked'')],
    spawned = [(sample_request, sample_pid)]\<rparr>"
  have complete: "scan_complete map_of (conn_manager (ps_store sample_service))"
    using sample_scan_complete by simp
  have view: "states_of sample_service map_of ?w sample_pid = Some (sample_state Waiting_for_finality)"
    by (simp add: state_view_def sample_keys sample_json_simps)
  have op: "client_operation sample_runtime sample_service ?w ?w'"
    by (rule op_header [OF sample_process_header])
  note life = client_operations_follow_lifecycle [OF sample_shared complete sample_waiting_inv op]
  from life [THEN conjunct1, rule_format, of sample_pid] view
  have "client_move\<^sup>*\<^sup>* (Some (sample_state Waiting_for_finality)) (states_of sample_service map_of ?w' sample_pid)"
    by simp
  moreover have "generation_held sample_store_conn (map_of (srv ?w')) sample_pid"
    by (simp add: generation_held_def sample_keys)
  ultimately show ?thesis using op by (intro exI [of _ ?w']) simp
qed

end
