(* ===== verification/Spec2Isabelle.thy ===== *)
theory Spec2Isabelle
  imports Sp1_Backend Api_Properties Tracing_Facts Lock_Timing Lock_Exclusion Genesis_Facts Startup_Facts Lifecycle
begin

text \<open>
  A verification library for SP1-Helios: an Ethereum light client proved in the SP1 zero-knowledge
  virtual machine, the service that prepares the inputs of its proofs and stores the results, and the
  tool that writes the parameters its contract is deployed with.

  \<^bold>\<open>The program.\<close> A client asks the service (\<open>zk-api\<close>) over HTTP for a proof that some storage slots of
  a source-chain contract have certain values. The service identifies the request by a hash, files it in
  Redis, waits for the finalized header to pass the requested block, and then starts a generation
  task. The task boots a light client on the header the destination contract knows, follows the chain
  through several consensus endpoints, fetches and checks Merkle proofs from execution endpoints, and
  hands the inputs to the prover. The prover runs the guest program (\<open>program\<close>), which verifies
  everything again and commits the outputs that the contract reads. Several workers share one Redis
  server; a global lock and one lock per task coordinate them. A main loop follows the finalized
  header, promotes waiting requests and restarts tasks whose worker has died.

  \<^bold>\<open>Theories, in the order of the code they model.\<close>

  \<^item> \<open>Prelude\<close>: outcomes of Rust calls (\<open>res\<close>), calls over a world (\<open>act\<close>), machine words with and
    without overflow checks, collections of facts. \<open>Rust_Strings\<close>, \<open>Byte_Words\<close>: the parts of \<open>str\<close> and of
    byte slices that are used. \<open>External\<close>: the libraries as parameters. \<open>Samples\<close>, \<open>Service_Samples\<close>:
    instances of them for the witnesses, on which nothing else depends.
  \<^item> \<open>Storage_Proofs\<close>: \<open>primitives/src/types.rs\<close>, \<open>ContractStorageBuilder::build\<close> and the service's copy of
    the storage check (\<open>lib.rs\<close>). \<open>Zk_Program\<close>: the guest, \<open>program/src/main.rs\<close>, against an abstract
    acceptance predicate \<open>guest_accepts\<close>.
  \<^item> \<open>Chain_Clock\<close>, \<open>Racing\<close>, \<open>Consensus_Client\<close>: the light client, \<open>consensus_client/mod.rs\<close>; its
    properties are in \<open>Client_Facts\<close> and \<open>Client_Outcomes\<close>. \<open>Rpc_Proxies\<close>: the execution proxy.
  \<^item> \<open>Redis\<close>, \<open>Redis_Store\<close>: the server's documented laws and every operation of \<open>redis_store.rs\<close>; \<open>Store_Facts\<close>
    and \<open>Store_Search\<close> hold its contracts, the search by status and the invariant of the stored states.
  \<^item> \<open>Proof_Types\<close>, \<open>Proof_Service\<close>, \<open>Proof_Runtime\<close>: \<open>types.rs\<close> and \<open>proof_service.rs\<close>. The facts are in
    \<open>Service_Facts\<close> (requests), \<open>Header_Facts\<close> (following the finalized header), \<open>Task_Facts\<close> (generation
    tasks), \<open>Service_Invariant\<close> (all operations interleaved on a shared server), \<open>Lifecycle\<close> (the abstract
    life of a request, refined by every operation that nothing interferes with), \<open>Lock_Exclusion\<close> (what a
    held lock excludes when commands interleave, and the restart that it does not exclude) and
    \<open>Lock_Timing\<close> (how long a task's lock lives on a server whose keys expire).
  \<^item> \<open>Sp1_Backend\<close>: \<open>proof_backends\<close>. \<open>End_To_End\<close>: service and guest composed.
  \<^item> \<open>Api\<close>, \<open>Api_Facts\<close>, \<open>Api_Properties\<close>: the HTTP API, \<open>api.rs\<close>.
  \<^item> \<open>Tracing\<close>, \<open>Tracing_Facts\<close>: the log entries and the Slack layer, \<open>tracing/mod.rs\<close> and \<open>slack.rs\<close>.
  \<^item> \<open>Startup\<close>, \<open>Startup_Facts\<close>: \<open>main.rs\<close>, \<open>SP1Backend::from_env\<close> and \<open>ProofService::new\<close>.
  \<^item> \<open>Checkpoints\<close>, \<open>Genesis\<close>, \<open>Genesis_Facts\<close>: the checkpoint helpers of \<open>lib.rs\<close> and \<open>cli/bin/genesis.rs\<close>.

  \<^bold>\<open>State and operations.\<close> A definition has the name of the function it models. The client is the
  record \<open>client\<close>; an operation on it is a call over the client. The store's state is a Redis server of an
  arbitrary type, of which a map \<open>live\<close> from keys to values is visible; the service's world adds the
  list of spawned tasks. What the network answers during one operation is an argument: a \<open>net\<close> gives
  each endpoint's answers, its timer and its clock readings, so concurrency between endpoints is the
  arbitrary choice of those values, and concurrency between workers is a relation \<open>rely\<close> by which the
  server may change before every command. Errors are values; \<open>unwrap\<close>, \<open>assert!\<close>, slice lengths,
  time subtraction and checked arithmetic are panics, and the flag \<open>chk\<close> chooses between a checked and
  a wrapping build.

  \<^bold>\<open>Interfaces.\<close> The locale \<open>advancement\<close> is the contract of the loop that picks the most advanced result,
  interpreted by the comparison of stores, of traces and of advanced stores. \<open>cell_store\<close> is the
  contract of a stored value (read after write, frame), interpreted by the request states and by the
  finalized header; \<open>lock_service\<close> that of a lock, interpreted by the task locks and by the global lock.

  \<^bold>\<open>What the lemmas show.\<close>

  \<^item> The guest refines its acceptance predicate, commits only newer heads, and its storage check is the
    service's. Inputs that the service builds within one slot are accepted by the guest when their
    finality update finalizes its header, and a stored success attests an accepted run.
  \<^item> The client: synchronisation returns the most advanced timely trace, traces replay, batches cover
    the gap, heads never go back, bootstraps match their checkpoint.
  \<^item> The store: round trips, exact search by status, locks; on a shared server every stored state stays
    well-formed under its own identifier, and the stored header never goes back.
  \<^item> The service: the outcome of requests, headers, tasks and restarts on every branch. Each operation
    of the API and the main loop, on its own, refines the life cycle of a request. When commands
    interleave, a held lock excludes a second task, and the extension task keeps the lock if its
    commands come in time; but a restart that acts on an old reading can replace a success.
  \<^item> The API: exact validation, the exact status code of every call, agreement of what is reported with
    what is stored. Logging: no post is lost at shutdown, and the reason for stopping is posted.
  \<^item> Genesis: the written parameters describe one verified store. Where the code does not do what it
    means to, a theorem says what it does instead.

  \<^bold>\<open>Bounds.\<close> Two loops of the program need not end: the scan of the server's keys and the repeated attempt
  to store a task's result. Both take the fuel \<open>rt_fuel\<close>: \<open>search_more_fuel\<close> says that a search that ends
  within its fuel ends in the same way with more, and \<open>store_retries_until_accepted\<close> which fuel suffices
  for a server that accepts a write at last. That the cursors of a scan come to an end is up to the
  server; a theorem about a search that returns does not say that it does. The light
  client's batches (128 periods each), the three attempts to build inputs, the search for the
  project's root and every other loop are total functions. The main loop and the lock's extension run over the list of the
  turns and events that happen.

  \<^bold>\<open>Trust.\<close> The hypotheses about code outside the repository are named: \<open>select_ok_spec\<close>, \<open>redis_laws\<close>,
  \<open>expiry_laws\<close>, \<open>scan_complete\<close>, \<open>json_law\<close>, \<open>hex_law\<close>, \<open>parse_law\<close>, \<open>prover_law\<close>, \<open>helios_monotone\<close>,
  \<open>helios_fresh_bootstrap\<close>, \<open>helios_finalizes\<close>, \<open>helios_rejects_future\<close>, \<open>file_write_law\<close>; each has an instance
  in the witnesses. The search by status needs a key prefix without pattern characters (\<open>plain_prefix\<close>).

  \<^bold>\<open>Not modelled.\<close> The calls into the SP1 SDK and the libraries (parameters), the OpenAPI documents and axum's
  extraction, the texts of most anyhow errors and log messages, the key-printing tool \<open>cli/bin/vkey.rs\<close> and
  the build script, which only call the SDK, the cancellation guard of \<open>util.rs\<close>, whose effect is the
  event \<open>Cancelled\<close> of the lock extension, and the tests against live services. Strings are lists
  of bytes, and white space is ASCII. Expiry of keys is part of what may happen between two commands;
  in \<open>Lock_Timing\<close> it is the only such thing, and measured.
\<close>

end
